(* ===== verification/Relay_Prelude.thy ===== *)
theory Relay_Prelude
  imports Main "HOL-Library.AList" "HOL-Library.Word" "HOL-Library.Sublist"
begin

text \<open>
  Shared vocabulary of the development: the Go types the components are built from, and the
  lemmas about them that every component uses.

  A Go map is an association list with pairwise distinct keys (\<open>gwf\<close>); \<open>gget\<close>, \<open>gput\<close> and
  \<open>gdel\<close> are the index expression, the assignment and \<open>delete\<close>.  The language does not fix
  the order in which \<open>range\<close> visits a map, and two loops over one map may use different orders, so
  an operation that ranges over a map takes the visiting order as an argument, and
  \<open>range_order\<close> says which lists are possible orders.  A Go set (a map to \<open>true\<close>) is a list
  without duplicates.  Instants are nanoseconds since the zero \<open>time.Time\<close>, so \<open>IsZero\<close> is the
  comparison with 0 and the clock is an argument of the operations that read it.
\<close>

section \<open>Collections of rewrite rules\<close>

named_theorems gmap_simps "look-ups in maps after updates and deletions"
named_theorems unfold_ops "defining equations of the operations without recursion"

section \<open>Go types\<close>

type_synonym u32 = "32 word"
type_synonym u64 = "64 word"
type_synonym time = int
type_synonym ('k, 'v) gomap = "('k \<times> 'v) list"

definition is_zero_time :: "time \<Rightarrow> bool" where
  "is_zero_time t \<longleftrightarrow> t = 0"

text \<open>\<open>Time.Sub\<close> returns a 64-bit duration and saturates at its ends.\<close>

definition max_duration :: int where
  "max_duration = 2 ^ 63 - 1"

definition time_sub :: "time \<Rightarrow> time \<Rightarrow> int" where
  "time_sub t u = max (- (2 ^ 63)) (min max_duration (t - u))"

section \<open>Errors\<close>

text \<open>An error, or the result handed to the rest of the function; and an error given a context.\<close>

definition on_ok :: "'e + 'a \<Rightarrow> ('a \<Rightarrow> 'e + 'b) \<Rightarrow> 'e + 'b" where
  "on_ok r f = (case r of Inl e \<Rightarrow> Inl e | Inr x \<Rightarrow> f x)"

definition wrap_error :: "('e \<Rightarrow> 'f) \<Rightarrow> 'e + 'a \<Rightarrow> 'f + 'a" where
  "wrap_error c r = (case r of Inl e \<Rightarrow> Inl (c e) | Inr x \<Rightarrow> Inr x)"

lemma on_ok_Inr [simp]: "on_ok r f = Inr y \<longleftrightarrow> (\<exists>x. r = Inr x \<and> f x = Inr y)"
  by (cases r) (simp_all add: on_ok_def)

lemma wrap_error_Inr [simp]: "wrap_error c r = Inr y \<longleftrightarrow> r = Inr y"
  by (cases r) (simp_all add: wrap_error_def)

section \<open>Maps\<close>

definition gget :: "('k, 'v) gomap \<Rightarrow> 'k \<Rightarrow> 'v option" where
  "gget m k = map_of m k"

definition gput :: "'k \<Rightarrow> 'v \<Rightarrow> ('k, 'v) gomap \<Rightarrow> ('k, 'v) gomap" where
  "gput k v m = AList.update k v m"

definition gdel :: "'k \<Rightarrow> ('k, 'v) gomap \<Rightarrow> ('k, 'v) gomap" where
  "gdel k m = filter (\<lambda>p. fst p \<noteq> k) m"

definition gkeys :: "('k, 'v) gomap \<Rightarrow> 'k list" where
  "gkeys m = map fst m"

definition ghas :: "('k, 'v) gomap \<Rightarrow> 'k \<Rightarrow> bool" where
  "ghas m k \<longleftrightarrow> gget m k \<noteq> None"

definition gwf :: "('k, 'v) gomap \<Rightarrow> bool" where
  "gwf m \<longleftrightarrow> distinct (gkeys m)"

definition range_order :: "('k, 'v) gomap \<Rightarrow> 'k list \<Rightarrow> bool" where
  "range_order m ks \<longleftrightarrow> distinct ks \<and> set ks = set (gkeys m)"

text \<open>Adding an element to a Go set.\<close>

definition sadd :: "'a \<Rightarrow> 'a list \<Rightarrow> 'a list" where
  "sadd x xs = (if x \<in> set xs then xs else xs @ [x])"

lemma gget_Nil [gmap_simps, simp]: "gget [] k = None"
  by (simp add: gget_def)

lemma gget_gput [gmap_simps, simp]: "gget (gput k v m) k' = (if k' = k then Some v else gget m k')"
  by (simp add: gget_def gput_def update_conv')

lemma gget_gdel [gmap_simps, simp]: "gget (gdel k m) k' = (if k' = k then None else gget m k')"
  by (induction m) (auto simp: gget_def gdel_def)

lemma set_gkeys [gmap_simps]: "set (gkeys m) = {k. gget m k \<noteq> None}"
  unfolding gkeys_def gget_def by (auto simp: map_of_eq_None_iff image_iff)

lemma in_gkeys_iff: "k \<in> set (gkeys m) \<longleftrightarrow> gget m k \<noteq> None"
  by (simp add: set_gkeys)

lemma ghas_iff: "ghas m k \<longleftrightarrow> k \<in> set (gkeys m)"
  by (simp add: ghas_def set_gkeys)

lemma set_gkeys_gput [simp]: "set (gkeys (gput k v m)) = insert k (set (gkeys m))"
  by (auto simp: set_gkeys)

lemma set_gkeys_gdel [simp]: "set (gkeys (gdel k m)) = set (gkeys m) - {k}"
  by (auto simp: set_gkeys)

lemma gwf_Nil [simp, intro]: "gwf []"
  by (simp add: gwf_def gkeys_def)

lemma gwf_gput [simp, intro]: "gwf m \<Longrightarrow> gwf (gput k v m)"
  unfolding gwf_def gkeys_def gput_def by (rule distinct_update)

lemma gwf_gdel [simp, intro]: "gwf m \<Longrightarrow> gwf (gdel k m)"
  unfolding gwf_def gkeys_def gdel_def by (induction m) auto

lemma gkeys_gput_present: "gget m k \<noteq> None \<Longrightarrow> gkeys (gput k v m) = gkeys m"
  by (induction m) (auto simp: gkeys_def gput_def gget_def split: if_splits)

lemma gkeys_gput_fresh: "gget m k = None \<Longrightarrow> gkeys (gput k v m) = gkeys m @ [k]"
  by (induction m) (auto simp: gkeys_def gput_def gget_def split: if_splits)

lemma length_gput_fresh: "gget m k = None \<Longrightarrow> length (gput k v m) = Suc (length m)"
  using arg_cong [OF gkeys_gput_fresh [of m k v], of length] by (simp add: gkeys_def)

lemma gget_SomeI: "gwf m \<Longrightarrow> (k, v) \<in> set m \<Longrightarrow> gget m k = Some v"
  by (simp add: gget_def gwf_def gkeys_def)

lemma gget_Some_iff: "gwf m \<Longrightarrow> gget m k = Some v \<longleftrightarrow> (k, v) \<in> set m"
  by (auto simp: gget_def gwf_def gkeys_def dest: map_of_SomeD)

lemma gget_filter:
  "gwf m \<Longrightarrow> gget (filter (\<lambda>(x, y). P x y) m) k =
     (case gget m k of None \<Rightarrow> None | Some v \<Rightarrow> if P k v then Some v else None)"
proof (induction m)
  case (Cons p m)
  obtain x y where p: "p = (x, y)" by (cases p)
  have "gwf m" using Cons.prems by (simp add: gwf_def gkeys_def)
  moreover have "gget m x = None" using Cons.prems p
    by (simp add: gwf_def gkeys_def gget_def map_of_eq_None_iff)
  ultimately show ?case using Cons.IH p by (auto simp: gget_def split: option.splits)
qed simp

lemma gwf_filter: "gwf m \<Longrightarrow> gwf (filter P m)"
  by (induction m) (auto simp: gwf_def gkeys_def)

lemma list_all_gomap:
  "gwf m \<Longrightarrow> list_all (\<lambda>(x, y). P x y) m \<longleftrightarrow> (\<forall>x y. gget m x = Some y \<longrightarrow> P x y)"
  by (auto simp: list_all_iff gget_Some_iff)

lemma range_order_keys [intro]: "gwf m \<Longrightarrow> range_order m (gkeys m)"
  by (simp add: range_order_def gwf_def)

lemma range_order_set: "range_order m ks \<Longrightarrow> k \<in> set ks \<longleftrightarrow> gget m k \<noteq> None"
  by (simp add: range_order_def set_gkeys)

lemma range_order_length: "gwf m \<Longrightarrow> range_order m ks \<Longrightarrow> length ks = length m"
  unfolding range_order_def gwf_def
  by (metis distinct_card gkeys_def length_map)

lemma set_sadd [simp]: "set (sadd x xs) = insert x (set xs)"
  by (auto simp: sadd_def)

lemma distinct_sadd [simp, intro]: "distinct xs \<Longrightarrow> distinct (sadd x xs)"
  by (simp add: sadd_def)

end
