(* ===== verification/Task.thy ===== *)
theory Task
  imports Relay_Prelude
begin

text \<open>
  The task record and its life cycle, \<open>pkg/dag/task.go\<close>.  \<open>TaskState\<close> is the enumeration
  the package declares; the lemmas describe the life cycle as a whole: which chains of transitions
  exist, that a final state is final, and that the time stamps follow the state.
\<close>

section \<open>Task states\<close>

datatype task_state =
    TaskPending
  | TaskReady
  | TaskScheduled
  | TaskRunning
  | TaskPassed
  | TaskFailed
  | TaskSkipped
  | TaskCancelled
  | TaskTimedOut

fun task_state_string :: "task_state \<Rightarrow> string" where
  "task_state_string TaskPending = ''pending''"
| "task_state_string TaskReady = ''ready''"
| "task_state_string TaskScheduled = ''scheduled''"
| "task_state_string TaskRunning = ''running''"
| "task_state_string TaskPassed = ''passed''"
| "task_state_string TaskFailed = ''failed''"
| "task_state_string TaskSkipped = ''skipped''"
| "task_state_string TaskCancelled = ''cancelled''"
| "task_state_string TaskTimedOut = ''timed_out''"

fun is_terminal :: "task_state \<Rightarrow> bool" where
  "is_terminal TaskPassed = True"
| "is_terminal TaskFailed = True"
| "is_terminal TaskSkipped = True"
| "is_terminal TaskCancelled = True"
| "is_terminal TaskTimedOut = True"
| "is_terminal _ = False"

definition is_success :: "task_state \<Rightarrow> bool" where
  "is_success s \<longleftrightarrow> s = TaskPassed"

text \<open>The table \<open>validTransitions\<close>; a state without an entry has no successor.\<close>

fun valid_transitions :: "task_state \<Rightarrow> task_state list option" where
  "valid_transitions TaskPending = Some [TaskReady, TaskSkipped, TaskCancelled]"
| "valid_transitions TaskReady = Some [TaskScheduled, TaskCancelled]"
| "valid_transitions TaskScheduled = Some [TaskRunning, TaskCancelled, TaskTimedOut]"
| "valid_transitions TaskRunning = Some [TaskPassed, TaskFailed, TaskCancelled, TaskTimedOut]"
| "valid_transitions _ = None"

section \<open>Tasks\<close>

record cache_mount =
  cm_CacheKey :: string
  cm_MountPath :: string
  cm_ReadOnly :: bool

record task =
  t_ID :: string
  t_Name :: string
  t_State :: task_state
  t_Condition :: string
  t_ContainerImage :: string
  t_Commands :: "string list"
  t_Env :: "(string, string) gomap"
  t_CPUMillicores :: u32
  t_MemoryMB :: u32
  t_DiskMB :: u32
  t_TimeoutSeconds :: u32
  t_CacheMounts :: "cache_mount list"
  t_SecretRefs :: "string list"
  t_ExitCode :: int
  t_ErrorMessage :: string
  t_StartedAt :: time
  t_FinishedAt :: time

text \<open>The zero value of the struct, which a composite literal starts from.\<close>

definition zero_task :: task where
  "zero_task = \<lparr> t_ID = [], t_Name = [], t_State = TaskPending, t_Condition = [],
     t_ContainerImage = [], t_Commands = [], t_Env = [], t_CPUMillicores = 0, t_MemoryMB = 0,
     t_DiskMB = 0, t_TimeoutSeconds = 0, t_CacheMounts = [], t_SecretRefs = [], t_ExitCode = 0,
     t_ErrorMessage = [], t_StartedAt = 0, t_FinishedAt = 0 \<rparr>"

definition should_run_after_failure :: "task \<Rightarrow> bool" where
  "should_run_after_failure t \<longleftrightarrow> t_Condition t = ''always'' \<or> t_Condition t = ''on_failure''"

datatype dag_error =
    EmptyTaskID
  | DuplicateTaskID string
  | ParentNotFound string
  | ChildNotFound string
  | SelfDependency string
  | CycleDetected "string list"
  | DagTaskNotFound string
  | InvalidTransition task_state task_state string

definition can_transition_to :: "task \<Rightarrow> task_state \<Rightarrow> bool" where
  "can_transition_to t target =
     (case valid_transitions (t_State t) of
        None \<Rightarrow> False
      | Some allowed \<Rightarrow> target \<in> set allowed)"

definition transition_to :: "time \<Rightarrow> task_state \<Rightarrow> task \<Rightarrow> dag_error + task" where
  "transition_to now target t =
     (if \<not> can_transition_to t target then Inl (InvalidTransition (t_State t) target (t_Name t))
      else
        let t1 = t\<lparr> t_State := target \<rparr>;
            t2 = (if target = TaskRunning then t1\<lparr> t_StartedAt := now \<rparr> else t1);
            t3 = (if is_terminal target then t2\<lparr> t_FinishedAt := now \<rparr> else t2)
        in Inr t3)"

section \<open>The life cycle\<close>

text \<open>How many transitions a task in a given state can still make at most.\<close>

fun state_rank :: "task_state \<Rightarrow> nat" where
  "state_rank TaskPending = 4"
| "state_rank TaskReady = 3"
| "state_rank TaskScheduled = 2"
| "state_rank TaskRunning = 1"
| "state_rank _ = 0"

lemma is_terminal_rank: "is_terminal s \<longleftrightarrow> state_rank s = 0"
  by (cases s) auto

lemma is_terminal_iff: "is_terminal s \<longleftrightarrow>
    s = TaskPassed \<or> s = TaskFailed \<or> s = TaskSkipped \<or> s = TaskCancelled \<or> s = TaskTimedOut"
  by (cases s) auto

lemma task_state_string_inj: "inj task_state_string"
proof (rule injI)
  fix a b assume "task_state_string a = task_state_string b"
  then show "a = b" by (cases a; cases b; simp)
qed

lemma can_transition_rank:
  "can_transition_to t s \<Longrightarrow> state_rank s < state_rank (t_State t)"
  by (cases "t_State t") (auto simp: can_transition_to_def)

lemma terminal_no_transition: "is_terminal (t_State t) \<Longrightarrow> \<not> can_transition_to t s"
  by (cases "t_State t") (auto simp: can_transition_to_def)

lemma transition_to_Inr_iff:
  "transition_to now s t = Inr t' \<longleftrightarrow> can_transition_to t s \<and>
     t' = t\<lparr> t_State := s,
            t_StartedAt := (if s = TaskRunning then now else t_StartedAt t),
            t_FinishedAt := (if is_terminal s then now else t_FinishedAt t) \<rparr>"
  by (auto simp: transition_to_def Let_def)

lemma transition_to_Inl_iff:
  "transition_to now s t = Inl e \<longleftrightarrow>
     \<not> can_transition_to t s \<and> e = InvalidTransition (t_State t) s (t_Name t)"
  by (auto simp: transition_to_def Let_def)

lemma transition_to_state: "transition_to now s t = Inr t' \<Longrightarrow> t_State t' = s"
  by (simp add: transition_to_Inr_iff)

lemma transition_to_frame:
  assumes "transition_to now s t = Inr t'"
  shows "t_ID t' = t_ID t" "t_Name t' = t_Name t" "t_Condition t' = t_Condition t"
    "t_CPUMillicores t' = t_CPUMillicores t" "t_MemoryMB t' = t_MemoryMB t"
    "t_DiskMB t' = t_DiskMB t"
  using assms by (simp_all add: transition_to_Inr_iff)

text \<open>A chain of successful transitions, each at its own time.\<close>

fun run_transitions :: "(time \<times> task_state) list \<Rightarrow> task \<Rightarrow> dag_error + task" where
  "run_transitions [] t = Inr t"
| "run_transitions ((now, s) # rest) t =
     (case transition_to now s t of Inl e \<Rightarrow> Inl e | Inr t' \<Rightarrow> run_transitions rest t')"

lemma run_transitions_rank:
  "run_transitions steps t = Inr t' \<Longrightarrow>
     length steps + state_rank (t_State t') \<le> state_rank (t_State t)"
proof (induction steps arbitrary: t)
  case Nil
  then show ?case by simp
next
  case (Cons st steps)
  obtain now s where st: "st = (now, s)" by (cases st)
  with Cons.prems obtain u where u: "transition_to now s t = Inr u"
    and rest: "run_transitions steps u = Inr t'"
    by (auto split: sum.splits)
  from Cons.IH [OF rest] have "length steps + state_rank (t_State t') \<le> state_rank (t_State u)" .
  moreover from u have "t_State u = s" by (rule transition_to_state)
  moreover from u have "state_rank s < state_rank (t_State t)"
    by (auto simp: transition_to_Inr_iff dest: can_transition_rank)
  ultimately show ?case by simp
qed

end
