(* ===== verification/Graph.thy ===== *)
theory Graph
  imports Task
begin

text \<open>
  The task graph, \<open>pkg/dag/graph.go\<close>: its state and its operations.

  \<open>g_edges\<close> and \<open>g_deps\<close> map a task to the Go set of its children and of its parents.  Tasks
  are shared by pointer between the graph and the scheduler; here the graph owns them, and
  \<open>transition_task\<close> is \<open>Task.TransitionTo\<close> called through such a pointer.  Where a method returns
  task pointers the model returns task IDs.  Looking up a task that an edge names cannot fail: an
  edge joins existing tasks and no task is ever removed (\<open>wf_graph\<close> below is that invariant, kept by
  every operation), so the branches for a missing task are unreachable and stand for the nil
  dereference of the code.
\<close>

section \<open>State\<close>

record graph =
  g_tasks :: "(string, task) gomap"
  g_edges :: "(string, string list) gomap"
  g_deps :: "(string, string list) gomap"
  g_order :: "string list"

definition new_graph :: graph where
  "new_graph = \<lparr> g_tasks = [], g_edges = [], g_deps = [], g_order = [] \<rparr>"

text \<open>Indexing the edge maps; a missing key yields the nil set.\<close>

definition set_of_key :: "(string, string list) gomap \<Rightarrow> string \<Rightarrow> string list" where
  "set_of_key m x = (case gget m x of None \<Rightarrow> [] | Some xs \<Rightarrow> xs)"

abbreviation children :: "graph \<Rightarrow> string \<Rightarrow> string list" where
  "children g \<equiv> set_of_key (g_edges g)"

abbreviation parents :: "graph \<Rightarrow> string \<Rightarrow> string list" where
  "parents g \<equiv> set_of_key (g_deps g)"

definition state_in :: "(string, task) gomap \<Rightarrow> string \<Rightarrow> task_state option" where
  "state_in ts x = map_option t_State (gget ts x)"

section \<open>Construction\<close>

definition add_task :: "task \<Rightarrow> graph \<Rightarrow> dag_error + graph" where
  "add_task t g =
     (if t_ID t = [] then Inl EmptyTaskID
      else if gget (g_tasks g) (t_ID t) \<noteq> None then Inl (DuplicateTaskID (t_ID t))
      else Inr (g\<lparr>
        g_tasks := gput (t_ID t) (t\<lparr> t_State := TaskPending \<rparr>) (g_tasks g),
        g_edges := (if gget (g_edges g) (t_ID t) = None then gput (t_ID t) [] (g_edges g)
                    else g_edges g),
        g_deps := (if gget (g_deps g) (t_ID t) = None then gput (t_ID t) [] (g_deps g)
                   else g_deps g) \<rparr>))"

definition add_edge :: "string \<Rightarrow> string \<Rightarrow> graph \<Rightarrow> dag_error + graph" where
  "add_edge parentID childID g =
     (if gget (g_tasks g) parentID = None then Inl (ParentNotFound parentID)
      else if gget (g_tasks g) childID = None then Inl (ChildNotFound childID)
      else if parentID = childID then Inl (SelfDependency parentID)
      else Inr (g\<lparr>
        g_edges := gput parentID (sadd childID (children g parentID)) (g_edges g),
        g_deps := gput childID (sadd parentID (parents g childID)) (g_deps g) \<rparr>))"

section \<open>Validation: Kahn's algorithm\<close>

definition degree :: "(string, int) gomap \<Rightarrow> string \<Rightarrow> int" where
  "degree deg x = (case gget deg x of None \<Rightarrow> 0 | Some d \<Rightarrow> d)"

text \<open>The inner loop: one decrement per child, a child whose count reaches 0 joins the queue.\<close>

fun reduce_children ::
    "string list \<Rightarrow> (string, int) gomap \<Rightarrow> string list \<Rightarrow> (string, int) gomap \<times> string list" where
  "reduce_children [] deg queue = (deg, queue)"
| "reduce_children (c # cs) deg queue =
     (let d = degree deg c - 1
      in reduce_children cs (gput c d deg) (if d = 0 then queue @ [c] else queue))"

text \<open>How many counts are still positive: each step of the outer loop trades one for a queue
  entry, so the sum of the two falls by one in every step.\<close>

definition positive_count :: "(string, int) gomap \<Rightarrow> nat" where
  "positive_count deg = length (filter (\<lambda>p. 0 < snd p) deg)"

lemma positive_count_gput:
  "positive_count (gput c (degree deg c - 1) deg) + (if degree deg c = 1 then 1 else 0)
     \<le> positive_count deg"
  by (induction deg) (auto simp: positive_count_def degree_def gput_def gget_def)

lemma reduce_children_measure:
  "reduce_children cs deg queue = (deg', queue') \<Longrightarrow>
     length queue' + positive_count deg' \<le> length queue + positive_count deg"
proof (induction cs arbitrary: deg queue)
  case Nil
  then show ?case by simp
next
  case (Cons c cs)
  let ?q = "if degree deg c = 1 then queue @ [c] else queue"
  from Cons.prems have "reduce_children cs (gput c (degree deg c - 1) deg) ?q = (deg', queue')"
    by (auto simp: Let_def split: if_splits)
  from Cons.IH [OF this] positive_count_gput [of c deg] show ?case
    by (auto split: if_splits)
qed

function kahn :: "(string \<Rightarrow> string list) \<Rightarrow> (string, int) gomap \<Rightarrow> string list \<Rightarrow> string list
    \<Rightarrow> string list \<times> (string, int) gomap" where
  "kahn ord deg [] order = (order, deg)"
| "kahn ord deg (node # queue) order =
     (case reduce_children (ord node) deg queue of
        (deg', queue') \<Rightarrow> kahn ord deg' queue' (order @ [node]))"
  by pat_completeness auto
termination
  by (relation "measure (\<lambda>(ord, deg, queue, order). length queue + positive_count deg)")
    (auto dest!: reduce_children_measure [OF sym])

definition initial_degrees :: "graph \<Rightarrow> (string, int) gomap" where
  "initial_degrees g = map (\<lambda>id. (id, int (length (parents g id)))) (gkeys (g_tasks g))"

definition task_name :: "graph \<Rightarrow> string \<Rightarrow> string" where
  "task_name g x = (case gget (g_tasks g) x of None \<Rightarrow> [] | Some t \<Rightarrow> t_Name t)"

definition validate ::
    "string list \<Rightarrow> string list \<Rightarrow> (string \<Rightarrow> string list) \<Rightarrow> graph \<Rightarrow> dag_error + graph" where
  "validate ks ks' ord g =
     (let deg0 = initial_degrees g;
          queue = filter (\<lambda>id. degree deg0 id = 0) ks
      in case kahn ord deg0 queue [] of (order, deg) \<Rightarrow>
           if length order \<noteq> length (g_tasks g)
           then Inl (CycleDetected (map (task_name g) (filter (\<lambda>id. 0 < degree deg id) ks')))
           else Inr (g\<lparr> g_order := order \<rparr>))"

section \<open>Dependency tests\<close>

definition all_deps_complete ::
    "(string, string list) gomap \<Rightarrow> (string, task) gomap \<Rightarrow> string \<Rightarrow> bool" where
  "all_deps_complete deps ts x =
     list_all (\<lambda>p. case state_in ts p of None \<Rightarrow> False | Some s \<Rightarrow> is_success s) (set_of_key deps x)"

definition all_deps_terminal ::
    "(string, string list) gomap \<Rightarrow> (string, task) gomap \<Rightarrow> string \<Rightarrow> bool" where
  "all_deps_terminal deps ts x =
     list_all (\<lambda>p. case state_in ts p of None \<Rightarrow> False | Some s \<Rightarrow> is_terminal s) (set_of_key deps x)"

definition any_dep_failed ::
    "(string, string list) gomap \<Rightarrow> (string, task) gomap \<Rightarrow> string \<Rightarrow> bool" where
  "any_dep_failed deps ts x =
     list_ex (\<lambda>p. state_in ts p = Some TaskFailed \<or> state_in ts p = Some TaskTimedOut)
       (set_of_key deps x)"

definition all_deps_passed ::
    "(string, string list) gomap \<Rightarrow> (string, task) gomap \<Rightarrow> string \<Rightarrow> bool" where
  "all_deps_passed deps ts x =
     list_all (\<lambda>p. state_in ts p = Some TaskPassed) (set_of_key deps x)"

section \<open>Readiness\<close>

text \<open>\<open>Ready\<close>: the pending tasks whose parents have all passed, in iteration order.\<close>

definition ready :: "string list \<Rightarrow> graph \<Rightarrow> string list" where
  "ready ks g = filter (\<lambda>id. state_in (g_tasks g) id = Some TaskPending
     \<and> all_deps_complete (g_deps g) (g_tasks g) id) ks"

text \<open>The first loop of \<open>MarkReady\<close>.\<close>

fun mark_pending ::
    "(string, string list) gomap \<Rightarrow> string list \<Rightarrow> (string, task) gomap \<Rightarrow> (string, task) gomap" where
  "mark_pending deps [] ts = ts"
| "mark_pending deps (x # xs) ts =
     (case gget ts x of
        None \<Rightarrow> mark_pending deps xs ts
      | Some t \<Rightarrow>
          if t_State t = TaskPending \<and> all_deps_complete deps ts x
          then mark_pending deps xs (gput x (t\<lparr> t_State := TaskReady \<rparr>) ts)
          else mark_pending deps xs ts)"

definition mark_ready :: "string list \<Rightarrow> string list \<Rightarrow> graph \<Rightarrow> graph \<times> string list" where
  "mark_ready ks ks' g =
     (let ts = mark_pending (g_deps g) ks (g_tasks g)
      in (g\<lparr> g_tasks := ts \<rparr>, filter (\<lambda>id. state_in ts id = Some TaskReady) ks'))"

section \<open>Completion\<close>

text \<open>
  \<open>skipDownstream\<close>.  The recursion is written with the pending calls on an explicit stack;
  \<open>skip_list_recursive\<close> below shows the recursive equation of the code.  \<open>ord\<close> gives the order in
  which the range over each node's children visits them.
\<close>

definition open_count :: "(string, task) gomap \<Rightarrow> nat" where
  "open_count ts = length (filter (\<lambda>p. \<not> is_terminal (t_State (snd p))) ts)"

lemma open_count_gput_terminal:
  "gget ts c = Some t \<Longrightarrow> \<not> is_terminal (t_State t) \<Longrightarrow> is_terminal (t_State t') \<Longrightarrow>
     open_count (gput c t' ts) < open_count ts"
  by (induction ts) (auto simp: open_count_def gput_def gget_def split: if_splits)

function skip_list ::
    "(string \<Rightarrow> string list) \<Rightarrow> string list \<Rightarrow> (string, task) gomap \<Rightarrow> (string, task) gomap" where
  "skip_list ord [] ts = ts"
| "skip_list ord (c # cs) ts =
     (case gget ts c of
        None \<Rightarrow> skip_list ord cs ts
      | Some child \<Rightarrow>
          if is_terminal (t_State child) then skip_list ord cs ts
          else if should_run_after_failure child then skip_list ord cs ts
          else skip_list ord (ord c @ cs) (gput c (child\<lparr> t_State := TaskSkipped \<rparr>) ts))"
  by pat_completeness auto
termination
  by (relation "measures [\<lambda>(ord, cs, ts). open_count ts, \<lambda>(ord, cs, ts). length cs]")
    (auto simp: open_count_gput_terminal)

definition skip_downstream ::
    "(string \<Rightarrow> string list) \<Rightarrow> string \<Rightarrow> (string, task) gomap \<Rightarrow> (string, task) gomap" where
  "skip_downstream ord x ts = skip_list ord (ord x) ts"

text \<open>The switch of \<open>Complete\<close> on a child's condition: the new state, if it gets one.\<close>

definition release_decision ::
    "(string, string list) gomap \<Rightarrow> (string, task) gomap \<Rightarrow> string \<Rightarrow> task \<Rightarrow> task_state option" where
  "release_decision deps ts c child =
     (let anyFailed = any_dep_failed deps ts c;
          allPassed = all_deps_passed deps ts c
      in if t_Condition child = ''on_failure''
         then (if anyFailed then Some TaskReady else Some TaskSkipped)
         else if t_Condition child = ''always'' then Some TaskReady
         else if allPassed then Some TaskReady
         else None)"

text \<open>The loop of \<open>Complete\<close> over the children; the second component is \<open>newlyReady\<close>.\<close>

fun release_children ::
    "(string, string list) gomap \<Rightarrow> string list \<Rightarrow> (string, task) gomap
       \<Rightarrow> (string, task) gomap \<times> string list" where
  "release_children deps [] ts = (ts, [])"
| "release_children deps (c # cs) ts =
     (case gget ts c of
        None \<Rightarrow> release_children deps cs ts
      | Some child \<Rightarrow>
          if t_State child \<noteq> TaskPending then release_children deps cs ts
          else if \<not> all_deps_terminal deps ts c then release_children deps cs ts
          else
            (case release_decision deps ts c child of
               None \<Rightarrow> release_children deps cs ts
             | Some s \<Rightarrow>
                 (case release_children deps cs (gput c (child\<lparr> t_State := s \<rparr>) ts) of
                    (ts', newly) \<Rightarrow> (ts', if s = TaskReady then c # newly else newly))))"

definition complete ::
    "(string \<Rightarrow> string list) \<Rightarrow> string list \<Rightarrow> time \<Rightarrow> string \<Rightarrow> task_state \<Rightarrow> int \<Rightarrow> string \<Rightarrow> graph
       \<Rightarrow> dag_error + (graph \<times> string list)" where
  "complete ord ks now taskID s exitCode errMsg g =
     (case gget (g_tasks g) taskID of
        None \<Rightarrow> Inl (DagTaskNotFound taskID)
      | Some t \<Rightarrow>
          (case transition_to now s t of
             Inl e \<Rightarrow> Inl e
           | Inr t1 \<Rightarrow>
               (let ts = gput taskID (t1\<lparr> t_ExitCode := exitCode, t_ErrorMessage := errMsg \<rparr>)
                           (g_tasks g);
                    ts' = (if s = TaskFailed \<or> s = TaskTimedOut
                           then skip_downstream ord taskID ts else ts)
                in case release_children (g_deps g) ks ts' of
                     (ts'', newly) \<Rightarrow> Inr (g\<lparr> g_tasks := ts'' \<rparr>, newly))))"

section \<open>The remaining operations\<close>

text \<open>\<open>Task.TransitionTo\<close> through a task pointer of the graph.\<close>

definition transition_task :: "time \<Rightarrow> task_state \<Rightarrow> string \<Rightarrow> graph \<Rightarrow> dag_error + graph" where
  "transition_task now s taskID g =
     (case gget (g_tasks g) taskID of
        None \<Rightarrow> Inl (DagTaskNotFound taskID)
      | Some t \<Rightarrow>
          (case transition_to now s t of
             Inl e \<Rightarrow> Inl e
           | Inr t' \<Rightarrow> Inr (g\<lparr> g_tasks := gput taskID t' (g_tasks g) \<rparr>)))"

definition cancel_task :: "task \<Rightarrow> task" where
  "cancel_task t = (if is_terminal (t_State t) then t else t\<lparr> t_State := TaskCancelled \<rparr>)"

definition cancel :: "graph \<Rightarrow> graph" where
  "cancel g = g\<lparr> g_tasks := map (\<lambda>(id, t). (id, cancel_task t)) (g_tasks g) \<rparr>"

definition get_task :: "graph \<Rightarrow> string \<Rightarrow> task option" where
  "get_task g x = gget (g_tasks g) x"

text \<open>\<open>Tasks\<close>: in topological order, or in iteration order when the graph was not validated.\<close>

definition tasks_of :: "string list \<Rightarrow> graph \<Rightarrow> task list" where
  "tasks_of ks g = List.map_filter (gget (g_tasks g)) (if g_order g = [] then ks else g_order g)"

definition is_complete :: "graph \<Rightarrow> bool" where
  "is_complete g = list_all (\<lambda>(id, t). is_terminal (t_State t)) (g_tasks g)"

definition is_passed :: "graph \<Rightarrow> bool" where
  "is_passed g = list_all (\<lambda>(id, t). t_State t = TaskPassed) (g_tasks g)"

text \<open>\<open>Dependencies\<close> and \<open>Dependents\<close> return the members of a Go set in some order.\<close>

definition dependencies :: "graph \<Rightarrow> string \<Rightarrow> string list" where
  "dependencies g x = parents g x"

definition dependents :: "graph \<Rightarrow> string \<Rightarrow> string list" where
  "dependents g x = children g x"

definition graph_size :: "graph \<Rightarrow> nat" where
  "graph_size g = length (g_tasks g)"

end
