(* ===== verification/Graph_Wf.thy ===== *)
theory Graph_Wf
  imports Graph
begin

text \<open>
  The representation invariant of the task graph and the frame facts about its operations: the two
  edge maps mirror each other and join existing tasks, every construction step keeps this, and the
  operations of the execution phase change nothing of a task but its progress fields.
\<close>

section \<open>The representation invariant\<close>

definition wf_edges ::
    "(string, string list) gomap \<Rightarrow> (string, string list) gomap \<Rightarrow> (string, task) gomap \<Rightarrow> bool" where
  "wf_edges m other ts \<longleftrightarrow> gwf m \<and>
     list_all (\<lambda>(x, ys). gget ts x \<noteq> None \<and> distinct ys \<and>
       list_all (\<lambda>y. y \<noteq> x \<and> gget ts y \<noteq> None \<and> x \<in> set (set_of_key other y)) ys) m"

definition wf_graph :: "graph \<Rightarrow> bool" where
  "wf_graph g \<longleftrightarrow> gwf (g_tasks g)
     \<and> list_all (\<lambda>(x, t). t_ID t = x \<and> x \<noteq> []) (g_tasks g)
     \<and> wf_edges (g_edges g) (g_deps g) (g_tasks g)
     \<and> wf_edges (g_deps g) (g_edges g) (g_tasks g)"

definition child_order :: "graph \<Rightarrow> (string \<Rightarrow> string list) \<Rightarrow> bool" where
  "child_order g ord \<longleftrightarrow> (\<forall>x. distinct (ord x) \<and> set (ord x) = set (children g x))"

lemma wf_edges_iff:
  "wf_edges m other ts \<longleftrightarrow> gwf m \<and> (\<forall>x ys. gget m x = Some ys \<longrightarrow> gget ts x \<noteq> None \<and> distinct ys
     \<and> (\<forall>y \<in> set ys. y \<noteq> x \<and> gget ts y \<noteq> None \<and> x \<in> set (set_of_key other y)))"
  unfolding wf_edges_def list_all_iff [of _ "_ :: string list"]
  by (rule conj_cong [OF refl]) (rule list_all_gomap)

lemma set_of_key_gput [simp]:
  "set_of_key (gput k v m) x = (if x = k then v else set_of_key m x)"
  by (simp add: set_of_key_def)

lemma set_of_key_Some: "gget m x = Some ys \<Longrightarrow> set_of_key m x = ys"
  by (simp add: set_of_key_def)

lemma in_set_of_key: "y \<in> set (set_of_key m x) \<Longrightarrow> \<exists>ys. gget m x = Some ys \<and> y \<in> set ys"
  by (cases "gget m x") (simp_all add: set_of_key_def)

lemma wf_edges_member:
  assumes "wf_edges m other ts" "y \<in> set (set_of_key m x)"
  shows "gget ts x \<noteq> None" "gget ts y \<noteq> None" "y \<noteq> x" "x \<in> set (set_of_key other y)"
  using assms in_set_of_key [OF assms(2)] by (auto simp: wf_edges_iff)

lemma wf_edges_distinct: "wf_edges m other ts \<Longrightarrow> distinct (set_of_key m x)"
  by (auto simp: wf_edges_iff set_of_key_def split: option.splits)

lemma wf_graphD:
  assumes "wf_graph g"
  shows wf_tasks: "gwf (g_tasks g)"
    and wf_child_iff: "c \<in> set (children g p) \<longleftrightarrow> p \<in> set (parents g c)"
    and wf_child_task: "c \<in> set (children g p) \<Longrightarrow> gget (g_tasks g) c \<noteq> None"
    and wf_parent_task: "c \<in> set (children g p) \<Longrightarrow> gget (g_tasks g) p \<noteq> None"
    and wf_child_neq: "c \<in> set (children g p) \<Longrightarrow> c \<noteq> p"
    and wf_distinct_children: "distinct (children g p)"
    and wf_distinct_parents: "distinct (parents g c)"
    and wf_task_ID: "gget (g_tasks g) x = Some t \<Longrightarrow> t_ID t = x \<and> x \<noteq> []"
proof -
  have e: "wf_edges (g_edges g) (g_deps g) (g_tasks g)"
    and d: "wf_edges (g_deps g) (g_edges g) (g_tasks g)"
    and t: "gwf (g_tasks g)"
    and i: "list_all (\<lambda>(x, t). t_ID t = x \<and> x \<noteq> []) (g_tasks g)"
    using assms by (simp_all add: wf_graph_def)
  show "gwf (g_tasks g)" by (rule t)
  show "c \<in> set (children g p) \<longleftrightarrow> p \<in> set (parents g c)"
    using wf_edges_member(4) [OF e] wf_edges_member(4) [OF d] by blast
  show "c \<in> set (children g p) \<Longrightarrow> gget (g_tasks g) c \<noteq> None"
    using wf_edges_member(2) [OF e] by blast
  show "c \<in> set (children g p) \<Longrightarrow> gget (g_tasks g) p \<noteq> None"
    using wf_edges_member(1) [OF e] by blast
  show "c \<in> set (children g p) \<Longrightarrow> c \<noteq> p"
    using wf_edges_member(3) [OF e] by blast
  show "distinct (children g p)" "distinct (parents g c)"
    using wf_edges_distinct e d by auto
  show "gget (g_tasks g) x = Some t \<Longrightarrow> t_ID t = x \<and> x \<noteq> []"
    using i t by (auto simp: list_all_iff gget_Some_iff)
qed

lemma child_order_children: "wf_graph g \<Longrightarrow> child_order g (children g)"
  by (simp add: child_order_def wf_distinct_children)

section \<open>Construction keeps the invariant\<close>

lemma wf_new_graph: "wf_graph new_graph"
  by (simp add: wf_graph_def new_graph_def wf_edges_def)

lemma wf_edges_more_tasks:
  "wf_edges m other ts \<Longrightarrow> wf_edges m other (gput k t ts)"
  by (auto simp: wf_edges_iff)

lemma wf_edges_new_key:
  assumes "wf_edges m other ts" "gget m k = None" "gget ts k \<noteq> None"
  shows "wf_edges (gput k [] m) other ts" "wf_edges other m ts \<Longrightarrow> wf_edges other (gput k [] m) ts"
proof -
  show "wf_edges (gput k [] m) other ts"
    using assms by (auto simp: wf_edges_iff)
  assume o: "wf_edges other m ts"
  have "set_of_key (gput k [] m) y = set_of_key m y" for y
    using assms(2) by (simp add: set_of_key_def)
  then show "wf_edges other (gput k [] m) ts"
    using o by (simp add: wf_edges_def)
qed

lemma wf_add_task:
  assumes wf: "wf_graph g" and add: "add_task t g = Inr g'"
  shows "wf_graph g'"
proof -
  let ?k = "t_ID t" and ?ts = "gput (t_ID t) (t\<lparr> t_State := TaskPending \<rparr>) (g_tasks g)"
  from add have k: "?k \<noteq> []" "gget (g_tasks g) ?k = None"
    and g': "g_tasks g' = ?ts"
      "g_edges g' = (if gget (g_edges g) ?k = None then gput ?k [] (g_edges g) else g_edges g)"
      "g_deps g' = (if gget (g_deps g) ?k = None then gput ?k [] (g_deps g) else g_deps g)"
    by (auto simp: add_task_def split: if_splits)
  have e: "wf_edges (g_edges g) (g_deps g) ?ts" and d: "wf_edges (g_deps g) (g_edges g) ?ts"
    using wf by (simp_all add: wf_graph_def wf_edges_more_tasks)
  have "wf_edges (g_edges g') (g_deps g) ?ts" "wf_edges (g_deps g) (g_edges g') ?ts"
    using e d by (auto simp: g' wf_edges_new_key)
  then have "wf_edges (g_edges g') (g_deps g') ?ts" "wf_edges (g_deps g') (g_edges g') ?ts"
    by (auto simp: g' wf_edges_new_key)
  moreover have "list_all (\<lambda>(x, t). t_ID t = x \<and> x \<noteq> []) ?ts"
  proof -
    have "t_ID u = x \<and> x \<noteq> []" if "(x, u) \<in> set ?ts" for x u
    proof -
      have "gwf ?ts" using wf by (simp add: wf_tasks)
      then have "gget ?ts x = Some u" using that by (rule gget_SomeI)
      then show ?thesis
        using k wf_task_ID [OF wf] by (auto split: if_splits)
    qed
    then show ?thesis by (auto simp: list_all_iff)
  qed
  ultimately show ?thesis
    using wf by (simp add: wf_graph_def g')
qed

lemma wf_edges_insert:
  assumes m: "wf_edges m other ts" and k: "gget ts p \<noteq> None" "gget ts c \<noteq> None" "p \<noteq> c"
  shows "wf_edges (gput p (sadd c (set_of_key m p)) m) (gput c (sadd p (set_of_key other c)) other) ts"
  using m k wf_edges_member [OF m] wf_edges_distinct [OF m]
  by (auto simp: wf_edges_iff split: if_splits)

lemma wf_add_edge:
  assumes wf: "wf_graph g" and add: "add_edge p c g = Inr g'"
  shows "wf_graph g'"
proof -
  from add have k: "gget (g_tasks g) p \<noteq> None" "gget (g_tasks g) c \<noteq> None" "p \<noteq> c"
    and g': "g_tasks g' = g_tasks g"
      "g_edges g' = gput p (sadd c (children g p)) (g_edges g)"
      "g_deps g' = gput c (sadd p (parents g c)) (g_deps g)"
    by (auto simp: add_edge_def split: if_splits)
  have "wf_edges (g_edges g') (g_deps g') (g_tasks g)" "wf_edges (g_deps g') (g_edges g') (g_tasks g)"
    using wf k by (auto simp: g' wf_graph_def intro!: wf_edges_insert)
  then show ?thesis
    using wf by (simp add: wf_graph_def g')
qed

lemma wf_order_update [simp]: "wf_graph (g\<lparr> g_order := xs \<rparr>) = wf_graph g"
  by (simp add: wf_graph_def)

section \<open>What execution leaves alone\<close>

text \<open>A task without its progress fields.\<close>

definition static_part :: "task \<Rightarrow> task" where
  "static_part t = t\<lparr> t_State := TaskPending, t_ExitCode := 0, t_ErrorMessage := [],
                      t_StartedAt := 0, t_FinishedAt := 0 \<rparr>"

definition statics :: "(string, task) gomap \<Rightarrow> (string, task) gomap" where
  "statics ts = map (\<lambda>(x, t). (x, static_part t)) ts"

lemma static_part_updates [simp]:
  "static_part (t\<lparr> t_State := s \<rparr>) = static_part t"
  "static_part (t\<lparr> t_ExitCode := i \<rparr>) = static_part t"
  "static_part (t\<lparr> t_ErrorMessage := m \<rparr>) = static_part t"
  "static_part (t\<lparr> t_StartedAt := a \<rparr>) = static_part t"
  "static_part (t\<lparr> t_FinishedAt := b \<rparr>) = static_part t"
  by (simp_all add: static_part_def)

lemma static_part_eqD:
  assumes "static_part t' = static_part t"
  shows "t_ID t' = t_ID t" "t_Name t' = t_Name t" "t_Condition t' = t_Condition t"
    "t_CPUMillicores t' = t_CPUMillicores t" "t_MemoryMB t' = t_MemoryMB t"
    "t_DiskMB t' = t_DiskMB t" "should_run_after_failure t' = should_run_after_failure t"
proof -
  have "t_ID (static_part t) = t_ID t" "t_Name (static_part t) = t_Name t"
    "t_Condition (static_part t) = t_Condition t"
    "t_CPUMillicores (static_part t) = t_CPUMillicores t"
    "t_MemoryMB (static_part t) = t_MemoryMB t" "t_DiskMB (static_part t) = t_DiskMB t" for t
    by (simp_all add: static_part_def)
  then show "t_ID t' = t_ID t" "t_Name t' = t_Name t" "t_Condition t' = t_Condition t"
    "t_CPUMillicores t' = t_CPUMillicores t" "t_MemoryMB t' = t_MemoryMB t"
    "t_DiskMB t' = t_DiskMB t" "should_run_after_failure t' = should_run_after_failure t"
    using assms unfolding should_run_after_failure_def by metis+
qed

lemma gget_statics: "gget (statics ts) x = map_option static_part (gget ts x)"
  by (induction ts) (auto simp: statics_def gget_def)

lemma gkeys_statics: "gkeys (statics ts) = gkeys ts"
  by (simp add: statics_def gkeys_def case_prod_unfold comp_def)

lemma statics_gput:
  "gget ts x = Some t \<Longrightarrow> static_part t' = static_part t \<Longrightarrow> statics (gput x t' ts) = statics ts"
  by (induction ts) (auto simp: statics_def gget_def gput_def split: if_splits)

lemma statics_gkeys: "statics ts' = statics ts \<Longrightarrow> gkeys ts' = gkeys ts"
  using gkeys_statics by metis

lemma statics_gget:
  assumes "statics ts' = statics ts" "gget ts x = Some t"
  shows "\<exists>t'. gget ts' x = Some t' \<and> static_part t' = static_part t"
proof -
  have "map_option static_part (gget ts' x) = map_option static_part (gget ts x)"
    using assms(1) gget_statics by metis
  with assms(2) show ?thesis by auto
qed

lemma statics_gget_None: "statics ts' = statics ts \<Longrightarrow> gget ts' x = None \<longleftrightarrow> gget ts x = None"
  using gget_statics [of ts x] gget_statics [of ts' x] by auto

lemma statics_state_None: "statics ts' = statics ts \<Longrightarrow> state_in ts' x = None \<longleftrightarrow> state_in ts x = None"
  using statics_gget_None [of ts' ts x] by (simp add: state_in_def)

lemma wf_graph_statics:
  assumes wf: "wf_graph g" and s: "statics ts = statics (g_tasks g)"
  shows "wf_graph (g\<lparr> g_tasks := ts \<rparr>)"
proof -
  have w: "gwf ts" using wf statics_gkeys [OF s] by (simp add: gwf_def wf_graph_def)
  have n: "gget ts x = None \<longleftrightarrow> gget (g_tasks g) x = None" for x
    using s by (rule statics_gget_None)
  have "t_ID t = x \<and> x \<noteq> []" if "(x, t) \<in> set ts" for x t
  proof -
    from that w have "gget ts x = Some t" by (simp add: gget_Some_iff)
    from statics_gget [OF s [symmetric] this] obtain t' where
      "gget (g_tasks g) x = Some t'" "static_part t' = static_part t" by blast
    then show ?thesis using wf_task_ID [OF wf] static_part_eqD(1) by metis
  qed
  then show ?thesis
    using wf w by (auto simp: wf_graph_def wf_edges_iff n list_all_iff)
qed

lemma statics_mark_pending: "statics (mark_pending deps xs ts) = statics ts"
  by (induction deps xs ts rule: mark_pending.induct)
    (auto simp: statics_gput split: option.splits)

lemma statics_skip_list: "statics (skip_list ord cs ts) = statics ts"
  by (induction ord cs ts rule: skip_list.induct) (auto simp: statics_gput split: option.splits)

text \<open>One round of the loop over the children: the child it changes and the state it gets.\<close>

definition release_target ::
    "(string, string list) gomap \<Rightarrow> (string, task) gomap \<Rightarrow> string \<Rightarrow> (task \<times> task_state) option" where
  "release_target deps ts c =
     (case gget ts c of
        None \<Rightarrow> None
      | Some child \<Rightarrow>
          if t_State child = TaskPending \<and> all_deps_terminal deps ts c
          then map_option (Pair child) (release_decision deps ts c child) else None)"

lemma release_children_Cons:
  "release_children deps (c # cs) ts =
     (case release_target deps ts c of
        None \<Rightarrow> release_children deps cs ts
      | Some (child, s) \<Rightarrow>
          (case release_children deps cs (gput c (child\<lparr> t_State := s \<rparr>) ts) of
             (ts', newly) \<Rightarrow> (ts', if s = TaskReady then c # newly else newly)))"
  by (cases "gget ts c"; simp add: release_target_def split: option.split)

declare release_children.simps(2) [simp del]

lemma release_targetD:
  assumes "release_target deps ts c = Some (child, s)"
  shows "gget ts c = Some child" "t_State child = TaskPending" "all_deps_terminal deps ts c"
    "release_decision deps ts c child = Some s" "s = TaskReady \<or> s = TaskSkipped"
  using assms
  by (auto simp: release_target_def release_decision_def Let_def split: option.splits if_splits)

lemma statics_release_children:
  "release_children deps cs ts = (ts', newly) \<Longrightarrow> statics ts' = statics ts"
proof (induction cs arbitrary: ts newly)
  case Nil
  then show ?case by simp
next
  case (Cons c cs)
  then show ?case
    by (auto simp: release_children_Cons statics_gput dest: release_targetD(1)
        split: option.splits prod.splits)
qed

lemma statics_cancel: "statics (g_tasks (cancel g)) = statics (g_tasks g)"
  by (auto simp: statics_def cancel_def cancel_task_def)

lemma transition_to_static: "transition_to now s t = Inr t' \<Longrightarrow> static_part t' = static_part t"
  by (simp add: transition_to_Inr_iff)

lemma statics_transition_task:
  "transition_task now s x g = Inr g' \<Longrightarrow>
     statics (g_tasks g') = statics (g_tasks g) \<and> g_edges g' = g_edges g \<and> g_deps g' = g_deps g"
  by (auto simp: transition_task_def statics_gput transition_to_static split: option.splits sum.splits)

lemma statics_complete:
  assumes "complete ord ks now x s code msg g = Inr (g', newly)"
  shows "statics (g_tasks g') = statics (g_tasks g) \<and> g_edges g' = g_edges g \<and> g_deps g' = g_deps g
    \<and> g_order g' = g_order g"
proof -
  from assms obtain t t1 ts where t: "gget (g_tasks g) x = Some t" "transition_to now s t = Inr t1"
    and ts: "ts = gput x (t1\<lparr> t_ExitCode := code, t_ErrorMessage := msg \<rparr>) (g_tasks g)"
    and r: "release_children (g_deps g) ks
        (if s = TaskFailed \<or> s = TaskTimedOut then skip_downstream ord x ts else ts)
        = (g_tasks g', newly)"
    and g': "g_edges g' = g_edges g" "g_deps g' = g_deps g" "g_order g' = g_order g"
    by (auto simp: complete_def Let_def split: option.splits sum.splits prod.splits)
  have "statics ts = statics (g_tasks g)"
    using t by (simp add: ts statics_gput transition_to_static)
  then show ?thesis
    using statics_release_children [OF r] g'
    by (auto simp: skip_downstream_def statics_skip_list split: if_splits)
qed

lemma wf_mark_ready: "wf_graph g \<Longrightarrow> wf_graph (fst (mark_ready ks ks' g))"
  by (simp add: mark_ready_def Let_def wf_graph_statics statics_mark_pending)

lemma wf_transition_task: "wf_graph g \<Longrightarrow> transition_task now s x g = Inr g' \<Longrightarrow> wf_graph g'"
  using statics_transition_task [of now s x g g'] wf_graph_statics [of g "g_tasks g'"]
  by (auto simp: wf_graph_def)

lemma wf_complete:
  "wf_graph g \<Longrightarrow> complete ord ks now x s code msg g = Inr (g', newly) \<Longrightarrow> wf_graph g'"
  using statics_complete [of ord ks now x s code msg g g' newly] wf_graph_statics [of g "g_tasks g'"]
  by (auto simp: wf_graph_def)

lemma wf_cancel: "wf_graph g \<Longrightarrow> wf_graph (cancel g)"
  using wf_graph_statics [of g "g_tasks (cancel g)"] statics_cancel [of g]
  by (auto simp: wf_graph_def cancel_def)

end
