(* ===== verification/Graph_Validate.thy ===== *)
theory Graph_Validate
  imports Graph_Wf
begin

text \<open>
  \<open>Validate\<close> (\<open>pkg/dag/graph.go\<close>) is Kahn's algorithm.  The loop invariant says that the count of a
  task is the number of its parents not yet in the order, that the order and the queue hold exactly
  the tasks whose count is 0, and that the order puts parents first.  It gives both halves of the
  contract: a validated graph carries a topological order of all its tasks, and validation fails
  exactly on the graphs with a dependency cycle, whatever order the map iterations take.
\<close>

section \<open>Topological orders\<close>

fun parents_first :: "(string \<Rightarrow> string list) \<Rightarrow> string list \<Rightarrow> string list \<Rightarrow> bool" where
  "parents_first par seen [] = True"
| "parents_first par seen (x # xs) =
     (set (par x) \<subseteq> set seen \<and> parents_first par (x # seen) xs)"

definition topological :: "graph \<Rightarrow> string list \<Rightarrow> bool" where
  "topological g xs \<longleftrightarrow>
     distinct xs \<and> set xs = set (gkeys (g_tasks g)) \<and> parents_first (parents g) [] xs"

definition dependency_rel :: "graph \<Rightarrow> (string \<times> string) set" where
  "dependency_rel g = {(p, c). c \<in> set (children g p)}"

lemma parents_first_snoc:
  "parents_first par seen (xs @ [x]) \<longleftrightarrow>
     parents_first par seen xs \<and> set (par x) \<subseteq> set seen \<union> set xs"
  by (induction xs arbitrary: seen) auto

lemma parents_first_split:
  "parents_first par seen (xs @ x # ys) \<Longrightarrow> set (par x) \<subseteq> set seen \<union> set xs"
  by (induction xs arbitrary: seen) fastforce+

lemma parents_first_before:
  assumes "parents_first par [] xs" "c \<in> set xs"
  shows "set (par c) \<subseteq> set (takeWhile (\<lambda>x. x \<noteq> c) xs)"
proof -
  let ?ys = "takeWhile (\<lambda>x. x \<noteq> c) xs"
  have "dropWhile (\<lambda>x. x \<noteq> c) xs \<noteq> []" using assms(2) by (simp add: dropWhile_eq_Nil_conv)
  moreover have "hd (dropWhile (\<lambda>x. x \<noteq> c) xs) = c"
    using hd_dropWhile [OF calculation] by simp
  ultimately obtain zs where "dropWhile (\<lambda>x. x \<noteq> c) xs = c # zs"
    by (cases "dropWhile (\<lambda>x. x \<noteq> c) xs") auto
  then have "xs = ?ys @ c # zs" by (metis takeWhile_dropWhile_id)
  then show ?thesis using parents_first_split [of par "[]" ?ys c zs] assms(1) by auto
qed

lemma length_takeWhile_mem:
  "p \<in> set (takeWhile (\<lambda>x. x \<noteq> c) xs) \<Longrightarrow>
     length (takeWhile (\<lambda>x. x \<noteq> p) xs) < length (takeWhile (\<lambda>x. x \<noteq> c) xs)"
  by (induction xs) (auto split: if_splits)

lemma topological_acyclic:
  assumes wf: "wf_graph g" and topo: "topological g xs"
  shows "acyclic (dependency_rel g)"
proof -
  let ?pos = "\<lambda>c. length (takeWhile (\<lambda>x. x \<noteq> c) xs)"
  have "?pos p < ?pos c" if "(p, c) \<in> dependency_rel g" for p c
  proof -
    from that have c: "c \<in> set (children g p)" by (simp add: dependency_rel_def)
    then have "c \<in> set xs"
      using topo wf_child_task [OF wf] by (simp add: topological_def in_gkeys_iff)
    with topo have "set (parents g c) \<subseteq> set (takeWhile (\<lambda>x. x \<noteq> c) xs)"
      using parents_first_before [of "parents g" xs c] by (simp add: topological_def)
    with c wf_child_iff [OF wf] show ?thesis by (auto intro: length_takeWhile_mem)
  qed
  then have "dependency_rel g \<subseteq> measure ?pos" by auto
  then show ?thesis by (rule wf_acyclic [OF wf_subset [OF wf_measure]])
qed

section \<open>The loop invariant\<close>

lemma degree_gput [simp]: "degree (gput c d deg) x = (if x = c then d else degree deg x)"
  by (simp add: degree_def)

lemma reduce_children_spec_aux:
  "reduce_children cs deg queue = (deg', queue') \<Longrightarrow> distinct cs \<Longrightarrow>
     (\<forall>x. degree deg' x = degree deg x - (if x \<in> set cs then 1 else 0))
     \<and> queue' = queue @ filter (\<lambda>c. degree deg c = 1) cs"
proof (induction cs arbitrary: deg queue)
  case Nil
  then show ?case by simp
next
  case (Cons c cs)
  let ?d = "gput c (degree deg c - 1) deg"
  let ?q = "if degree deg c = 1 then queue @ [c] else queue"
  from Cons.prems(1) have "reduce_children cs ?d ?q = (deg', queue')"
    by (simp add: Let_def)
  from Cons.IH [OF this] Cons.prems(2)
  have deg: "degree deg' x = degree ?d x - (if x \<in> set cs then 1 else 0)"
    and queue: "queue' = ?q @ filter (\<lambda>x. degree ?d x = 1) cs" for x
    by (simp_all del: degree_gput)
  have "filter (\<lambda>x. degree ?d x = 1) cs = filter (\<lambda>x. degree deg x = 1) cs"
    using Cons.prems(2) by (auto intro!: filter_cong)
  with deg queue Cons.prems(2) show ?case by auto
qed

lemma reduce_children_spec:
  assumes "reduce_children cs deg queue = (deg', queue')" "distinct cs"
  shows "degree deg' x = degree deg x - (if x \<in> set cs then 1 else 0)"
    and "queue' = queue @ filter (\<lambda>c. degree deg c = 1) cs"
  using reduce_children_spec_aux [OF assms] by simp_all

definition kahn_inv :: "graph \<Rightarrow> (string, int) gomap \<Rightarrow> string list \<Rightarrow> string list \<Rightarrow> bool" where
  "kahn_inv g deg queue order \<longleftrightarrow>
     distinct (order @ queue)
     \<and> set (order @ queue) \<subseteq> set (gkeys (g_tasks g))
     \<and> (\<forall>x \<in> set (gkeys (g_tasks g)).
          degree deg x = int (card (set (parents g x) - set order))
          \<and> (x \<in> set (order @ queue) \<longleftrightarrow> degree deg x = 0))
     \<and> parents_first (parents g) [] order"

lemma kahn_invD:
  assumes "kahn_inv g deg queue order"
  shows "distinct order" "distinct queue" "set order \<inter> set queue = {}"
    "set (order @ queue) \<subseteq> set (gkeys (g_tasks g))"
    "x \<in> set (gkeys (g_tasks g)) \<Longrightarrow> degree deg x = int (card (set (parents g x) - set order))"
    "x \<in> set (gkeys (g_tasks g)) \<Longrightarrow> x \<in> set (order @ queue) \<longleftrightarrow> degree deg x = 0"
    "parents_first (parents g) [] order"
  using assms by (auto simp: kahn_inv_def)

lemma kahn_inv_initial:
  assumes wf: "wf_graph g" and ks: "range_order (g_tasks g) ks"
  shows "kahn_inv g (initial_degrees g) (filter (\<lambda>x. degree (initial_degrees g) x = 0) ks) []"
proof -
  have "degree (initial_degrees g) x = int (card (set (parents g x)))"
    if "x \<in> set (gkeys (g_tasks g))" for x
  proof -
    have "map_of (map (\<lambda>x. (x, int (length (parents g x)))) ys) x = Some (int (length (parents g x)))"
      if "x \<in> set ys" for ys using that by (induction ys) auto
    then have "degree (initial_degrees g) x = int (length (parents g x))"
      using that by (simp add: degree_def gget_def initial_degrees_def)
    then show ?thesis using wf_distinct_parents [OF wf] by (simp add: distinct_card)
  qed
  then show ?thesis using ks by (auto simp: kahn_inv_def range_order_def)
qed

lemma card_Diff_insert_int:
  "finite A \<Longrightarrow> n \<notin> B \<Longrightarrow>
     int (card (A - insert n B)) = int (card (A - B)) - (if n \<in> A then 1 else 0)"
proof (cases "n \<in> A")
  case True
  assume "finite A" "n \<notin> B"
  then have "card (A - B) > 0" using True by (auto simp: card_gt_0_iff)
  moreover have "A - insert n B = (A - B) - {n}" by auto
  ultimately show ?thesis using True \<open>n \<notin> B\<close> \<open>finite A\<close> by (simp add: card_Diff_singleton of_nat_diff)
next
  case False
  then have "A - insert n B = A - B" by auto
  then show ?thesis using False by simp
qed

lemma kahn_inv_step:
  assumes wf: "wf_graph g" and ord: "child_order g ord"
    and inv: "kahn_inv g deg (n # queue) order"
    and red: "reduce_children (ord n) deg queue = (deg', queue')"
  shows "kahn_inv g deg' queue' (order @ [n])"
proof -
  note D = kahn_invD [OF inv]
  have dn: "distinct (ord n)" and sn: "set (ord n) = set (children g n)"
    using ord by (auto simp: child_order_def)
  note deg' = reduce_children_spec(1) [OF red dn] and q' = reduce_children_spec(2) [OF red dn]
  have n: "n \<in> set (gkeys (g_tasks g))" "n \<notin> set order" "n \<notin> set queue" using D by auto
  have child: "x \<in> set (ord n) \<longleftrightarrow> n \<in> set (parents g x)" for x
    using wf_child_iff [OF wf] sn by simp
  have ch_T: "x \<in> set (gkeys (g_tasks g))" if "x \<in> set (ord n)" for x
    using that wf_child_task [OF wf] sn by (simp add: in_gkeys_iff)
  have pos: "degree deg x \<ge> 1" if "x \<in> set (ord n)" for x
  proof -
    have "n \<in> set (parents g x) - set order" using that child n by auto
    then have "card (set (parents g x) - set order) > 0" by (auto simp: card_gt_0_iff)
    then show ?thesis using D(5) [OF ch_T [OF that]] by simp
  qed
  then have fresh: "x \<notin> set (order @ n # queue)" if "x \<in> set (ord n)" for x
    using D(6) [OF ch_T [OF that]] that by fastforce
  have new: "set queue' = set queue \<union> {x \<in> set (ord n). degree deg x = 1}" by (auto simp: q')
  have dist: "distinct ((order @ [n]) @ queue')"
    using D(1-3) dn fresh n by (auto simp: q')
  have sub: "set ((order @ [n]) @ queue') \<subseteq> set (gkeys (g_tasks g))"
    using D(4) ch_T n by (auto simp: new)
  have cnt: "degree deg' x = int (card (set (parents g x) - set (order @ [n])))"
    if x: "x \<in> set (gkeys (g_tasks g))" for x
    using D(5) [OF x] card_Diff_insert_int [of "set (parents g x)" n "set order"] n
    by (simp add: deg' child)
  have mem: "x \<in> set ((order @ [n]) @ queue') \<longleftrightarrow> degree deg' x = 0"
    if x: "x \<in> set (gkeys (g_tasks g))" for x
    using D(6) [OF x] pos [of x] fresh [of x] by (auto simp: new deg')
  have "set (parents g n) \<subseteq> set order"
    using D(5) [OF n(1)] D(6) [OF n(1)] by simp
  then have "parents_first (parents g) [] (order @ [n])"
    using D(7) by (simp add: parents_first_snoc)
  then show ?thesis using dist sub cnt mem by (auto simp: kahn_inv_def)
qed

lemma kahn_inv_final:
  "wf_graph g \<Longrightarrow> child_order g ord \<Longrightarrow> kahn_inv g deg queue order \<Longrightarrow>
     kahn ord deg queue order = (order', deg') \<Longrightarrow> kahn_inv g deg' [] order'"
proof (induction ord deg queue order rule: kahn.induct)
  case (1 ord deg order)
  then show ?case by simp
next
  case (2 ord deg n queue order)
  obtain d q where r: "reduce_children (ord n) deg queue = (d, q)" by fastforce
  from kahn_inv_step [OF 2(2-4) r] 2 r show ?case by simp
qed

section \<open>The contract of Validate\<close>

lemma validate_cases:
  assumes wf: "wf_graph g" and ord: "child_order g ord" and ks: "range_order (g_tasks g) ks"
  obtains deg order where "kahn_inv g deg [] order"
    "validate ks ks' ord g =
       (if set order = set (gkeys (g_tasks g)) then Inr (g\<lparr> g_order := order \<rparr>)
        else Inl (CycleDetected (map (task_name g) (filter (\<lambda>x. 0 < degree deg x) ks'))))"
proof -
  let ?d = "initial_degrees g"
  let ?q = "filter (\<lambda>x. degree ?d x = 0) ks"
  obtain order deg where k: "kahn ord ?d ?q [] = (order, deg)" by fastforce
  have inv: "kahn_inv g deg [] order"
    by (rule kahn_inv_final [OF wf ord kahn_inv_initial [OF wf ks] k])
  have keys: "card (set (gkeys (g_tasks g))) = length (g_tasks g)"
    using wf_tasks [OF wf] by (metis distinct_card gkeys_def gwf_def length_map)
  have "length order = length (g_tasks g) \<longleftrightarrow> set order = set (gkeys (g_tasks g))"
    using kahn_invD(1,4) [OF inv] keys
    by (metis append_Nil2 card_subset_eq distinct_card finite_set)
  with k show ?thesis by (intro that [OF inv]) (simp add: validate_def Let_def)
qed

lemma validate_topological:
  assumes "wf_graph g" "child_order g ord" "range_order (g_tasks g) ks"
    and "validate ks ks' ord g = Inr g'"
  shows "topological g (g_order g') \<and> g' = g\<lparr> g_order := g_order g' \<rparr>"
  using assms(1-3)
proof (rule validate_cases [where ks' = ks'])
  fix deg order
  assume inv: "kahn_inv g deg [] order"
    and v: "validate ks ks' ord g =
       (if set order = set (gkeys (g_tasks g)) then Inr (g\<lparr> g_order := order \<rparr>)
        else Inl (CycleDetected (map (task_name g) (filter (\<lambda>x. 0 < degree deg x) ks'))))"
  from v assms(4) have "set order = set (gkeys (g_tasks g))" "g' = g\<lparr> g_order := order \<rparr>"
    by (auto split: if_splits)
  then show ?thesis using kahn_invD(1,7) [OF inv] by (simp add: topological_def)
qed

lemma acyclic_validates:
  assumes wf: "wf_graph g" and ord: "child_order g ord" and ks: "range_order (g_tasks g) ks"
    and ac: "acyclic (dependency_rel g)"
  shows "\<exists>g'. validate ks ks' ord g = Inr g'"
  using wf ord ks
proof (rule validate_cases [where ks' = ks'])
  fix deg order
  assume inv: "kahn_inv g deg [] order"
    and v: "validate ks ks' ord g =
       (if set order = set (gkeys (g_tasks g)) then Inr (g\<lparr> g_order := order \<rparr>)
        else Inl (CycleDetected (map (task_name g) (filter (\<lambda>x. 0 < degree deg x) ks'))))"
  let ?T = "set (gkeys (g_tasks g))"
  have r: "dependency_rel g \<subseteq> ?T \<times> ?T"
    using wf_child_task [OF wf] wf_parent_task [OF wf]
    by (auto simp: dependency_rel_def in_gkeys_iff)
  then have "wf (dependency_rel g)"
    using ac finite_acyclic_wf finite_subset by blast
  have "?T - set order = {}"
  proof (rule ccontr)
    assume "?T - set order \<noteq> {}"
    with \<open>wf (dependency_rel g)\<close> obtain x where x: "x \<in> ?T - set order"
      and min: "\<And>p. (p, x) \<in> dependency_rel g \<Longrightarrow> p \<notin> ?T - set order"
      by (metis wfE_min')
    have "set (parents g x) \<subseteq> set order"
      using min r wf_child_iff [OF wf] by (auto simp: dependency_rel_def)
    then have "degree deg x = 0" using kahn_invD(5) [OF inv] x by (simp add: Diff_eq_empty_iff [THEN iffD2])
    then show False using kahn_invD(6) [OF inv, of x] x by simp
  qed
  then have "set order = ?T" using kahn_invD(4) [OF inv] by auto
  with v show ?thesis by simp
qed

end
