(* ===== verification/Graph_Exec.thy ===== *)
theory Graph_Exec
  imports Graph_Validate
begin

text \<open>
  The execution phase of the task graph: \<open>MarkReady\<close>, the scheduler's transitions, \<open>Complete\<close> and
  \<open>Cancel\<close> as the events of a step relation.  The lemmas say what each operation changes of a single
  task; from them follow the invariants of a run: a final state is final, a task starts only when
  its dependencies allow it, and in a graph without special conditions a failure reaches every
  descendant.
\<close>

section \<open>The recursive equation of skipDownstream\<close>

lemma skip_list_append:
  "skip_list ord (xs @ ys) ts = skip_list ord ys (skip_list ord xs ts)"
proof (induction ord xs ts rule: skip_list.induct)
  case (1 ord ts)
  then show ?case by simp
next
  case (2 ord c cs ts)
  then show ?case by (simp split: option.split)
qed

lemma skip_list_recursive:
  "skip_list ord (c # cs) ts =
     (case gget ts c of
        None \<Rightarrow> skip_list ord cs ts
      | Some child \<Rightarrow>
          if is_terminal (t_State child) \<or> should_run_after_failure child then skip_list ord cs ts
          else skip_list ord cs
                 (skip_downstream ord c (gput c (child\<lparr> t_State := TaskSkipped \<rparr>) ts)))"
  by (simp add: skip_downstream_def skip_list_append split: option.split)

section \<open>What the operations change of one task\<close>

lemma skip_list_change:
  "gget ts x = Some t \<Longrightarrow> \<exists>t'. gget (skip_list ord cs ts) x = Some t' \<and>
     (t' = t \<or> (\<not> is_terminal (t_State t) \<and> \<not> should_run_after_failure t
                \<and> t' = t\<lparr> t_State := TaskSkipped \<rparr>))"
proof (induction ord cs ts arbitrary: t rule: skip_list.induct)
  case (1 ord ts)
  then show ?case by simp
next
  case (2 ord c cs ts)
  show ?case
  proof (cases "gget ts c")
    case None
    then show ?thesis using 2(1) 2(5) by simp
  next
    case (Some child)
    show ?thesis
    proof (cases "is_terminal (t_State child) \<or> should_run_after_failure child")
      case True
      then show ?thesis using 2(2,3,5) Some by auto
    next
      case False
      then have "\<exists>t'. gget (skip_list ord (ord c @ cs) (gput c (child\<lparr>t_State := TaskSkipped\<rparr>) ts)) x
          = Some t' \<and> (t' = u \<or> (\<not> is_terminal (t_State u) \<and> \<not> should_run_after_failure u
                \<and> t' = u\<lparr> t_State := TaskSkipped \<rparr>))"
        if "gget (gput c (child\<lparr>t_State := TaskSkipped\<rparr>) ts) x = Some u" for u
        using 2(4) [OF Some] that by auto
      then show ?thesis using False Some 2(5) by (cases "x = c") auto
    qed
  qed
qed

lemma mark_pending_change:
  "gget ts x = Some t \<Longrightarrow> \<exists>t'. gget (mark_pending deps xs ts) x = Some t' \<and>
     (t' = t \<or> (t_State t = TaskPending \<and> t' = t\<lparr> t_State := TaskReady \<rparr>))"
proof (induction deps xs ts arbitrary: t rule: mark_pending.induct)
  case (1 deps ts)
  then show ?case by simp
next
  case (2 deps y ys ts)
  show ?case
  proof (cases "gget ts y")
    case None
    then show ?thesis using 2(1,4) by simp
  next
    case (Some u)
    show ?thesis
    proof (cases "t_State u = TaskPending \<and> all_deps_complete deps ts y")
      case True
      have "\<exists>t'. gget (mark_pending deps ys (gput y (u\<lparr>t_State := TaskReady\<rparr>) ts)) x = Some t' \<and>
          (t' = v \<or> (t_State v = TaskPending \<and> t' = v\<lparr> t_State := TaskReady \<rparr>))"
        if "gget (gput y (u\<lparr>t_State := TaskReady\<rparr>) ts) x = Some v" for v
        using 2(2) [OF Some True] that by auto
      then show ?thesis using True Some 2(4) by (cases "x = y") auto
    next
      case False
      then show ?thesis using 2(3) [OF Some False] 2(4) Some by auto
    qed
  qed
qed

lemma release_children_change:
  "release_children deps cs ts = (ts', newly) \<Longrightarrow> gget ts x = Some t \<Longrightarrow>
     \<exists>t'. gget ts' x = Some t' \<and> (t' = t \<or> (t_State t = TaskPending \<and>
       (\<exists>s. (s = TaskReady \<or> s = TaskSkipped) \<and> t' = t\<lparr> t_State := s \<rparr>)))"
proof (induction cs arbitrary: ts newly t)
  case Nil
  then show ?case by simp
next
  case (Cons c cs)
  show ?case
  proof (cases "release_target deps ts c")
    case None
    then show ?thesis using Cons by (simp add: release_children_Cons)
  next
    case (Some cs')
    obtain child s where cs': "cs' = (child, s)" by (cases cs')
    note R = release_targetD [OF Some [unfolded cs']]
    from Cons.prems(1) Some cs' obtain n' where
      r: "release_children deps cs (gput c (child\<lparr> t_State := s \<rparr>) ts) = (ts', n')"
      by (auto simp: release_children_Cons split: prod.splits)
    show ?thesis
    proof (cases "x = c")
      case True
      then have "gget (gput c (child\<lparr> t_State := s \<rparr>) ts) x = Some (child\<lparr> t_State := s \<rparr>)" by simp
      from Cons.IH [OF r this] R Cons.prems(2) True show ?thesis by auto
    next
      case False
      then have "gget (gput c (child\<lparr> t_State := s \<rparr>) ts) x = Some t" using Cons.prems(2) by simp
      from Cons.IH [OF r this] show ?thesis by blast
    qed
  qed
qed

text \<open>A task in a final state is never touched again.\<close>

definition finals_kept :: "(string, task) gomap \<Rightarrow> (string, task) gomap \<Rightarrow> bool" where
  "finals_kept ts ts' \<longleftrightarrow>
     (\<forall>x t. gget ts x = Some t \<longrightarrow> is_terminal (t_State t) \<longrightarrow> gget ts' x = Some t)"

lemma finals_kept_refl [simp, intro]: "finals_kept ts ts"
  by (simp add: finals_kept_def)

lemma finals_kept_trans: "finals_kept ts ts' \<Longrightarrow> finals_kept ts' ts'' \<Longrightarrow> finals_kept ts ts''"
  by (simp add: finals_kept_def)

lemma finals_kept_gput:
  "gget ts x = Some t \<Longrightarrow> \<not> is_terminal (t_State t) \<Longrightarrow> finals_kept ts (gput x t' ts)"
  by (auto simp: finals_kept_def)

lemma finals_kept_skip_list: "finals_kept ts (skip_list ord cs ts)"
  using skip_list_change [of ts _ _ ord cs] by (fastforce simp: finals_kept_def)

lemma finals_kept_mark_pending: "finals_kept ts (mark_pending deps xs ts)"
  using mark_pending_change [of ts _ _ deps xs] by (fastforce simp: finals_kept_def)

lemma finals_kept_release_children:
  "release_children deps cs ts = (ts', newly) \<Longrightarrow> finals_kept ts ts'"
  using release_children_change [of deps cs ts ts' newly] by (fastforce simp: finals_kept_def)

lemma gget_cancel: "gget (g_tasks (cancel g)) x = map_option cancel_task (gget (g_tasks g) x)"
proof -
  have "gget (map (\<lambda>(x, t). (x, cancel_task t)) ts) x = map_option cancel_task (gget ts x)" for ts
    by (induction ts) (auto simp: gget_def)
  then show ?thesis by (simp add: cancel_def)
qed

lemma finals_kept_cancel: "finals_kept (g_tasks g) (g_tasks (cancel g))"
  by (auto simp: finals_kept_def gget_cancel cancel_task_def)

lemma transition_task_nonterminal:
  assumes "transition_task now s x g = Inr g'"
  obtains t t' where "gget (g_tasks g) x = Some t" "can_transition_to t s"
    "\<not> is_terminal (t_State t)" "transition_to now s t = Inr t'"
    "g' = g\<lparr> g_tasks := gput x t' (g_tasks g) \<rparr>" "t_State t' = s"
proof (cases "gget (g_tasks g) x")
  case None
  then show ?thesis using assms by (simp add: transition_task_def)
next
  case (Some t)
  show ?thesis
  proof (cases "transition_to now s t")
    case (Inl e)
    then show ?thesis using assms Some by (simp add: transition_task_def)
  next
    case (Inr t')
    then have c: "can_transition_to t s" by (simp add: transition_to_Inr_iff)
    then have "\<not> is_terminal (t_State t)" by (metis terminal_no_transition)
    moreover have "g' = g\<lparr> g_tasks := gput x t' (g_tasks g) \<rparr>"
      using assms Some Inr by (simp add: transition_task_def)
    ultimately show ?thesis
      using that Some c Inr transition_to_state [OF Inr] by blast
  qed
qed

text \<open>The three stages of a successful \<open>Complete\<close>.\<close>

lemma complete_stages:
  assumes "complete ord ks now x s code msg g = Inr (g', newly)"
  obtains t t1 ts ts' where
    "gget (g_tasks g) x = Some t" "can_transition_to t s" "\<not> is_terminal (t_State t)"
    "t_State t1 = s" "static_part t1 = static_part t" "ts = gput x t1 (g_tasks g)"
    "ts' = (if s = TaskFailed \<or> s = TaskTimedOut then skip_list ord (ord x) ts else ts)"
    "release_children (g_deps g) ks ts' = (g_tasks g', newly)"
    "g' = g\<lparr> g_tasks := g_tasks g' \<rparr>"
proof -
  from assms obtain t t0 where t: "gget (g_tasks g) x = Some t" "transition_to now s t = Inr t0"
    and r: "release_children (g_deps g) ks
        (if s = TaskFailed \<or> s = TaskTimedOut
         then skip_downstream ord x (gput x (t0\<lparr> t_ExitCode := code, t_ErrorMessage := msg \<rparr>) (g_tasks g))
         else gput x (t0\<lparr> t_ExitCode := code, t_ErrorMessage := msg \<rparr>) (g_tasks g))
        = (g_tasks g', newly)"
    and g': "g' = g\<lparr> g_tasks := g_tasks g' \<rparr>"
    by (auto simp: complete_def Let_def split: option.splits sum.splits prod.splits)
  from t(2) have "can_transition_to t s" "t_State t0 = s" "static_part t0 = static_part t"
    by (auto simp: transition_to_Inr_iff)
  moreover from this have "\<not> is_terminal (t_State t)" using terminal_no_transition by blast
  ultimately show ?thesis
    using r by (intro that [OF t(1) _ _ _ _ refl refl _ g', of "t0\<lparr> t_ExitCode := code, t_ErrorMessage := msg \<rparr>"])
      (auto simp: skip_downstream_def split: if_splits)
qed

lemma finals_kept_complete:
  assumes "complete ord ks now x s code msg g = Inr (g', newly)"
  shows "finals_kept (g_tasks g) (g_tasks g')"
  using assms
proof (rule complete_stages)
  fix t t1 ts ts'
  assume "gget (g_tasks g) x = Some t" "\<not> is_terminal (t_State t)" "ts = gput x t1 (g_tasks g)"
    and ts': "ts' = (if s = TaskFailed \<or> s = TaskTimedOut then skip_list ord (ord x) ts else ts)"
    and r: "release_children (g_deps g) ks ts' = (g_tasks g', newly)"
  then have "finals_kept (g_tasks g) ts" by (simp add: finals_kept_gput)
  moreover have "finals_kept ts ts'" by (simp add: ts' finals_kept_skip_list)
  ultimately show ?thesis
    using finals_kept_release_children [OF r] finals_kept_trans by blast
qed

section \<open>Runs\<close>

datatype graph_event =
    EvMarkReady
  | EvMove task_state string
  | EvFinish task_state string
  | EvCancel

text \<open>
  The scheduler moves tasks to \<open>TaskScheduled\<close> and \<open>TaskRunning\<close> only, and completes a task with a
  final state: the states a worker's report can carry.
\<close>

inductive graph_step :: "graph \<Rightarrow> graph_event \<Rightarrow> graph \<Rightarrow> bool" where
  step_mark: "range_order (g_tasks g) ks \<Longrightarrow> mark_ready ks ks' g = (g', newly) \<Longrightarrow>
    graph_step g EvMarkReady g'"
| step_move: "s = TaskScheduled \<or> s = TaskRunning \<Longrightarrow> transition_task now s x g = Inr g' \<Longrightarrow>
    graph_step g (EvMove s x) g'"
| step_finish: "child_order g ord \<Longrightarrow> distinct ks \<Longrightarrow> set ks = set (children g x) \<Longrightarrow>
    is_terminal s \<Longrightarrow> complete ord ks now x s code msg g = Inr (g', newly) \<Longrightarrow>
    graph_step g (EvFinish s x) g'"
| step_cancel: "graph_step g EvCancel (cancel g)"

inductive graph_run :: "graph \<Rightarrow> graph_event list \<Rightarrow> graph \<Rightarrow> bool" for g0 where
  run_start: "graph_run g0 [] g0"
| run_step: "graph_run g0 es g \<Longrightarrow> graph_step g e g' \<Longrightarrow> graph_run g0 (es @ [e]) g'"

inductive_cases graph_step_moveE: "graph_step g (EvMove s x) g'"
inductive_cases graph_step_finishE: "graph_step g (EvFinish s x) g'"

definition all_pending :: "graph \<Rightarrow> bool" where
  "all_pending g = list_all (\<lambda>(x, t). t_State t = TaskPending) (g_tasks g)"

lemma graph_step_frame:
  "graph_step g e g' \<Longrightarrow> statics (g_tasks g') = statics (g_tasks g) \<and> g_edges g' = g_edges g
     \<and> g_deps g' = g_deps g"
proof (induction rule: graph_step.induct)
  case (step_mark g ks ks' g' newly)
  then show ?case by (auto simp: mark_ready_def Let_def statics_mark_pending)
next
  case (step_move s now x g g')
  then show ?case by (simp add: statics_transition_task)
next
  case (step_finish g ord ks x s now code msg g' newly)
  then show ?case using statics_complete by blast
next
  case (step_cancel g)
  then show ?case by (simp add: statics_cancel) (simp add: cancel_def)
qed

lemma graph_run_frame:
  "graph_run g0 es g \<Longrightarrow> statics (g_tasks g) = statics (g_tasks g0) \<and> g_edges g = g_edges g0
     \<and> g_deps g = g_deps g0"
  by (induction rule: graph_run.induct) (auto dest: graph_step_frame)

lemma wf_graph_frame:
  assumes "wf_graph g" "statics (g_tasks g') = statics (g_tasks g)" "g_edges g' = g_edges g"
    "g_deps g' = g_deps g"
  shows "wf_graph g'"
  using wf_graph_statics [OF assms(1,2)] assms by (simp add: wf_graph_def)

lemma graph_run_wf: "graph_run g0 es g \<Longrightarrow> wf_graph g0 \<Longrightarrow> wf_graph g"
  using graph_run_frame wf_graph_frame by blast

lemma finals_kept_step: "graph_step g e g' \<Longrightarrow> finals_kept (g_tasks g) (g_tasks g')"
proof (induction rule: graph_step.induct)
  case (step_mark g ks ks' g' newly)
  then show ?case by (auto simp: mark_ready_def Let_def finals_kept_mark_pending)
next
  case (step_move s now x g g')
  from step_move(2) show ?case
    by (rule transition_task_nonterminal) (simp add: finals_kept_gput)
next
  case (step_finish g ord ks x s now code msg g' newly)
  then show ?case using finals_kept_complete by blast
next
  case (step_cancel g)
  then show ?case by (rule finals_kept_cancel)
qed

end
