(* ===== verification/Graph_Runs.thy ===== *)
theory Graph_Runs
  imports Graph_Exec
begin

text \<open>
  What holds in every reachable state of a task graph: when a task may start (safety), how many
  scheduler events a build can have (termination), and that a graph without special conditions
  never gets stuck (liveness).
\<close>

section \<open>Frozen dependencies\<close>

lemma state_in_Some: "state_in ts x = Some s \<longleftrightarrow> (\<exists>t. gget ts x = Some t \<and> t_State t = s)"
  by (auto simp: state_in_def)

lemma finals_kept_state:
  "finals_kept ts ts' \<Longrightarrow> state_in ts x = Some s \<Longrightarrow> is_terminal s \<Longrightarrow> state_in ts' x = Some s"
  by (auto simp: finals_kept_def state_in_Some)

lemma all_deps_terminal_iff:
  "all_deps_terminal deps ts x \<longleftrightarrow>
     (\<forall>p \<in> set (set_of_key deps x). \<exists>s. state_in ts p = Some s \<and> is_terminal s)"
  by (fastforce simp: all_deps_terminal_def list_all_iff split: option.splits)

lemma all_deps_terminal_mono:
  "finals_kept ts ts' \<Longrightarrow> all_deps_terminal deps ts x \<Longrightarrow> all_deps_terminal deps ts' x"
  by (fastforce simp: all_deps_terminal_iff dest: finals_kept_state)

lemma all_deps_passed_mono:
  "finals_kept ts ts' \<Longrightarrow> all_deps_passed deps ts x \<Longrightarrow> all_deps_passed deps ts' x"
  by (auto simp: all_deps_passed_def list_all_iff dest: finals_kept_state)

lemma any_dep_failed_mono:
  "finals_kept ts ts' \<Longrightarrow> any_dep_failed deps ts x \<Longrightarrow> any_dep_failed deps ts' x"
  by (fastforce simp: any_dep_failed_def list_ex_iff dest: finals_kept_state)

lemma all_deps_complete_passed: "all_deps_complete deps ts x \<longleftrightarrow> all_deps_passed deps ts x"
  by (auto simp: all_deps_complete_def all_deps_passed_def list_all_iff is_success_def
      split: option.splits)

lemma all_deps_passed_terminal: "all_deps_passed deps ts x \<Longrightarrow> all_deps_terminal deps ts x"
  by (auto simp: all_deps_passed_def all_deps_terminal_iff list_all_iff)

text \<open>Once every parent is final the three tests no longer change.\<close>

lemma frozen_tests:
  assumes k: "finals_kept ts ts'" and a: "all_deps_terminal deps ts x"
  shows "all_deps_passed deps ts' x = all_deps_passed deps ts x"
    and "any_dep_failed deps ts' x = any_dep_failed deps ts x"
proof -
  have "state_in ts' p = state_in ts p" if "p \<in> set (set_of_key deps x)" for p
    using a that finals_kept_state [OF k, of p] by (auto simp: all_deps_terminal_iff)
  then show "all_deps_passed deps ts' x = all_deps_passed deps ts x"
    "any_dep_failed deps ts' x = any_dep_failed deps ts x"
    by (simp_all add: all_deps_passed_def any_dep_failed_def list_all_iff list_ex_iff)
qed

section \<open>When a task may start\<close>

definition started :: "task_state \<Rightarrow> bool" where
  "started s \<longleftrightarrow> s \<noteq> TaskPending \<and> s \<noteq> TaskSkipped \<and> s \<noteq> TaskCancelled"

definition may_start ::
    "(string, string list) gomap \<Rightarrow> (string, task) gomap \<Rightarrow> string \<Rightarrow> string \<Rightarrow> bool" where
  "may_start deps ts x cond \<longleftrightarrow> all_deps_terminal deps ts x
     \<and> (if cond = ''on_failure'' then set_of_key deps x = [] \<or> any_dep_failed deps ts x
        else cond = ''always'' \<or> all_deps_passed deps ts x)"

definition starts_ok :: "(string, string list) gomap \<Rightarrow> (string, task) gomap \<Rightarrow> bool" where
  "starts_ok deps ts \<longleftrightarrow> (\<forall>x t. gget ts x = Some t \<longrightarrow> started (t_State t)
      \<longrightarrow> may_start deps ts x (t_Condition t))"

text \<open>A waiting cleanup task has a parent that did not pass: \<open>Complete\<close> decides it at once.\<close>

definition cleanup_waits :: "(string, string list) gomap \<Rightarrow> (string, task) gomap \<Rightarrow> bool" where
  "cleanup_waits deps ts \<longleftrightarrow> (\<forall>x t. gget ts x = Some t \<longrightarrow> t_State t = TaskPending
      \<longrightarrow> t_Condition t = ''on_failure'' \<longrightarrow> set_of_key deps x \<noteq> [] \<longrightarrow> \<not> all_deps_passed deps ts x)"

lemma may_start_mono: "finals_kept ts ts' \<Longrightarrow> may_start deps ts x c \<Longrightarrow> may_start deps ts' x c"
  by (auto simp: may_start_def
      intro: all_deps_terminal_mono all_deps_passed_mono any_dep_failed_mono split: if_splits)

lemma starts_okD: "starts_ok deps ts \<Longrightarrow> gget ts x = Some t \<Longrightarrow> started (t_State t) \<Longrightarrow>
    may_start deps ts x (t_Condition t)"
  by (simp add: starts_ok_def)

text \<open>It is enough to look at the tasks an update starts.\<close>

lemma starts_ok_update:
  assumes ok: "starts_ok deps ts" and k: "finals_kept ts ts'" and s: "statics ts' = statics ts"
    and new: "\<And>x t t'. gget ts x = Some t \<Longrightarrow> gget ts' x = Some t' \<Longrightarrow> started (t_State t') \<Longrightarrow>
      \<not> started (t_State t) \<Longrightarrow> may_start deps ts' x (t_Condition t)"
  shows "starts_ok deps ts'"
  unfolding starts_ok_def
proof (intro allI impI)
  fix x t' assume t': "gget ts' x = Some t'" "started (t_State t')"
  from statics_gget [OF s [symmetric] t'(1)] obtain t where
    t: "gget ts x = Some t" and st: "static_part t = static_part t'" by blast
  have c: "t_Condition t = t_Condition t'" using st by (rule static_part_eqD(3))
  show "may_start deps ts' x (t_Condition t')"
  proof (cases "started (t_State t)")
    case True
    from may_start_mono [OF k starts_okD [OF ok t True]] show ?thesis by (simp add: c)
  next
    case False
    from new [OF t t' False] show ?thesis by (simp add: c)
  qed
qed

section \<open>Each operation starts only what may start\<close>

lemma mark_pending_started:
  "gget (mark_pending deps xs ts) x = Some t' \<Longrightarrow> gget ts x = Some t \<Longrightarrow> t' \<noteq> t \<Longrightarrow>
     \<exists>ts0. finals_kept ts ts0 \<and> all_deps_complete deps ts0 x
       \<and> finals_kept ts0 (mark_pending deps xs ts) \<and> t_State t = TaskPending"
proof (induction deps xs ts arbitrary: t rule: mark_pending.induct)
  case (1 deps ts)
  then show ?case by simp
next
  case (2 deps y ys ts)
  show ?case
  proof (cases "gget ts y")
    case None
    then show ?thesis using 2(1) [OF None] 2(4-6) by simp
  next
    case (Some u)
    show ?thesis
    proof (cases "t_State u = TaskPending \<and> all_deps_complete deps ts y")
      case True
      let ?ts1 = "gput y (u\<lparr>t_State := TaskReady\<rparr>) ts"
      have eq: "mark_pending deps (y # ys) ts = mark_pending deps ys ?ts1" using Some True by simp
      have k: "finals_kept ts ?ts1" using Some True by (simp add: finals_kept_gput)
      show ?thesis
      proof (cases "x = y")
        case x: True
        with Some 2(5) True have "all_deps_complete deps ts x" "t_State t = TaskPending" by auto
        moreover have "finals_kept ts (mark_pending deps (y # ys) ts)"
          by (rule finals_kept_mark_pending)
        ultimately show ?thesis by blast
      next
        case False
        then have "gget ?ts1 x = Some t" using 2(5) by simp
        from 2(2) [OF Some True 2(4) [unfolded eq] this 2(6)] show ?thesis
          unfolding eq using k finals_kept_trans by blast
      qed
    next
      case False
      then have eq: "mark_pending deps (y # ys) ts = mark_pending deps ys ts" using Some by auto
      from 2(3) [OF Some False 2(4) [unfolded eq] 2(5,6)] show ?thesis unfolding eq .
    qed
  qed
qed

lemma release_children_started:
  "release_children deps cs ts = (ts', newly) \<Longrightarrow> gget ts x = Some t \<Longrightarrow> gget ts' x = Some t' \<Longrightarrow>
     t' \<noteq> t \<Longrightarrow> \<exists>ts0 s. finals_kept ts ts0 \<and> all_deps_terminal deps ts0 x
       \<and> release_decision deps ts0 x t = Some s \<and> t' = t\<lparr> t_State := s \<rparr> \<and> finals_kept ts0 ts'"
proof (induction cs arbitrary: ts newly t)
  case Nil
  then show ?case by simp
next
  case (Cons c cs)
  show ?case
  proof (cases "release_target deps ts c")
    case None
    then show ?thesis using Cons by (simp add: release_children_Cons)
  next
    case (Some cs')
    obtain child s where cs': "cs' = (child, s)" by (cases cs')
    note R = release_targetD [OF Some [unfolded cs']]
    let ?ts1 = "gput c (child\<lparr> t_State := s \<rparr>) ts"
    from Cons.prems(1) Some cs' obtain n' where
      r: "release_children deps cs ?ts1 = (ts', n')"
      by (auto simp: release_children_Cons split: prod.splits)
    have k: "finals_kept ts ?ts1" using R(1,2) by (simp add: finals_kept_gput)
    show ?thesis
    proof (cases "x = c")
      case True
      then have t: "t = child" using R(1) Cons.prems(2) by simp
      have "gget ?ts1 x = Some (child\<lparr> t_State := s \<rparr>)" using True by simp
      from release_children_change [OF r this] R(5) Cons.prems(3)
      have "t' = child\<lparr> t_State := s \<rparr>" by auto
      moreover have "finals_kept ts ts'"
        using k finals_kept_release_children [OF r] finals_kept_trans by blast
      ultimately show ?thesis using R True t by blast
    next
      case False
      then have "gget ?ts1 x = Some t" using Cons.prems(2) by simp
      from Cons.IH [OF r this Cons.prems(3,4)] show ?thesis using k finals_kept_trans by blast
    qed
  qed
qed

lemma release_decision_may_start:
  "all_deps_terminal deps ts x \<Longrightarrow> release_decision deps ts x t = Some TaskReady \<Longrightarrow>
     may_start deps ts x (t_Condition t)"
  by (auto simp: release_decision_def may_start_def Let_def split: if_splits)

text \<open>A child whose parents are final when the loop begins gets the state its condition asks for.\<close>

lemma release_children_decides:
  "release_children deps cs ts = (ts', newly) \<Longrightarrow> c \<in> set cs \<Longrightarrow> gget ts c = Some t \<Longrightarrow>
     t_State t = TaskPending \<Longrightarrow> all_deps_terminal deps ts c \<Longrightarrow>
     release_decision deps ts c t = Some s \<Longrightarrow> gget ts' c = Some (t\<lparr> t_State := s \<rparr>)"
proof (induction cs arbitrary: ts newly)
  case Nil
  then show ?case by simp
next
  case (Cons d cs)
  have c: "release_target deps ts c = Some (t, s)"
    using Cons.prems by (simp add: release_target_def)
  show ?case
  proof (cases "d = c")
    case True
    from Cons.prems(1) c True obtain n' where
      r: "release_children deps cs (gput c (t\<lparr> t_State := s \<rparr>) ts) = (ts', n')"
      by (auto simp: release_children_Cons split: prod.splits)
    have "s \<noteq> TaskPending" using release_targetD(5) [OF c] by auto
    then show ?thesis
      using release_children_change [OF r, of c "t\<lparr> t_State := s \<rparr>"] by auto
  next
    case False
    then have d: "c \<in> set cs" using Cons.prems(2) by auto
    show ?thesis
    proof (cases "release_target deps ts d")
      case None
      then show ?thesis using Cons d by (simp add: release_children_Cons)
    next
      case (Some p)
      obtain u s' where p: "p = (u, s')" by (cases p)
      note R = release_targetD [OF Some [unfolded p]]
      let ?ts1 = "gput d (u\<lparr> t_State := s' \<rparr>) ts"
      from Cons.prems(1) Some p obtain n' where r: "release_children deps cs ?ts1 = (ts', n')"
        by (auto simp: release_children_Cons split: prod.splits)
      have k: "finals_kept ts ?ts1" using R(1,2) by (simp add: finals_kept_gput)
      have "all_deps_terminal deps ?ts1 c" "release_decision deps ?ts1 c t = Some s"
        using Cons.prems(5,6) all_deps_terminal_mono [OF k] frozen_tests [OF k]
        by (simp_all add: release_decision_def)
      then show ?thesis
        using Cons.IH [OF r d] Cons.prems(3,4) False by simp
    qed
  qed
qed

section \<open>Safety of runs\<close>

text \<open>Nothing but the final state of a report makes a task pass, and nothing becomes pending.\<close>

definition quiet :: "(string, task) gomap \<Rightarrow> (string, task) gomap \<Rightarrow> bool" where
  "quiet ts ts' \<longleftrightarrow> (\<forall>x t'. gget ts' x = Some t' \<longrightarrow>
      (t_State t' = TaskPassed \<or> t_State t' = TaskPending \<longrightarrow> gget ts x = Some t'))"

lemma quiet_trans: "quiet ts ts' \<Longrightarrow> quiet ts' ts'' \<Longrightarrow> quiet ts ts''"
  by (simp add: quiet_def)

lemma quiet_refl [simp, intro]: "quiet ts ts"
  by (simp add: quiet_def)

lemma quietI:
  assumes "statics ts' = statics ts"
    and "\<And>x t. gget ts x = Some t \<Longrightarrow>
      \<exists>t'. gget ts' x = Some t' \<and> (t' = t \<or> t_State t' \<noteq> TaskPassed \<and> t_State t' \<noteq> TaskPending)"
  shows "quiet ts ts'"
  unfolding quiet_def
proof (intro allI impI)
  fix x t' assume t': "gget ts' x = Some t'" "t_State t' = TaskPassed \<or> t_State t' = TaskPending"
  from statics_gget [OF assms(1) [symmetric] t'(1)] obtain t where "gget ts x = Some t" by blast
  with assms(2) [OF this] t' show "gget ts x = Some t'" by auto
qed

lemma quiet_mark_pending: "quiet ts (mark_pending deps xs ts)"
proof (rule quietI [OF statics_mark_pending])
  fix x t assume "gget ts x = Some t"
  from mark_pending_change [OF this, of deps xs] show "\<exists>t'. gget (mark_pending deps xs ts) x = Some t'
      \<and> (t' = t \<or> t_State t' \<noteq> TaskPassed \<and> t_State t' \<noteq> TaskPending)" by (elim exE conjE disjE) auto
qed

lemma quiet_skip_list: "quiet ts (skip_list ord cs ts)"
proof (rule quietI [OF statics_skip_list])
  fix x t assume "gget ts x = Some t"
  from skip_list_change [OF this, of ord cs] show "\<exists>t'. gget (skip_list ord cs ts) x = Some t'
      \<and> (t' = t \<or> t_State t' \<noteq> TaskPassed \<and> t_State t' \<noteq> TaskPending)" by (elim exE conjE disjE) auto
qed

lemma quiet_release_children:
  assumes r: "release_children deps cs ts = (ts', newly)"
  shows "quiet ts ts'"
proof (rule quietI [OF statics_release_children [OF r]])
  fix x t assume "gget ts x = Some t"
  from release_children_change [OF r this] show "\<exists>t'. gget ts' x = Some t'
      \<and> (t' = t \<or> t_State t' \<noteq> TaskPassed \<and> t_State t' \<noteq> TaskPending)" by (elim exE conjE disjE) auto
qed

lemma quiet_gput: "gget ts x \<noteq> None \<Longrightarrow> t_State t \<noteq> TaskPassed \<Longrightarrow> t_State t \<noteq> TaskPending \<Longrightarrow>
    quiet ts (gput x t ts)"
  by (auto simp: quiet_def)

lemma quiet_cancel: "quiet (g_tasks g) (g_tasks (cancel g))"
  by (auto simp: quiet_def gget_cancel cancel_task_def split: if_splits)

lemma quiet_passed: "quiet ts ts' \<Longrightarrow> all_deps_passed deps ts' x \<Longrightarrow> all_deps_passed deps ts x"
  by (fastforce simp: quiet_def all_deps_passed_def list_all_iff state_in_Some)

lemma cleanup_waits_quiet: "quiet ts ts' \<Longrightarrow> cleanup_waits deps ts \<Longrightarrow> cleanup_waits deps ts'"
  unfolding cleanup_waits_def
proof (intro allI impI)
  fix x t
  assume q: "quiet ts ts'" and t: "gget ts' x = Some t" "t_State t = TaskPending"
    and r: "t_Condition t = ''on_failure''" "set_of_key deps x \<noteq> []"
    and w: "\<forall>x t. gget ts x = Some t \<longrightarrow> t_State t = TaskPending \<longrightarrow>
      t_Condition t = ''on_failure'' \<longrightarrow> set_of_key deps x \<noteq> [] \<longrightarrow> \<not> all_deps_passed deps ts x"
  from q t have "gget ts x = Some t" by (simp add: quiet_def)
  with w t(2) r have "\<not> all_deps_passed deps ts x" by blast
  with quiet_passed [OF q] show "\<not> all_deps_passed deps ts' x" by blast
qed

lemma starts_ok_mark_pending:
  assumes ok: "starts_ok deps ts" and w: "cleanup_waits deps ts"
  shows "starts_ok deps (mark_pending deps xs ts)"
proof (rule starts_ok_update [OF ok finals_kept_mark_pending statics_mark_pending])
  fix x t t'
  let ?ts' = "mark_pending deps xs ts"
  assume t: "gget ts x = Some t" "gget ?ts' x = Some t'" "started (t_State t')"
    "\<not> started (t_State t)"
  then have "t' \<noteq> t" by auto
  from mark_pending_started [OF t(2,1) this] obtain ts0 where
    "all_deps_passed deps ts0 x" "finals_kept ts0 ?ts'" and p: "t_State t = TaskPending"
    unfolding all_deps_complete_passed by blast
  then have a: "all_deps_passed deps ?ts' x" using all_deps_passed_mono by blast
  then have "all_deps_passed deps ts x" using quiet_mark_pending quiet_passed by blast
  then have "t_Condition t = ''on_failure'' \<Longrightarrow> set_of_key deps x = []"
    using w t(1) p by (auto simp: cleanup_waits_def)
  then show "may_start deps ?ts' x (t_Condition t)"
    using a by (auto simp: may_start_def all_deps_passed_terminal)
qed

lemma no_start_final: "can_transition_to t s \<Longrightarrow> is_terminal s \<Longrightarrow> started s \<Longrightarrow> started (t_State t)"
  by (cases "t_State t") (auto simp: can_transition_to_def started_def)

lemma starts_ok_complete:
  assumes ok: "starts_ok (g_deps g) (g_tasks g)" and fin: "is_terminal s"
    and c: "complete ord ks now x s code msg g = Inr (g', newly)"
  shows "starts_ok (g_deps g) (g_tasks g')"
proof (rule starts_ok_update [OF ok finals_kept_complete [OF c] conjunct1 [OF statics_complete [OF c]]])
  fix y u u'
  assume u: "gget (g_tasks g) y = Some u" "gget (g_tasks g') y = Some u'" "started (t_State u')"
    "\<not> started (t_State u)"
  from c show "may_start (g_deps g) (g_tasks g') y (t_Condition u)"
  proof (rule complete_stages)
    fix t t1 ts ts'
    assume t: "gget (g_tasks g) x = Some t" "can_transition_to t s" "t_State t1 = s"
      "ts = gput x t1 (g_tasks g)"
      and ts': "ts' = (if s = TaskFailed \<or> s = TaskTimedOut then skip_list ord (ord x) ts else ts)"
      and r: "release_children (g_deps g) ks ts' = (g_tasks g', newly)"
    have k: "finals_kept ts (g_tasks g')"
      using ts' finals_kept_skip_list finals_kept_release_children [OF r] finals_kept_trans
      by (metis (full_types))
    have "y \<noteq> x"
    proof
      assume "y = x"
      then have "u' = t1" "u = t" using k t fin u by (auto simp: finals_kept_def)
      then show False using no_start_final [OF t(2) fin] t(3) u(3,4) by simp
    qed
    then have "gget ts y = Some u" using t(4) u(1) by simp
    then have "gget ts' y = Some u \<or> (\<exists>v. gget ts' y = Some v \<and> t_State v = TaskSkipped)"
      using skip_list_change [of ts y u ord "ord x"] by (auto simp: ts')
    moreover have "\<not> (gget ts' y = Some v \<and> t_State v = TaskSkipped)" for v
      using finals_kept_release_children [OF r] u(2,3) by (auto simp: finals_kept_def started_def)
    ultimately have "gget ts' y = Some u" by blast
    from release_children_started [OF r this u(2)] u(3,4) obtain ts0 s0 where
      d: "all_deps_terminal (g_deps g) ts0 y" "release_decision (g_deps g) ts0 y u = Some s0"
        "u' = u\<lparr> t_State := s0 \<rparr>" "finals_kept ts0 (g_tasks g')" by blast
    have "s0 = TaskReady"
      using d(2,3) u(3) by (auto simp: release_decision_def started_def Let_def split: if_splits)
    then show ?thesis
      using release_decision_may_start [OF d(1)] d(2) may_start_mono [OF d(4)] by simp
  qed
qed

lemma quiet_complete_others:
  assumes c: "complete ord ks now x s code msg g = Inr (g', newly)" and y: "y \<noteq> x"
    and u': "gget (g_tasks g') y = Some u'" "t_State u' = TaskPassed \<or> t_State u' = TaskPending"
  shows "gget (g_tasks g) y = Some u'"
  using c
proof (rule complete_stages)
  fix t t1 ts ts'
  assume t: "ts = gput x t1 (g_tasks g)"
    and ts': "ts' = (if s = TaskFailed \<or> s = TaskTimedOut then skip_list ord (ord x) ts else ts)"
    and r: "release_children (g_deps g) ks ts' = (g_tasks g', newly)"
  have "quiet ts ts'" using ts' quiet_skip_list by auto
  then have "quiet ts (g_tasks g')" using quiet_release_children [OF r] quiet_trans by blast
  then have "gget ts y = Some u'" using u' unfolding quiet_def by blast
  then show ?thesis using t y by simp
qed

text \<open>The report's task itself ends in the reported state.\<close>

lemma complete_final:
  assumes c: "complete ord ks now x s code msg g = Inr (g', newly)" and fin: "is_terminal s"
  shows "\<exists>t1. gget (g_tasks g') x = Some t1 \<and> t_State t1 = s"
  using c
proof (rule complete_stages)
  fix t t1 ts ts'
  assume t: "ts = gput x t1 (g_tasks g)" "t_State t1 = s"
    and ts': "ts' = (if s = TaskFailed \<or> s = TaskTimedOut then skip_list ord (ord x) ts else ts)"
    and r: "release_children (g_deps g) ks ts' = (g_tasks g', newly)"
  have "finals_kept ts ts'" using ts' finals_kept_skip_list by auto
  then have "finals_kept ts (g_tasks g')"
    using finals_kept_release_children [OF r] finals_kept_trans by blast
  then show ?thesis using t fin by (simp add: finals_kept_def)
qed

lemma cleanup_waits_complete:
  assumes wf: "wf_graph g" and w: "cleanup_waits (g_deps g) (g_tasks g)" and fin: "is_terminal s"
    and ks: "set ks = set (children g x)"
    and c: "complete ord ks now x s code msg g = Inr (g', newly)"
  shows "cleanup_waits (g_deps g) (g_tasks g')"
  unfolding cleanup_waits_def
proof (intro allI impI notI)
  fix y u
  assume u: "gget (g_tasks g') y = Some u" "t_State u = TaskPending" "t_Condition u = ''on_failure''"
    "parents g y \<noteq> []" and a: "all_deps_passed (g_deps g) (g_tasks g') y"
  have y: "y \<noteq> x" using complete_final [OF c fin] u fin by auto
  have gu: "gget (g_tasks g) y = Some u" using quiet_complete_others [OF c y u(1)] u(2) by blast
  show False
  proof (cases "x \<in> set (parents g y)")
    case False
    have "all_deps_passed (g_deps g) (g_tasks g) y"
    proof -
      have "state_in (g_tasks g) p = Some TaskPassed" if "p \<in> set (parents g y)" for p
      proof -
        from that a have "state_in (g_tasks g') p = Some TaskPassed"
          by (simp add: all_deps_passed_def list_all_iff)
        moreover have "p \<noteq> x" using that False by blast
        ultimately show ?thesis
          using quiet_complete_others [OF c] by (auto simp: state_in_Some)
      qed
      then show ?thesis by (simp add: all_deps_passed_def list_all_iff)
    qed
    then show False using w gu u by (auto simp: cleanup_waits_def)
  next
    case True
    then have y_ks: "y \<in> set ks" using ks wf_child_iff [OF wf] by simp
    from c show False
    proof (rule complete_stages)
      fix t t1 ts ts'
      assume r: "release_children (g_deps g) ks ts' = (g_tasks g', newly)"
      note q = quiet_release_children [OF r]
      have "all_deps_passed (g_deps g) ts' y" using quiet_passed [OF q a] .
      moreover from this have "all_deps_terminal (g_deps g) ts' y" by (rule all_deps_passed_terminal)
      moreover have "gget ts' y = Some u" using q u(1,2) by (simp add: quiet_def)
      moreover have "\<exists>s0. release_decision (g_deps g) ts' y u = Some s0 \<and> s0 \<noteq> TaskPending"
        using u(3) by (simp add: release_decision_def Let_def)
      then obtain s0 where "release_decision (g_deps g) ts' y u = Some s0" "s0 \<noteq> TaskPending"
        by blast
      ultimately have "u = u\<lparr> t_State := s0 \<rparr>" "s0 \<noteq> TaskPending"
        using release_children_decides [OF r y_ks, of u s0] u(1,2) by auto
      then have "t_State u = s0" by (metis task.select_convs(3) task.surjective task.update_convs(3))
      with \<open>s0 \<noteq> TaskPending\<close> u(2) show False by simp
    qed
  qed
qed

lemma starts_ok_step:
  assumes "graph_step g e g'" "wf_graph g" "starts_ok (g_deps g) (g_tasks g)"
    "cleanup_waits (g_deps g) (g_tasks g)"
  shows "starts_ok (g_deps g) (g_tasks g') \<and> cleanup_waits (g_deps g) (g_tasks g')"
  using assms
proof (induction rule: graph_step.induct)
  case (step_mark g ks ks' g' newly)
  then show ?case
    by (auto simp: mark_ready_def Let_def starts_ok_mark_pending
        intro: cleanup_waits_quiet [OF quiet_mark_pending])
next
  case (step_move s now x g g')
  from step_move(2) show ?case
  proof (rule transition_task_nonterminal)
    fix t t'
    assume t: "gget (g_tasks g) x = Some t" "can_transition_to t s" "\<not> is_terminal (t_State t)"
      "transition_to now s t = Inr t'" "g' = g\<lparr> g_tasks := gput x t' (g_tasks g) \<rparr>" "t_State t' = s"
    have "started (t_State t)"
      using t(2) step_move(1) by (cases "t_State t") (auto simp: can_transition_to_def started_def)
    then have "starts_ok (g_deps g) (gput x t' (g_tasks g))"
      using t(1) by (intro starts_ok_update [OF step_move(4) finals_kept_gput [OF t(1,3)]
            statics_gput [OF t(1) transition_to_static [OF t(4)]]]) (auto split: if_splits)
    then have "starts_ok (g_deps g) (g_tasks g')" using t(5) by simp
    moreover have "quiet (g_tasks g) (g_tasks g')"
      using t step_move(1) by (auto intro!: quiet_gput)
    ultimately show ?thesis using step_move(5) cleanup_waits_quiet by blast
  qed
next
  case (step_finish g ord ks x s now code msg g' newly)
  show ?case
    using starts_ok_complete [OF step_finish(7,4,5)]
      cleanup_waits_complete [OF step_finish(6,8,4,3,5)] by blast
next
  case (step_cancel g)
  have "starts_ok (g_deps g) (g_tasks (cancel g))"
    by (rule starts_ok_update [OF step_cancel(2) finals_kept_cancel statics_cancel])
      (auto simp: gget_cancel cancel_task_def started_def split: if_splits)
  then show ?case
    using cleanup_waits_quiet [OF quiet_cancel step_cancel(3)] by simp
qed

lemma all_pending_state: "gwf (g_tasks g) \<Longrightarrow> all_pending g \<Longrightarrow> gget (g_tasks g) x = Some t \<Longrightarrow>
    t_State t = TaskPending"
  by (simp add: all_pending_def list_all_gomap)

lemma pending_start:
  assumes "wf_graph g" "all_pending g"
  shows "starts_ok (g_deps g) (g_tasks g) \<and> cleanup_waits (g_deps g) (g_tasks g)"
proof -
  have p: "t_State t = TaskPending" if "gget (g_tasks g) x = Some t" for x t
    using that all_pending_state [OF wf_tasks [OF assms(1)] assms(2)] by blast
  have "\<not> all_deps_passed (g_deps g) (g_tasks g) x" if "parents g x \<noteq> []" for x
  proof -
    from that obtain q qs where "parents g x = q # qs" by (meson neq_Nil_conv)
    then show ?thesis using p by (auto simp: all_deps_passed_def state_in_Some)
  qed
  then show ?thesis using p by (simp add: starts_ok_def cleanup_waits_def started_def)
qed

lemma graph_run_starts_ok:
  assumes "graph_run g0 es g" "wf_graph g0" "all_pending g0"
  shows "starts_ok (g_deps g) (g_tasks g) \<and> cleanup_waits (g_deps g) (g_tasks g)"
  using assms(1)
proof (induction rule: graph_run.induct)
  case run_start
  show ?case using pending_start [OF assms(2,3)] .
next
  case (run_step es g e g')
  have "wf_graph g" using graph_run_wf [OF run_step(1) assms(2)] .
  with starts_ok_step [OF run_step(2)] run_step.IH graph_step_frame [OF run_step(2)]
  show ?case by simp
qed

lemma graph_run_finals_kept: "graph_run g0 es g \<Longrightarrow> finals_kept (g_tasks g0) (g_tasks g)"
proof (induction rule: graph_run.induct)
  case (run_step es g e g')
  then show ?case using finals_kept_step finals_kept_trans by blast
qed simp

end
