(* ===== verification/Graph_Live.thy ===== *)
theory Graph_Live
  imports Graph_Runs
begin

text \<open>
  Termination and liveness of a build's task graph.  Every event of the scheduler uses up one of at
  most four transitions per task, so a build has at most \<open>4 * size\<close> of them.  A graph whose tasks
  all have the default condition cannot get stuck: if nothing is ready, scheduled or running and
  \<open>MarkReady\<close> finds nothing, the build is complete.
\<close>

section \<open>Termination\<close>

definition work :: "(string, task) gomap \<Rightarrow> nat" where
  "work ts = (\<Sum>(x, t) \<leftarrow> ts. state_rank (t_State t))"

text \<open>Events other than \<open>MarkReady\<close> and \<open>Cancel\<close>: those the scheduler takes for one task.\<close>

definition task_events :: "graph_event list \<Rightarrow> nat" where
  "task_events es = length (filter (\<lambda>e. e \<noteq> EvMarkReady \<and> e \<noteq> EvCancel) es)"

lemma work_set:
  assumes "gwf ts"
  shows "work ts = (\<Sum>x \<in> set (gkeys ts). case state_in ts x of None \<Rightarrow> 0 | Some s \<Rightarrow> state_rank s)"
proof -
  have "distinct ts" using assms by (simp add: gwf_def gkeys_def distinct_map)
  then have "work ts = (\<Sum>p \<in> set ts. state_rank (t_State (snd p)))"
    by (simp add: work_def case_prod_unfold sum_list_distinct_conv_sum_set)
  also have "\<dots> = (\<Sum>x \<in> fst ` set ts. case state_in ts x of None \<Rightarrow> 0 | Some s \<Rightarrow> state_rank s)"
    using assms
    by (intro sum.reindex_cong [of fst, symmetric])
      (auto simp: gwf_def gkeys_def distinct_map state_in_def gget_SomeI [OF assms])
  finally show ?thesis by (simp add: gkeys_def)
qed

definition downhill :: "(string, task) gomap \<Rightarrow> (string, task) gomap \<Rightarrow> bool" where
  "downhill ts ts' \<longleftrightarrow> (\<forall>x t. gget ts x = Some t \<longrightarrow>
      (\<exists>t'. gget ts' x = Some t' \<and> state_rank (t_State t') \<le> state_rank (t_State t)))"

lemma downhill_refl [simp, intro]: "downhill ts ts"
  by (simp add: downhill_def)

lemma downhill_trans: "downhill ts ts' \<Longrightarrow> downhill ts' ts'' \<Longrightarrow> downhill ts ts''"
  unfolding downhill_def by (meson order_trans)

lemma downhill_gput:
  "gget ts x = Some t \<Longrightarrow> state_rank (t_State t') \<le> state_rank (t_State t) \<Longrightarrow> downhill ts (gput x t' ts)"
  by (simp add: downhill_def)

lemma downhill_mark_pending: "downhill ts (mark_pending deps xs ts)"
  unfolding downhill_def
proof (intro allI impI)
  fix x t assume "gget ts x = Some t"
  from mark_pending_change [OF this, of deps xs]
  show "\<exists>t'. gget (mark_pending deps xs ts) x = Some t' \<and> state_rank (t_State t') \<le> state_rank (t_State t)"
    by (elim exE conjE disjE) auto
qed

lemma downhill_skip_list: "downhill ts (skip_list ord cs ts)"
  unfolding downhill_def
proof (intro allI impI)
  fix x t assume "gget ts x = Some t"
  from skip_list_change [OF this, of ord cs]
  show "\<exists>t'. gget (skip_list ord cs ts) x = Some t' \<and> state_rank (t_State t') \<le> state_rank (t_State t)"
    by (elim exE conjE disjE) auto
qed

lemma downhill_release_children:
  assumes r: "release_children deps cs ts = (ts', newly)"
  shows "downhill ts ts'"
  unfolding downhill_def
proof (intro allI impI)
  fix x t assume "gget ts x = Some t"
  from release_children_change [OF r this]
  show "\<exists>t'. gget ts' x = Some t' \<and> state_rank (t_State t') \<le> state_rank (t_State t)"
    by (elim exE conjE disjE) auto
qed

lemma work_mono:
  assumes "gwf ts" "statics ts' = statics ts" "downhill ts ts'"
  shows "work ts' \<le> work ts"
proof -
  have k: "gkeys ts' = gkeys ts" using statics_gkeys [OF assms(2)] .
  have w: "gwf ts'" using assms(1) k by (simp add: gwf_def)
  show ?thesis
    unfolding work_set [OF assms(1)] work_set [OF w] k
  proof (rule sum_mono)
    fix x assume "x \<in> set (gkeys ts)"
    then obtain t where t: "gget ts x = Some t" by (auto simp: set_gkeys)
    moreover from assms(3) t obtain t' where "gget ts' x = Some t'"
      "state_rank (t_State t') \<le> state_rank (t_State t)" unfolding downhill_def by blast
    ultimately show "(case state_in ts' x of None \<Rightarrow> 0 | Some s \<Rightarrow> state_rank s)
        \<le> (case state_in ts x of None \<Rightarrow> 0 | Some s \<Rightarrow> state_rank s)"
      by (simp add: state_in_def)
  qed
qed

lemma work_gput:
  "gwf ts \<Longrightarrow> gget ts x = Some t \<Longrightarrow>
     work (gput x t' ts) + state_rank (t_State t) = work ts + state_rank (t_State t')"
  by (induction ts) (auto simp: work_def gput_def gget_def gwf_def gkeys_def split: if_splits)

lemma work_step:
  assumes "graph_step g e g'" "wf_graph g"
  shows "work (g_tasks g') + task_events [e] \<le> work (g_tasks g)"
  using assms
proof (induction rule: graph_step.induct)
  case (step_mark g ks ks' g' newly)
  then show ?case
    using work_mono [OF wf_tasks [OF step_mark(3)] statics_mark_pending downhill_mark_pending]
    by (auto simp: mark_ready_def Let_def task_events_def)
next
  case (step_move s now x g g')
  from step_move(2) show ?case
  proof (rule transition_task_nonterminal)
    fix t t'
    assume t: "gget (g_tasks g) x = Some t" "can_transition_to t s"
      "g' = g\<lparr> g_tasks := gput x t' (g_tasks g) \<rparr>" "t_State t' = s"
    from can_transition_rank [OF t(2)] work_gput [OF wf_tasks [OF step_move(3)] t(1), of t'] t(3,4)
    show ?thesis by (simp add: task_events_def)
  qed
next
  case (step_finish g ord ks x s now code msg g' newly)
  from step_finish(5) show ?case
  proof (rule complete_stages)
    fix t t1 ts ts'
    assume t: "gget (g_tasks g) x = Some t" "can_transition_to t s" "t_State t1 = s"
      "ts = gput x t1 (g_tasks g)"
      and ts': "ts' = (if s = TaskFailed \<or> s = TaskTimedOut then skip_list ord (ord x) ts else ts)"
      and r: "release_children (g_deps g) ks ts' = (g_tasks g', newly)"
    have w: "gwf ts" using wf_tasks [OF step_finish(6)] t(4) by simp
    have "statics ts' = statics ts" using ts' statics_skip_list by auto
    then have "statics (g_tasks g') = statics ts" using statics_release_children [OF r] by simp
    moreover have "downhill ts ts'" using ts' downhill_skip_list by auto
    then have "downhill ts (g_tasks g')" using downhill_release_children [OF r] downhill_trans by blast
    ultimately have "work (g_tasks g') \<le> work ts" by (rule work_mono [OF w])
    with can_transition_rank [OF t(2)] work_gput [OF wf_tasks [OF step_finish(6)] t(1), of t1] t(3,4)
    show ?thesis by (simp add: task_events_def)
  qed
next
  case (step_cancel g)
  have "downhill (g_tasks g) (g_tasks (cancel g))"
    by (auto simp: downhill_def gget_cancel cancel_task_def)
  then show ?case
    using work_mono [OF wf_tasks [OF step_cancel] statics_cancel] by (simp add: task_events_def)
qed

lemma work_run:
  "graph_run g0 es g \<Longrightarrow> wf_graph g0 \<Longrightarrow> work (g_tasks g) + task_events es \<le> work (g_tasks g0)"
proof (induction rule: graph_run.induct)
  case run_start
  then show ?case by (simp add: task_events_def)
next
  case (run_step es g e g')
  have "task_events (es @ [e]) = task_events es + task_events [e]" by (simp add: task_events_def)
  then show ?case
    using work_step [OF run_step(2) graph_run_wf [OF run_step(1,4)]] run_step.IH [OF run_step(4)] by simp
qed

lemma work_bound: "work ts \<le> 4 * length ts"
proof -
  have "state_rank s \<le> 4" for s by (cases s) auto
  then show ?thesis by (induction ts) (auto simp: work_def add_mono)
qed

section \<open>Liveness without special conditions\<close>

definition plain :: "(string, task) gomap \<Rightarrow> bool" where
  "plain ts \<longleftrightarrow> list_all (\<lambda>(x, t). \<not> should_run_after_failure t) ts"

definition bad_end :: "task_state \<Rightarrow> bool" where
  "bad_end s \<longleftrightarrow> s = TaskFailed \<or> s = TaskTimedOut \<or> s = TaskSkipped"

text \<open>Below a task that did not pass everything is final, except for the calls still on the stack
  of \<open>skipDownstream\<close>; and nothing is cancelled.\<close>

definition settled :: "graph \<Rightarrow> string list \<Rightarrow> (string, task) gomap \<Rightarrow> bool" where
  "settled g stack ts \<longleftrightarrow> (\<forall>x t. gget ts x = Some t \<longrightarrow> t_State t \<noteq> TaskCancelled
     \<and> (bad_end (t_State t) \<longrightarrow> (\<forall>c \<in> set (children g x). c \<in> set stack
          \<or> (\<exists>u. gget ts c = Some u \<and> is_terminal (t_State u)))))"

lemma plain_gget: "gwf ts \<Longrightarrow> plain ts \<Longrightarrow> gget ts x = Some t \<Longrightarrow> \<not> should_run_after_failure t"
  by (simp add: plain_def list_all_gomap)

lemma plain_statics:
  assumes "statics ts' = statics ts" "plain ts" "gwf ts"
  shows "plain ts'"
proof -
  have w: "gwf ts'" using assms(3) statics_gkeys [OF assms(1)] by (simp add: gwf_def)
  have "\<not> should_run_after_failure t'" if t': "gget ts' x = Some t'" for x t'
  proof -
    from statics_gget [OF assms(1) [symmetric] t'] obtain t where
      "gget ts x = Some t" "static_part t = static_part t'" by blast
    then show ?thesis using plain_gget [OF assms(3,2)] static_part_eqD(7) by metis
  qed
  then show ?thesis using w by (simp add: plain_def list_all_gomap)
qed

lemma settled_weaken:
  assumes s: "settled g st ts"
    and k: "\<And>d. d \<in> set st \<Longrightarrow> d \<in> set st' \<or> (\<exists>u. gget ts' d = Some u \<and> is_terminal (t_State u))"
    and f: "\<And>d u. gget ts d = Some u \<Longrightarrow> is_terminal (t_State u) \<Longrightarrow>
      \<exists>u'. gget ts' d = Some u' \<and> is_terminal (t_State u')"
    and n: "\<And>x t. gget ts' x = Some t \<Longrightarrow> bad_end (t_State t) \<or> t_State t = TaskCancelled \<Longrightarrow>
      gget ts x = Some t \<or> t_State t \<noteq> TaskCancelled \<and> set (children g x) \<subseteq> set st'"
  shows "settled g st' ts'"
  unfolding settled_def
proof (intro allI impI conjI ballI)
  fix x t assume t: "gget ts' x = Some t"
  show "t_State t \<noteq> TaskCancelled" using n [OF t] s by (auto simp: settled_def)
  fix c assume b: "bad_end (t_State t)" and c: "c \<in> set (children g x)"
  consider "gget ts x = Some t" | "c \<in> set st'" using n [OF t] b c by blast
  then show "c \<in> set st' \<or> (\<exists>u. gget ts' c = Some u \<and> is_terminal (t_State u))"
  proof cases
    case 1
    then have "c \<in> set st \<or> (\<exists>u. gget ts c = Some u \<and> is_terminal (t_State u))"
      using s b c unfolding settled_def by blast
    then show ?thesis using k f by blast
  qed simp
qed

lemma settled_skip_list:
  assumes wf: "wf_graph g" and ord: "child_order g ord"
  shows "settled g cs ts \<Longrightarrow> statics ts = statics (g_tasks g) \<Longrightarrow> plain ts \<Longrightarrow>
     set cs \<subseteq> set (gkeys ts) \<Longrightarrow> settled g [] (skip_list ord cs ts)"
using ord
proof (induction ord cs ts rule: skip_list.induct)
  case (1 ord ts)
  then show ?case by simp
next
  case (2 ord c cs ts)
  obtain child where c: "gget ts c = Some child" using 2(8) by (auto simp: set_gkeys)
  show ?case
  proof (cases "is_terminal (t_State child)")
    case True
    then have "settled g cs ts" using settled_weaken [OF 2(5)] c by auto
    then show ?thesis using 2(2) [OF c True] 2(5-8,9) c True by simp
  next
    case False
    let ?ts1 = "gput c (child\<lparr> t_State := TaskSkipped \<rparr>) ts"
    have w: "gwf ts" using wf_tasks [OF wf] statics_gkeys [OF 2(6)] by (simp add: gwf_def)
    have n: "\<not> should_run_after_failure child" using plain_gget [OF w 2(7) c] .
    have s: "statics ?ts1 = statics ts" using c by (simp add: statics_gput)
    have o: "set (ord c) = set (children g c)" using 2(9) by (simp add: child_order_def)
    have "settled g (ord c @ cs) ?ts1"
      by (rule settled_weaken [OF 2(5)]) (use c o in \<open>auto split: if_splits\<close>)
    moreover have "set (ord c @ cs) \<subseteq> set (gkeys ?ts1)"
      using o wf_child_task [OF wf, of _ c] statics_gkeys [OF 2(6)] 2(8) by (auto simp: in_gkeys_iff)
    ultimately have "settled g [] (skip_list ord (ord c @ cs) ?ts1)"
      using 2(4) [OF c False n] 2(9) s 2(6) plain_statics [OF s 2(7) w] by simp
    then show ?thesis using c False n by simp
  qed
qed

lemma settled_update:
  assumes "settled g cs ts" "finals_kept ts ts'"
    and "\<And>x t'. gget ts' x = Some t' \<Longrightarrow> bad_end (t_State t') \<or> t_State t' = TaskCancelled \<Longrightarrow>
      gget ts x = Some t'"
  shows "settled g cs ts'"
proof (rule settled_weaken [OF assms(1)])
  show "\<exists>u'. gget ts' d = Some u' \<and> is_terminal (t_State u')"
    if "gget ts d = Some u" "is_terminal (t_State u)" for d u
    using that assms(2) by (simp add: finals_kept_def)
  show "gget ts x = Some t \<or> t_State t \<noteq> TaskCancelled \<and> set (children g x) \<subseteq> set cs"
    if "gget ts' x = Some t" "bad_end (t_State t) \<or> t_State t = TaskCancelled" for x t
    using assms(3) [OF that] by simp
qed simp

lemma settled_mark_pending: "settled g cs ts \<Longrightarrow> settled g cs (mark_pending deps xs ts)"
proof (rule settled_update [OF _ finals_kept_mark_pending])
  fix x t'
  assume t': "gget (mark_pending deps xs ts) x = Some t'"
    "bad_end (t_State t') \<or> t_State t' = TaskCancelled"
  from statics_gget [OF statics_mark_pending [symmetric] t'(1)] obtain t where "gget ts x = Some t"
    by blast
  with mark_pending_change [OF this, of deps xs] t' show "gget ts x = Some t'"
    by (auto simp: bad_end_def)
qed

lemma settled_release_children:
  assumes r: "release_children deps cs ts = (ts', newly)" and p: "plain ts" "gwf ts"
    and s: "settled g [] ts"
  shows "settled g [] ts'"
proof (rule settled_update [OF s finals_kept_release_children [OF r]])
  fix x t'
  assume t': "gget ts' x = Some t'" "bad_end (t_State t') \<or> t_State t' = TaskCancelled"
  from statics_gget [OF statics_release_children [OF r, symmetric] t'(1)] obtain t where
    t: "gget ts x = Some t" by blast
  show "gget ts x = Some t'"
  proof (rule ccontr)
    assume "gget ts x \<noteq> Some t'"
    with t have "t' \<noteq> t" by auto
    from release_children_started [OF r t t'(1) this] obtain ts0 s0 where
      "release_decision deps ts0 x t = Some s0" "t' = t\<lparr> t_State := s0 \<rparr>" by blast
    with plain_gget [OF p(2,1) t] t'(2) show False
      by (auto simp: release_decision_def should_run_after_failure_def bad_end_def Let_def
          split: if_splits)
  qed
qed

fun live_event :: "graph_event \<Rightarrow> bool" where
  "live_event (EvFinish s x) \<longleftrightarrow> s = TaskPassed \<or> s = TaskFailed \<or> s = TaskTimedOut"
| "live_event EvCancel \<longleftrightarrow> False"
| "live_event _ \<longleftrightarrow> True"

lemma settled_complete:
  assumes wf: "wf_graph g" and ord: "child_order g ord"
    and s: "s = TaskPassed \<or> s = TaskFailed \<or> s = TaskTimedOut"
    and p: "plain (g_tasks g)" and h: "settled g [] (g_tasks g)"
    and c: "complete ord ks now x s code msg g = Inr (g', newly)"
  shows "settled g [] (g_tasks g')"
  using c
proof (rule complete_stages)
  fix t t1 ts ts'
  assume t: "gget (g_tasks g) x = Some t" "\<not> is_terminal (t_State t)" "t_State t1 = s"
      "static_part t1 = static_part t" "ts = gput x t1 (g_tasks g)"
    and ts': "ts' = (if s = TaskFailed \<or> s = TaskTimedOut then skip_list ord (ord x) ts else ts)"
    and r: "release_children (g_deps g) ks ts' = (g_tasks g', newly)"
  have st: "statics ts = statics (g_tasks g)" using t(1,4,5) by (simp add: statics_gput)
  have w: "gwf ts" using wf_tasks [OF wf] t(5) by simp
  have pl: "plain ts" using plain_statics [OF st p wf_tasks [OF wf]] .
  have o: "set (ord x) = set (children g x)" using ord by (simp add: child_order_def)
  have "settled g [] ts'"
  proof (cases "s = TaskPassed")
    case True
    have "settled g [] ts"
      using True t(3,5) by (intro settled_update [OF h]) (auto simp: finals_kept_gput [OF t(1,2)] bad_end_def
          split: if_splits)
    then show ?thesis using ts' True by simp
  next
    case False
    have "is_terminal s" using s by auto
    have "settled g (ord x) ts"
      by (rule settled_weaken [OF h])
        (use t o \<open>is_terminal s\<close> s in \<open>auto split: if_splits\<close>)
    moreover have "set (ord x) \<subseteq> set (gkeys ts)"
      using o wf_child_task [OF wf, of _ x] statics_gkeys [OF st] by (auto simp: in_gkeys_iff)
    ultimately have "settled g [] (skip_list ord (ord x) ts)"
      using settled_skip_list [OF wf ord _ st pl] by blast
    then show ?thesis using ts' False s by auto
  qed
  moreover have s': "statics ts' = statics ts" using ts' statics_skip_list by auto
  moreover have "gwf ts'" using w statics_gkeys [OF s'] by (simp add: gwf_def)
  ultimately show ?thesis
    using settled_release_children [OF r plain_statics [OF s' pl w]] by blast
qed

lemma settled_step:
  assumes "graph_step g e g'" "wf_graph g" "live_event e" "plain (g_tasks g)" "settled g [] (g_tasks g)"
  shows "settled g [] (g_tasks g')"
  using assms
proof (induction rule: graph_step.induct)
  case (step_mark g ks ks' g' newly)
  then show ?case by (auto simp: mark_ready_def Let_def settled_mark_pending)
next
  case (step_move s now x g g')
  from step_move(2) show ?case
  proof (rule transition_task_nonterminal)
    fix t t'
    assume t: "gget (g_tasks g) x = Some t" "\<not> is_terminal (t_State t)"
      "g' = g\<lparr> g_tasks := gput x t' (g_tasks g) \<rparr>" "t_State t' = s"
    have "settled g [] (gput x t' (g_tasks g))"
      by (rule settled_update [OF step_move(6) finals_kept_gput [OF t(1,2)]])
        (use step_move(1) t(4) in \<open>auto simp: bad_end_def split: if_splits\<close>)
    then show ?thesis using t(3) by simp
  qed
next
  case (step_finish g ord ks x s now code msg g' newly)
  then have "s = TaskPassed \<or> s = TaskFailed \<or> s = TaskTimedOut" by simp
  from settled_complete [OF step_finish(6,1) this step_finish(8,9,5)] show ?case .
next
  case (step_cancel g)
  then show ?case by simp
qed

lemma settled_frame: "g_edges g' = g_edges g \<Longrightarrow> settled g' st ts = settled g st ts"
  by (simp add: settled_def)

lemma settled_run:
  assumes "graph_run g0 es g" "list_all live_event es"
    and g0: "wf_graph g0" "all_pending g0" "plain (g_tasks g0)"
  shows "settled g [] (g_tasks g) \<and> plain (g_tasks g)"
  using assms(1,2)
proof (induction rule: graph_run.induct)
  case run_start
  then show ?case
    using g0 all_pending_state [OF wf_tasks [OF g0(1)] g0(2)] by (auto simp: settled_def bad_end_def)
next
  case (run_step es g e g')
  then have IH: "settled g [] (g_tasks g)" "plain (g_tasks g)" and e: "live_event e" by simp_all
  have wf: "wf_graph g" using graph_run_wf [OF run_step(1) g0(1)] .
  note F = graph_step_frame [OF run_step(2)]
  have "settled g [] (g_tasks g')" using settled_step [OF run_step(2) wf e IH(2,1)] .
  then show ?case
    using F settled_frame [of g' g] plain_statics [OF _ IH(2) wf_tasks [OF wf]] by simp
qed

lemma mark_pending_decides:
  "x \<in> set xs \<Longrightarrow> gget ts x = Some t \<Longrightarrow> t_State t = TaskPending \<Longrightarrow> all_deps_passed deps ts x \<Longrightarrow>
     gget (mark_pending deps xs ts) x = Some (t\<lparr> t_State := TaskReady \<rparr>)"
proof (induction deps xs ts rule: mark_pending.induct)
  case (1 deps ts)
  then show ?case by simp
next
  case (2 deps y ys ts)
  show ?case
  proof (cases "y = x")
    case True
    then have "gget (gput x (t\<lparr>t_State := TaskReady\<rparr>) ts) x = Some (t\<lparr>t_State := TaskReady\<rparr>)" by simp
    from mark_pending_change [OF this, of deps ys] True 2(5-7) show ?thesis
      by (auto simp: all_deps_complete_passed)
  next
    case False
    then have x: "x \<in> set ys" using 2(4) by auto
    show ?thesis
    proof (cases "gget ts y")
      case None
      then show ?thesis using 2(1) [OF None x] 2(5-7) by simp
    next
      case (Some u)
      show ?thesis
      proof (cases "t_State u = TaskPending \<and> all_deps_complete deps ts y")
        case True
        have "all_deps_passed deps (gput y (u\<lparr>t_State := TaskReady\<rparr>) ts) x"
          using all_deps_passed_mono [OF finals_kept_gput [OF Some] 2(7)] True by simp
        then show ?thesis using 2(2) [OF Some True x] 2(5,6) False Some True by simp
      next
        case F: False
        then show ?thesis using 2(3) [OF Some F x] 2(5-7) Some by auto
      qed
    qed
  qed
qed

lemma finite_dependency_rel: "wf_graph g \<Longrightarrow> finite (dependency_rel g)"
proof -
  assume wf: "wf_graph g"
  have "dependency_rel g \<subseteq> set (gkeys (g_tasks g)) \<times> set (gkeys (g_tasks g))"
    using wf_child_task [OF wf] wf_parent_task [OF wf] by (auto simp: dependency_rel_def in_gkeys_iff)
  then show ?thesis by (rule finite_subset) simp
qed

text \<open>
  When \<open>MarkReady\<close> finds nothing to do and no task is with a worker, every task is final: by
  induction along the dependencies, a pending task would have a parent that is not final.
\<close>

lemma idle_complete:
  assumes wf: "wf_graph g" and ac: "acyclic (dependency_rel g)"
    and st: "settled g [] (g_tasks g)"
    and ks: "range_order (g_tasks g) ks" "range_order (g_tasks g) ks'"
    and m: "mark_ready ks ks' g = (g', [])"
    and idle: "\<And>x t. gget (g_tasks g) x = Some t \<Longrightarrow>
      t_State t \<noteq> TaskScheduled \<and> t_State t \<noteq> TaskRunning"
  shows "is_complete g"
proof -
  let ?ts = "g_tasks g" and ?ts' = "mark_pending (g_deps g) ks (g_tasks g)"
  have noready: "state_in ?ts' x \<noteq> Some TaskReady" if "gget ?ts x \<noteq> None" for x
  proof -
    have "x \<in> set ks'" using ks(2) that by (simp add: range_order_set)
    moreover have "filter (\<lambda>x. state_in ?ts' x = Some TaskReady) ks' = []"
      using m by (simp add: mark_ready_def Let_def)
    ultimately show ?thesis by (simp add: filter_empty_conv)
  qed
  have same: "gget ?ts' x = Some t" if "gget ?ts x = Some t" for x t
    using mark_pending_change [OF that, of "g_deps g" ks] noready [of x] that
    by (auto simp: state_in_Some)
  have "is_terminal (t_State t)" if "gget ?ts x = Some t" for x t
    using that
  proof (induction x arbitrary: t rule: wf_induct_rule
      [OF finite_acyclic_wf [OF finite_dependency_rel [OF wf] ac]])
    case (1 x)
    show ?case
    proof (rule ccontr)
      assume n: "\<not> is_terminal (t_State t)"
      then have p: "t_State t = TaskPending"
        using idle [OF 1(2)] noready [of x] same [OF 1(2)] 1(2)
        by (cases "t_State t") (auto simp: state_in_def)
      have "all_deps_passed (g_deps g) ?ts x"
      proof -
        have "state_in ?ts q = Some TaskPassed" if q: "q \<in> set (parents g x)" for q
        proof -
          have c: "x \<in> set (children g q)" using q wf_child_iff [OF wf] by simp
          then obtain u where u: "gget ?ts q = Some u" using wf_parent_task [OF wf] by blast
          have "is_terminal (t_State u)" using 1(1) [OF _ u] c by (simp add: dependency_rel_def)
          moreover have "\<not> bad_end (t_State u)" "t_State u \<noteq> TaskCancelled"
            using st u c n 1(2) by (fastforce simp: settled_def)+
          ultimately show ?thesis using u by (auto simp: is_terminal_iff bad_end_def state_in_def)
        qed
        then show ?thesis by (simp add: all_deps_passed_def list_all_iff)
      qed
      moreover have "x \<in> set ks" using ks(1) 1(2) by (simp add: range_order_set)
      ultimately have "gget ?ts' x = Some (t\<lparr> t_State := TaskReady \<rparr>)"
        using mark_pending_decides 1(2) p by blast
      then show False using noready [of x] 1(2) by (auto simp: state_in_def)
    qed
  qed
  then show ?thesis by (simp add: is_complete_def list_all_gomap [OF wf_tasks [OF wf]])
qed

section \<open>What a failure does to the tasks below it\<close>

lemma failure_skips_child:
  assumes wf: "wf_graph g" and ok: "starts_ok (g_deps g) (g_tasks g)" and pl: "plain (g_tasks g)"
    and st: "settled g [] (g_tasks g)"
    and x: "gget (g_tasks g) x = Some t" "bad_end (t_State t)" and c: "c \<in> set (children g x)"
  shows "state_in (g_tasks g) c = Some TaskSkipped"
proof -
  obtain u where u: "gget (g_tasks g) c = Some u" "is_terminal (t_State u)" "t_State u \<noteq> TaskCancelled"
    using st x c unfolding settled_def by fastforce
  have n: "\<not> should_run_after_failure u" using plain_gget [OF wf_tasks [OF wf] pl u(1)] .
  have "\<not> started (t_State u)"
  proof
    assume "started (t_State u)"
    then have "all_deps_passed (g_deps g) (g_tasks g) c"
      using starts_okD [OF ok u(1)] n by (auto simp: may_start_def should_run_after_failure_def)
    moreover have "x \<in> set (parents g c)" using c wf_child_iff [OF wf] by simp
    ultimately have "state_in (g_tasks g) x = Some TaskPassed"
      by (simp add: all_deps_passed_def list_all_iff)
    then show False using x by (auto simp: state_in_Some bad_end_def)
  qed
  then have "t_State u = TaskSkipped" using u by (auto simp: started_def)
  then show ?thesis using u(1) by (simp add: state_in_Some)
qed

lemma failure_skips_below:
  assumes wf: "wf_graph g" and ok: "starts_ok (g_deps g) (g_tasks g)" and pl: "plain (g_tasks g)"
    and st: "settled g [] (g_tasks g)"
    and xy: "(x, y) \<in> (dependency_rel g)\<^sup>+"
    and x: "gget (g_tasks g) x = Some t" "bad_end (t_State t)"
  shows "state_in (g_tasks g) y = Some TaskSkipped"
  using xy
proof (induction rule: trancl_induct)
  case (base y)
  then show ?case
    using failure_skips_child [OF wf ok pl st x] by (simp add: dependency_rel_def)
next
  case (step y z)
  then obtain u where "gget (g_tasks g) y = Some u" "bad_end (t_State u)"
    by (auto simp: state_in_Some bad_end_def)
  with step(2) show ?case
    using failure_skips_child [OF wf ok pl st] by (simp add: dependency_rel_def)
qed

section \<open>The list that Complete returns\<close>

lemma release_children_other:
  "release_children deps cs ts = (ts', newly) \<Longrightarrow> x \<notin> set cs \<Longrightarrow> gget ts' x = gget ts x"
proof (induction cs arbitrary: ts newly)
  case (Cons c cs)
  then show ?case
    by (cases "release_target deps ts c") (auto simp: release_children_Cons split: prod.splits)
qed simp

lemma release_children_newly:
  "release_children deps cs ts = (ts', newly) \<Longrightarrow> distinct cs \<Longrightarrow>
     newly = filter (\<lambda>c. state_in ts c = Some TaskPending \<and> state_in ts' c = Some TaskReady) cs"
proof (induction cs arbitrary: ts newly)
  case Nil
  then show ?case by simp
next
  case (Cons c cs)
  show ?case
  proof (cases "release_target deps ts c")
    case None
    then have r: "release_children deps cs ts = (ts', newly)"
      using Cons.prems(1) by (simp add: release_children_Cons)
    have "\<not> (state_in ts c = Some TaskPending \<and> state_in ts' c = Some TaskReady)"
    proof
      assume a: "state_in ts c = Some TaskPending \<and> state_in ts' c = Some TaskReady"
      moreover have "gget ts' c = gget ts c"
        using release_children_other [OF r] Cons.prems(2) by simp
      ultimately show False by (auto simp: state_in_def)
    qed
    then show ?thesis using Cons.IH [OF r] Cons.prems(2) by simp
  next
    case (Some p)
    obtain u s where p: "p = (u, s)" by (cases p)
    note R = release_targetD [OF Some [unfolded p]]
    let ?ts1 = "gput c (u\<lparr> t_State := s \<rparr>) ts"
    from Cons.prems(1) Some p obtain n' where r: "release_children deps cs ?ts1 = (ts', n')"
      and n: "newly = (if s = TaskReady then c # n' else n')"
      by (auto simp: release_children_Cons split: prod.splits)
    have "gget ts' c = Some (u\<lparr> t_State := s \<rparr>)"
      using release_children_other [OF r] Cons.prems(2) by simp
    then have c: "state_in ts c = Some TaskPending" "state_in ts' c = Some s"
      using R by (simp_all add: state_in_def)
    have "n' = filter (\<lambda>c. state_in ?ts1 c = Some TaskPending \<and> state_in ts' c = Some TaskReady) cs"
      using Cons.IH [OF r] Cons.prems(2) by simp
    also have "\<dots> = filter (\<lambda>c. state_in ts c = Some TaskPending \<and> state_in ts' c = Some TaskReady) cs"
      using Cons.prems(2) by (intro filter_cong) (auto simp: state_in_def)
    finally show ?thesis using n c by simp
  qed
qed

end
