(* ===== verification/Graph_Properties.thy ===== *)
theory Graph_Properties
  imports Graph_Live
begin

text \<open>
  The properties of the task graph, with the small graphs their witnesses and counterexamples run
  on.
\<close>

section \<open>Small graphs\<close>

definition small_task :: "string \<Rightarrow> string \<Rightarrow> task" where
  "small_task name cond = zero_task\<lparr> t_ID := name, t_Name := name, t_Condition := cond \<rparr>"

text \<open>Adding tasks and then edges, the way \<open>BuildDAG\<close> does; \<open>None\<close> when a call fails.\<close>

fun add_tasks :: "task list \<Rightarrow> graph \<Rightarrow> graph option" where
  "add_tasks [] g = Some g"
| "add_tasks (t # ts) g = (case add_task t g of Inl _ \<Rightarrow> None | Inr g' \<Rightarrow> add_tasks ts g')"

fun add_edges :: "(string \<times> string) list \<Rightarrow> graph \<Rightarrow> graph option" where
  "add_edges [] g = Some g"
| "add_edges ((p, c) # es) g = (case add_edge p c g of Inl _ \<Rightarrow> None | Inr g' \<Rightarrow> add_edges es g')"

definition small_graph :: "(string \<times> string) list \<Rightarrow> (string \<times> string) list \<Rightarrow> graph" where
  "small_graph ts es =
     the (Option.bind (add_tasks (map (\<lambda>(x, c). small_task x c) ts) new_graph) (add_edges es))"

definition chain_graph :: graph where
  "chain_graph = small_graph [(''a'', []), (''b'', []), (''c'', [])] [(''a'', ''b''), (''b'', ''c'')]"

definition cyclic_graph :: graph where
  "cyclic_graph = small_graph [(''a'', []), (''b'', [])] [(''a'', ''b''), (''b'', ''a'')]"

lemma add_tasks_wf: "add_tasks ts g = Some g' \<Longrightarrow> wf_graph g \<Longrightarrow> wf_graph g'"
  by (induction ts arbitrary: g) (auto split: sum.splits dest: wf_add_task)

lemma add_edges_wf: "add_edges es g = Some g' \<Longrightarrow> wf_graph g \<Longrightarrow> wf_graph g'"
  by (induction es g rule: add_edges.induct) (auto split: sum.splits dest: wf_add_edge)

text \<open>Graphs a worker's reports have moved along.\<close>

definition after :: "dag_error + (graph \<times> string list) \<Rightarrow> graph" where
  "after r = (case r of Inl _ \<Rightarrow> new_graph | Inr (g, _) \<Rightarrow> g)"

definition moved :: "dag_error + graph \<Rightarrow> graph" where
  "moved r = (case r of Inl _ \<Rightarrow> new_graph | Inr g \<Rightarrow> g)"

definition marked :: "graph \<Rightarrow> graph" where
  "marked g = fst (mark_ready (gkeys (g_tasks g)) (gkeys (g_tasks g)) g)"

definition work_off :: "string \<Rightarrow> task_state \<Rightarrow> graph \<Rightarrow> graph" where
  "work_off x s g = after (complete (children g) (children g x) 1 x s 0 []
     (moved (transition_task 1 TaskRunning x (moved (transition_task 1 TaskScheduled x g)))))"

section \<open>Properties of validation\<close>

text \<open>C3. \<open>Validate\<close> accepts a graph exactly when its dependency relation has no cycle, whatever
  order the maps are ranged over, and the order it stores is a topological order of all the tasks
  (every task once, after all its parents); nothing else of the graph changes.\<close>

theorem validate_iff_acyclic:
  assumes "wf_graph g" "child_order g ord" "range_order (g_tasks g) ks" "range_order (g_tasks g) ks'"
  shows "((\<exists>g'. validate ks ks' ord g = Inr g') \<longleftrightarrow> acyclic (dependency_rel g))
    \<and> (\<forall>g'. validate ks ks' ord g = Inr g' \<longrightarrow>
         topological g (g_order g') \<and> g' = g\<lparr> g_order := g_order g' \<rparr>)"
  using assms acyclic_validates validate_topological topological_acyclic by meson

lemma chain_graph_wf: "wf_graph chain_graph" by code_simp
lemma cyclic_graph_wf: "wf_graph cyclic_graph" by code_simp

theorem validate_iff_acyclic_witness:
  "acyclic (dependency_rel chain_graph) \<and> \<not> acyclic (dependency_rel cyclic_graph)"
proof -
  have o: "range_order (g_tasks chain_graph) [''a'', ''b'', ''c'']"
    "range_order (g_tasks cyclic_graph) [''a'', ''b'']" by code_simp+
  have "\<exists>g'. validate [''a'', ''b'', ''c''] [''a'', ''b'', ''c''] (children chain_graph) chain_graph
      = Inr g'" by (rule exI [of _ "chain_graph\<lparr> g_order := [''a'', ''b'', ''c''] \<rparr>"]) code_simp
  moreover have "validate [''a'', ''b''] [''a'', ''b''] (children cyclic_graph) cyclic_graph
      = Inl (CycleDetected [''a'', ''b''])" by code_simp
  ultimately show ?thesis
    using validate_iff_acyclic [OF chain_graph_wf child_order_children [OF chain_graph_wf] o(1) o(1)]
      validate_iff_acyclic [OF cyclic_graph_wf child_order_children [OF cyclic_graph_wf] o(2) o(2)]
    by simp
qed

section \<open>Properties of runs\<close>

definition chain_validated :: graph where
  "chain_validated = chain_graph\<lparr> g_order := [''a'', ''b'', ''c''] \<rparr>"

lemma chain_validated_wf: "wf_graph chain_validated" by code_simp

lemma run_of_chain:
  "graph_run chain_validated [EvMarkReady] (marked chain_validated)"
  "graph_run chain_validated [EvMarkReady, EvMove TaskScheduled ''a'', EvMove TaskRunning ''a'',
     EvFinish TaskFailed ''a''] (work_off ''a'' TaskFailed (marked chain_validated))"
proof -
  let ?ks = "[''a'', ''b'', ''c'']"
  let ?g1 = "marked chain_validated"
  let ?g2 = "moved (transition_task 1 TaskScheduled ''a'' ?g1)"
  let ?g3 = "moved (transition_task 1 TaskRunning ''a'' ?g2)"
  have m: "mark_ready ?ks ?ks chain_validated = (?g1, [''a''])" by code_simp
  have r: "range_order (g_tasks chain_validated) ?ks" by code_simp
  have s1: "graph_run chain_validated ([] @ [EvMarkReady]) ?g1"
    by (rule run_step [OF run_start step_mark [OF r m]])
  then show "graph_run chain_validated [EvMarkReady] ?g1" by simp
  have t: "transition_task 1 TaskScheduled ''a'' ?g1 = Inr ?g2"
    "transition_task 1 TaskRunning ''a'' ?g2 = Inr ?g3" by code_simp+
  have s2: "graph_run chain_validated (([] @ [EvMarkReady]) @ [EvMove TaskScheduled ''a'']) ?g2"
    by (rule run_step [OF s1 step_move [OF _ t(1)]]) simp
  have s3: "graph_run chain_validated ((([] @ [EvMarkReady]) @ [EvMove TaskScheduled ''a''])
      @ [EvMove TaskRunning ''a'']) ?g3"
    by (rule run_step [OF s2 step_move [OF _ t(2)]]) simp
  have c: "complete (children ?g1) (children ?g1 ''a'') 1 ''a'' TaskFailed 0 [] ?g3
      = Inr (work_off ''a'' TaskFailed ?g1, [])" by code_simp
  have "g_edges ?g1 = g_edges ?g3" by code_simp
  then have e: "children ?g1 = children ?g3" by simp
  have "wf_graph ?g3" using graph_run_wf [OF s3 chain_validated_wf] .
  then have o: "child_order ?g3 (children ?g1)" "distinct (children ?g1 ''a'')"
    unfolding e by (rule child_order_children, rule wf_distinct_children)
  have "graph_run chain_validated (((([] @ [EvMarkReady]) @ [EvMove TaskScheduled ''a''])
      @ [EvMove TaskRunning ''a'']) @ [EvFinish TaskFailed ''a'']) (work_off ''a'' TaskFailed ?g1)"
    by (rule run_step [OF s3 step_finish [OF o(1,2) _ _ c]]) (simp_all add: e)
  then show "graph_run chain_validated [EvMarkReady, EvMove TaskScheduled ''a'', EvMove TaskRunning ''a'',
     EvFinish TaskFailed ''a''] (work_off ''a'' TaskFailed ?g1)" by simp
qed

lemma chain_validated_start: "all_pending chain_validated" "plain (g_tasks chain_validated)"
  by code_simp+

text \<open>Safety of execution: in every state reached from a built graph by \<open>MarkReady\<close>, the
  scheduler's transitions, \<open>Complete\<close> and \<open>Cancel\<close>, in any order, a task that is ready, scheduled,
  running, passed, failed or timed out has only parents in a final state; with the default
  condition all of them passed, and an \<open>on_failure\<close> task with parents has a parent that failed or
  timed out.\<close>

theorem run_starts_safe:
  assumes "wf_graph g0" "all_pending g0" "graph_run g0 es g"
    and "gget (g_tasks g) x = Some t" "started (t_State t)"
  shows "all_deps_terminal (g_deps g) (g_tasks g) x
    \<and> (\<not> should_run_after_failure t \<longrightarrow> all_deps_passed (g_deps g) (g_tasks g) x)
    \<and> (t_Condition t = ''on_failure'' \<and> parents g x \<noteq> [] \<longrightarrow>
         any_dep_failed (g_deps g) (g_tasks g) x)"
  using starts_okD [OF conjunct1 [OF graph_run_starts_ok [OF assms(3,1,2)]] assms(4,5)]
  by (auto simp: may_start_def should_run_after_failure_def split: if_splits)

theorem run_starts_safe_witness:
  "all_deps_terminal (g_deps (marked chain_validated)) (g_tasks (marked chain_validated)) ''a''"
proof (rule conjunct1 [OF run_starts_safe
      [OF chain_validated_wf chain_validated_start(1) run_of_chain(1)]])
  show "gget (g_tasks (marked chain_validated)) ''a''
      = Some ((small_task ''a'' [])\<lparr> t_State := TaskReady \<rparr>)"
    by code_simp
  show "started (t_State ((small_task ''a'' [])\<lparr> t_State := TaskReady \<rparr>))" by code_simp
qed

text \<open>C4. Liveness: in a graph that \<open>Validate\<close> accepted and whose tasks all have the default
  condition, however the reports arrive, as long as every report is a pass, a failure or a
  time-out: when \<open>MarkReady\<close> returns no task and no task is scheduled or running, the build is
  complete. Such a build never waits for nothing.\<close>

theorem idle_build_is_complete:
  assumes "wf_graph g1" "child_order g1 ord" "range_order (g_tasks g1) vs"
    "validate vs vs' ord g1 = Inr g0" "all_pending g0" "plain (g_tasks g0)"
    and "graph_run g0 es g" "list_all live_event es"
    and "range_order (g_tasks g) ks" "range_order (g_tasks g) ks'" "mark_ready ks ks' g = (g', [])"
    and "\<And>x t. gget (g_tasks g) x = Some t \<Longrightarrow>
      t_State t \<noteq> TaskScheduled \<and> t_State t \<noteq> TaskRunning"
  shows "is_complete g"
proof -
  have v: "topological g1 (g_order g0)" "g0 = g1\<lparr> g_order := g_order g0 \<rparr>"
    using validate_topological [OF assms(1-4)] by auto
  have wf0: "wf_graph g0" by (subst v(2)) (simp add: assms(1))
  have "dependency_rel g = dependency_rel g0"
    using graph_run_frame [OF assms(7)] by (simp add: dependency_rel_def)
  also have "\<dots> = dependency_rel g1" by (subst v(2)) (simp add: dependency_rel_def)
  finally have "acyclic (dependency_rel g)" using topological_acyclic [OF assms(1) v(1)] by simp
  then show ?thesis
    using idle_complete [OF graph_run_wf [OF assms(7) wf0] _
        conjunct1 [OF settled_run [OF assms(7,8) wf0 assms(5,6)]] assms(9-11)] assms(12) by blast
qed

theorem idle_build_is_complete_witness:
  "is_complete (work_off ''a'' TaskFailed (marked chain_validated))"
proof -
  let ?g = "work_off ''a'' TaskFailed (marked chain_validated)" and ?ks = "[''a'', ''b'', ''c'']"
  have r: "range_order (g_tasks chain_graph) ?ks" "range_order (g_tasks ?g) ?ks" by code_simp+
  have v: "validate ?ks ?ks (children chain_graph) chain_graph = Inr chain_validated" by code_simp
  have m: "mark_ready ?ks ?ks ?g = (?g, [])" by code_simp
  have l: "list_all live_event [EvMarkReady, EvMove TaskScheduled ''a'', EvMove TaskRunning ''a'',
     EvFinish TaskFailed ''a'']" by code_simp
  have w: "gwf (g_tasks ?g)" by code_simp
  have "list_all (\<lambda>(x, t). t_State t \<noteq> TaskScheduled \<and> t_State t \<noteq> TaskRunning) (g_tasks ?g)"
    by code_simp
  then show ?thesis
    by (intro idle_build_is_complete [OF chain_graph_wf child_order_children [OF chain_graph_wf]
          r(1) v chain_validated_start run_of_chain(2) l r(2) r(2) m])
      (simp add: list_all_gomap [OF w])
qed

text \<open>C7. Termination: whatever the workers report and however often \<open>MarkReady\<close> and \<open>Cancel\<close> are
  called, a build of \<open>n\<close> tasks goes through at most \<open>4 * n\<close> scheduling events (transitions and
  completions), since each moves one task strictly forward and nothing moves a task back.\<close>

theorem run_events_bounded:
  assumes "wf_graph g0" "graph_run g0 es g"
  shows "task_events es \<le> 4 * graph_size g0"
  using work_run [OF assms(2,1)] work_bound [of "g_tasks g0"] by (simp add: graph_size_def)

theorem run_events_bounded_witness: "(3::nat) \<le> 4 * graph_size chain_validated"
  using run_events_bounded [OF chain_validated_wf run_of_chain(2)] by (simp add: task_events_def)

text \<open>A final state is final: once a task has passed, failed, been skipped, been cancelled or
  timed out, no later event of the run changes the task record in any field, and the
  representation invariant of the graph is kept.\<close>

theorem run_keeps_finals:
  assumes "wf_graph g0" "graph_run g0 es g" "gget (g_tasks g0) x = Some t" "is_terminal (t_State t)"
  shows "gget (g_tasks g) x = Some t \<and> wf_graph g"
  using graph_run_finals_kept [OF assms(2)] graph_run_wf [OF assms(2,1)] assms(3,4)
  by (simp add: finals_kept_def)

theorem run_keeps_finals_witness:
  "gget (g_tasks (cancel (cancel chain_graph))) ''a''
     = Some ((small_task ''a'' [])\<lparr> t_State := TaskCancelled \<rparr>)"
proof -
  have "graph_run (cancel chain_graph) ([] @ [EvCancel]) (cancel (cancel chain_graph))"
    by (rule run_step [OF run_start step_cancel])
  from run_keeps_finals [OF wf_cancel [OF chain_graph_wf] this,
      of "''a''" "(small_task ''a'' [])\<lparr> t_State := TaskCancelled \<rparr>"]
  show ?thesis by (simp add: cancel_task_def) code_simp
qed



text \<open>The explicit stack of \<open>skip_downstream\<close> computes the recursion of \<open>skipDownstream\<close>: one
  round per child, in the order the children are visited; a missing child, one in a final state and
  one with \<open>always\<close> or \<open>on_failure\<close> is left alone together with what is below it, any other is
  skipped and the function called on it.\<close>

theorem skip_downstream_recursion:
  "skip_downstream ord x ts =
     foldl (\<lambda>ts c. case gget ts c of
         None \<Rightarrow> ts
       | Some child \<Rightarrow>
           if is_terminal (t_State child) \<or> should_run_after_failure child then ts
           else skip_downstream ord c (gput c (child\<lparr> t_State := TaskSkipped \<rparr>) ts)) ts (ord x)"
proof -
  have "skip_list ord cs ts = foldl (\<lambda>ts c. case gget ts c of
         None \<Rightarrow> ts
       | Some child \<Rightarrow>
           if is_terminal (t_State child) \<or> should_run_after_failure child then ts
           else skip_downstream ord c (gput c (child\<lparr> t_State := TaskSkipped \<rparr>) ts)) ts cs" for cs ts
    by (induction cs arbitrary: ts)
      (auto simp: skip_list_recursive simp del: skip_list.simps(2) split: option.split)
  then show ?thesis by (simp add: skip_downstream_def)
qed

section \<open>Properties of completion\<close>

lemma complete_task:
  assumes c: "complete ord ks now x s code msg g = Inr (g', newly)" and fin: "is_terminal s"
  shows "\<exists>t. gget (g_tasks g) x = Some t \<and> can_transition_to t s \<and> gget (g_tasks g') x
    = Some (t\<lparr> t_State := s, t_ExitCode := code, t_ErrorMessage := msg, t_FinishedAt := now \<rparr>)"
proof -
  from c obtain t t0 where t: "gget (g_tasks g) x = Some t" "transition_to now s t = Inr t0"
    and r: "release_children (g_deps g) ks
        (if s = TaskFailed \<or> s = TaskTimedOut
         then skip_downstream ord x (gput x (t0\<lparr> t_ExitCode := code, t_ErrorMessage := msg \<rparr>) (g_tasks g))
         else gput x (t0\<lparr> t_ExitCode := code, t_ErrorMessage := msg \<rparr>) (g_tasks g))
        = (g_tasks g', newly)"
    by (auto simp: complete_def Let_def split: option.splits sum.splits prod.splits)
  let ?t1 = "t0\<lparr> t_ExitCode := code, t_ErrorMessage := msg \<rparr>"
  have t1: "?t1 = t\<lparr> t_State := s, t_ExitCode := code, t_ErrorMessage := msg, t_FinishedAt := now \<rparr>"
    and ct: "can_transition_to t s"
    using t(2) fin by (auto simp: transition_to_Inr_iff)
  have "finals_kept (gput x ?t1 (g_tasks g)) (g_tasks g')"
    using finals_kept_release_children [OF r]
    by (auto simp: skip_downstream_def intro: finals_kept_trans [OF finals_kept_skip_list]
        split: if_splits)
  then have "gget (g_tasks g') x = Some ?t1" unfolding t1 using fin by (simp add: finals_kept_def)
  then show ?thesis using t(1) ct unfolding t1 by blast
qed

lemma complete_newly:
  assumes wf: "wf_graph g" and ks: "distinct ks" "set ks = set (children g x)"
    and c: "complete ord ks now x s code msg g = Inr (g', newly)"
  shows "newly = filter (\<lambda>c. state_in (g_tasks g) c = Some TaskPending
      \<and> state_in (g_tasks g') c = Some TaskReady) ks"
  using c
proof (rule complete_stages)
  fix t t1 ts ts'
  assume ts: "ts = gput x t1 (g_tasks g)"
    and ts': "ts' = (if s = TaskFailed \<or> s = TaskTimedOut then skip_list ord (ord x) ts else ts)"
    and r: "release_children (g_deps g) ks ts' = (g_tasks g', newly)"
  have "state_in ts' d = Some TaskPending \<longleftrightarrow> state_in (g_tasks g) d = Some TaskPending"
    if d: "d \<in> set ks" "state_in (g_tasks g') d = Some TaskReady" for d
  proof -
    have "d \<noteq> x" using wf_child_neq [OF wf] d(1) ks(2) by blast
    then have g: "gget ts d = gget (g_tasks g) d" using ts by simp
    obtain t where t: "gget ts d = Some t"
      using g wf_child_task [OF wf] d(1) ks(2) by (metis option.exhaust)
    have "finals_kept ts' (g_tasks g')" using finals_kept_release_children [OF r] .
    then have "state_in ts' d \<noteq> Some TaskSkipped" using d(2) finals_kept_state by fastforce
    then have "gget ts' d = Some t"
      using skip_list_change [OF t, of ord "ord x"] t by (auto simp: ts' state_in_def split: if_splits)
    then show ?thesis using t g by (simp add: state_in_def)
  qed
  then show ?thesis
    unfolding release_children_newly [OF r ks(1)] by (intro filter_cong) auto
qed

text \<open>\<open>Complete\<close> with a final state, on both branches. It fails exactly when the task does not
  exist or its state does not allow the transition, with the error that says so; otherwise the task
  gets the state, exit code, message and finishing time and keeps every other field, no task's
  configuration or edge changes, and the returned list holds exactly the children that went from
  pending to ready, in the order they were visited.\<close>

theorem complete_outcome:
  assumes "wf_graph g" "distinct ks" "set ks = set (children g x)" "is_terminal s"
  shows "(\<forall>e. complete ord ks now x s code msg g = Inl e \<longleftrightarrow>
        gget (g_tasks g) x = None \<and> e = DagTaskNotFound x
        \<or> (\<exists>t. gget (g_tasks g) x = Some t \<and> \<not> can_transition_to t s
             \<and> e = InvalidTransition (t_State t) s (t_Name t)))
    \<and> (\<forall>g' newly. complete ord ks now x s code msg g = Inr (g', newly) \<longrightarrow>
        (\<exists>t. gget (g_tasks g) x = Some t \<and> can_transition_to t s \<and> gget (g_tasks g') x
           = Some (t\<lparr> t_State := s, t_ExitCode := code, t_ErrorMessage := msg, t_FinishedAt := now \<rparr>))
        \<and> statics (g_tasks g') = statics (g_tasks g) \<and> g_edges g' = g_edges g \<and> g_deps g' = g_deps g
        \<and> newly = filter (\<lambda>c. state_in (g_tasks g) c = Some TaskPending
             \<and> state_in (g_tasks g') c = Some TaskReady) ks)"
proof (intro conjI allI impI iffI)
  fix e assume "complete ord ks now x s code msg g = Inl e"
  then show "gget (g_tasks g) x = None \<and> e = DagTaskNotFound x
      \<or> (\<exists>t. gget (g_tasks g) x = Some t \<and> \<not> can_transition_to t s
           \<and> e = InvalidTransition (t_State t) s (t_Name t))"
    by (auto simp: complete_def Let_def transition_to_Inl_iff split: option.splits sum.splits prod.splits)
next
  fix e
  assume "gget (g_tasks g) x = None \<and> e = DagTaskNotFound x
      \<or> (\<exists>t. gget (g_tasks g) x = Some t \<and> \<not> can_transition_to t s
           \<and> e = InvalidTransition (t_State t) s (t_Name t))"
  then show "complete ord ks now x s code msg g = Inl e"
    by (auto simp: complete_def transition_to_def)
next
  fix g' newly assume c: "complete ord ks now x s code msg g = Inr (g', newly)"
  show "\<exists>t. gget (g_tasks g) x = Some t \<and> can_transition_to t s \<and> gget (g_tasks g') x
      = Some (t\<lparr> t_State := s, t_ExitCode := code, t_ErrorMessage := msg, t_FinishedAt := now \<rparr>)"
    by (rule complete_task [OF c assms(4)])
  show "statics (g_tasks g') = statics (g_tasks g)" "g_edges g' = g_edges g" "g_deps g' = g_deps g"
    using statics_complete [OF c] by simp_all
  show "newly = filter (\<lambda>c. state_in (g_tasks g) c = Some TaskPending
      \<and> state_in (g_tasks g') c = Some TaskReady) ks"
    by (rule complete_newly [OF assms(1-3) c])
qed

theorem complete_outcome_witness:
  "complete (children chain_graph) [''b''] 7 ''a'' TaskPassed 0 [] chain_graph
     = Inl (InvalidTransition TaskPending TaskPassed ''a'')"
proof -
  have k: "distinct [''b'']" "set [''b''] = set (children chain_graph ''a'')" by code_simp+
  have "gget (g_tasks chain_graph) ''a'' = Some (small_task ''a'' [])" by code_simp
  moreover have "\<not> can_transition_to (small_task ''a'' []) TaskPassed"
    "t_State (small_task ''a'' []) = TaskPending" "t_Name (small_task ''a'' []) = ''a''" by code_simp+
  ultimately show ?thesis
    using complete_outcome [OF chain_graph_wf k, of TaskPassed] by simp
qed

section \<open>Special conditions\<close>

text \<open>A build that contains an \<open>on_failure\<close> task with a dependency is never reported as passed:
  such a task starts only after one of its parents failed, and is skipped otherwise, and
  \<open>IsPassed\<close> asks every task to have passed.\<close>

theorem cleanup_never_green:
  assumes "wf_graph g0" "all_pending g0" "graph_run g0 es g"
    and "gget (g_tasks g) x = Some t" "t_Condition t = ''on_failure''" "parents g x \<noteq> []"
  shows "\<not> is_passed g"
proof
  assume "is_passed g"
  have w: "gwf (g_tasks g)" using wf_tasks [OF graph_run_wf [OF assms(3,1)]] .
  have p: "t_State u = TaskPassed" if "gget (g_tasks g) y = Some u" for y u
    using \<open>is_passed g\<close> that by (simp add: is_passed_def list_all_gomap [OF w])
  then have "started (t_State t)" using assms(4) by (simp add: started_def)
  then have "any_dep_failed (g_deps g) (g_tasks g) x"
    using starts_okD [OF conjunct1 [OF graph_run_starts_ok [OF assms(3,1,2)]] assms(4)] assms(5,6)
    by (simp add: may_start_def)
  then show False using p by (auto simp: any_dep_failed_def list_ex_iff state_in_Some)
qed

definition cleanup_graph :: graph where
  "cleanup_graph = small_graph [(''a'', []), (''b'', ''on_failure''), (''c'', [])]
     [(''a'', ''b''), (''b'', ''c'')]"

theorem cleanup_never_green_witness: "\<not> is_passed (marked cleanup_graph)"
proof -
  have w: "wf_graph cleanup_graph" "all_pending cleanup_graph" by code_simp+
  let ?ks = "[''a'', ''b'', ''c'']"
  have m: "mark_ready ?ks ?ks cleanup_graph = (marked cleanup_graph, [''a''])" by code_simp
  have r: "range_order (g_tasks cleanup_graph) ?ks" by code_simp
  have s: "graph_run cleanup_graph ([] @ [EvMarkReady]) (marked cleanup_graph)"
    by (rule run_step [OF run_start step_mark [OF r m]])
  show ?thesis
    by (rule cleanup_never_green [OF w s, of "''b''" "small_task ''b'' ''on_failure''"]) code_simp+
qed

text \<open>A build that waits with nothing to wait for.\<close>

definition stuck :: "graph \<Rightarrow> bool" where
  "stuck g \<longleftrightarrow> \<not> is_complete g \<and> marked g = g
     \<and> list_all (\<lambda>(x, t). t_State t = TaskPending \<or> is_terminal (t_State t)) (g_tasks g)"

definition always_graph :: graph where
  "always_graph = small_graph [(''a'', []), (''b'', []), (''c'', ''always'')]
     [(''a'', ''b''), (''b'', ''c'')]"

text \<open>Conditions below a skipped task stick. An \<open>always\<close> task two levels below a failure is never
  run: when \<open>a\<close> fails, \<open>b\<close> is skipped, \<open>skipDownstream\<close> stops at the \<open>always\<close> task \<open>c\<close>, and the loop of
  \<open>Complete\<close> looks at the children of \<open>a\<close> only; all dependencies of \<open>c\<close> are final, yet it stays
  pending with nothing left to trigger it, and the build never completes.  The same happens in the
  green case to a task \<open>c\<close> below an \<open>on_failure\<close> task \<open>b\<close>: when \<open>a\<close> passes, the loop of \<open>Complete\<close>
  skips \<open>b\<close> but not what depends on it.\<close>

theorem special_conditions_stick:
  "(let g = work_off ''a'' TaskFailed (marked always_graph)
    in state_in (g_tasks g) ''b'' = Some TaskSkipped \<and> state_in (g_tasks g) ''c'' = Some TaskPending
       \<and> all_deps_terminal (g_deps g) (g_tasks g) ''c'' \<and> stuck g)
   \<and> (let g = work_off ''a'' TaskPassed (marked cleanup_graph)
      in state_in (g_tasks g) ''b'' = Some TaskSkipped \<and> state_in (g_tasks g) ''c'' = Some TaskPending
         \<and> stuck g)"
  unfolding Let_def by (rule conjI; code_simp)

definition race_graph :: graph where
  "race_graph = small_graph [(''a'', []), (''b'', ''on_failure''), (''c'', ''always'')]
     [(''a'', ''b''), (''a'', ''c''), (''b'', ''c'')]"

text \<open>The outcome of \<open>Complete\<close> depends on the order in which Go ranges over the children of the
  completed task. Here \<open>a\<close> passes, \<open>b\<close> is an \<open>on_failure\<close> task below it and \<open>c\<close> an \<open>always\<close> task below
  both: visited after \<open>b\<close>, \<open>c\<close> becomes ready; visited before \<open>b\<close> it stays pending and the build is
  stuck.\<close>

theorem complete_depends_on_range_order:
  "let g = moved (transition_task 1 TaskRunning ''a''
             (moved (transition_task 1 TaskScheduled ''a'' (marked race_graph))));
       one = complete (children g) [''b'', ''c''] 1 ''a'' TaskPassed 0 [] g;
       two = complete (children g) [''c'', ''b''] 1 ''a'' TaskPassed 0 [] g
   in set [''b'', ''c''] = set (children g ''a'')
      \<and> state_in (g_tasks (after one)) ''c'' = Some TaskReady
      \<and> state_in (g_tasks (after two)) ''c'' = Some TaskPending \<and> stuck (after two)"
  unfolding Let_def by code_simp

end
