(* ===== verification/Registry.thy ===== *)
theory Registry
  imports Relay_Prelude
begin

text \<open>
  The worker registry, \<open>pkg/worker/registry.go\<close>: the record of a worker, the capacity test and
  the operations under the registry's lock, each one step.  Capacities are \<open>uint32\<close> and kept as
  32-bit words, so that an addition beyond the range wraps here as it does in the code.
  \<open>resource_pool\<close> is the contract the scheduler relies on, reservation against release; its
  interpretation at the end is the registry seen through one worker.
\<close>

section \<open>State\<close>

datatype worker_state = WorkerActive | WorkerDraining | WorkerDead

fun worker_state_string :: "worker_state \<Rightarrow> string" where
  "worker_state_string WorkerActive = ''active''"
| "worker_state_string WorkerDraining = ''draining''"
| "worker_state_string WorkerDead = ''dead''"

record info =
  wi_ID :: string
  wi_Platforms :: "string list"
  wi_Labels :: "(string, string) gomap"
  wi_TotalCPU :: u32
  wi_AvailableCPU :: u32
  wi_TotalMemoryMB :: u32
  wi_AvailableMemoryMB :: u32
  wi_TotalDiskMB :: u32
  wi_AvailableDiskMB :: u32
  wi_RunningTasks :: u32
  wi_MaxTasks :: u32
  wi_LastHeartbeat :: time
  wi_RegisteredAt :: time
  wi_State :: worker_state

record capacity =
  cap_AvailableCPU :: u32
  cap_AvailableMemoryMB :: u32
  cap_AvailableDiskMB :: u32
  cap_RunningTasks :: u32

text \<open>A task's demand: the last three arguments of the capacity operations.\<close>

record demand =
  dm_cpuMilli :: u32
  dm_memMB :: u32
  dm_diskMB :: u32

record registry =
  r_workers :: "(string, info) gomap"
  r_heartbeatTimeout :: int

datatype registry_error =
    EmptyWorkerID
  | WorkerNotRegistered string
  | WorkerNotFound string
  | InsufficientResources string

definition new_registry :: "int \<Rightarrow> registry" where
  "new_registry timeout = \<lparr> r_workers = [], r_heartbeatTimeout = timeout \<rparr>"

section \<open>Operations\<close>

definition can_accept_task :: "demand \<Rightarrow> info \<Rightarrow> bool" where
  "can_accept_task d w =
     (if wi_State w \<noteq> WorkerActive then False
      else if wi_RunningTasks w \<ge> wi_MaxTasks w then False
      else if wi_AvailableCPU w < dm_cpuMilli d then False
      else if wi_AvailableMemoryMB w < dm_memMB d then False
      else if wi_AvailableDiskMB w < dm_diskMB d then False
      else True)"

definition put_worker :: "string \<Rightarrow> info \<Rightarrow> registry \<Rightarrow> registry" where
  "put_worker x w r = r\<lparr> r_workers := gput x w (r_workers r) \<rparr>"

definition register :: "time \<Rightarrow> info \<Rightarrow> registry \<Rightarrow> registry_error + registry" where
  "register now w r =
     (if wi_ID w = [] then Inl EmptyWorkerID
      else Inr (put_worker (wi_ID w)
             (w\<lparr> wi_RegisteredAt := now, wi_LastHeartbeat := now, wi_State := WorkerActive \<rparr>) r))"

definition unregister :: "string \<Rightarrow> registry \<Rightarrow> registry" where
  "unregister x r = r\<lparr> r_workers := gdel x (r_workers r) \<rparr>"

definition heartbeat :: "time \<Rightarrow> string \<Rightarrow> capacity \<Rightarrow> registry \<Rightarrow> registry_error + registry" where
  "heartbeat now x c r =
     (case gget (r_workers r) x of
        None \<Rightarrow> Inl (WorkerNotRegistered x)
      | Some w \<Rightarrow>
          let w1 = w\<lparr> wi_AvailableCPU := cap_AvailableCPU c,
                      wi_AvailableMemoryMB := cap_AvailableMemoryMB c,
                      wi_AvailableDiskMB := cap_AvailableDiskMB c,
                      wi_RunningTasks := cap_RunningTasks c,
                      wi_LastHeartbeat := now \<rparr>;
              w2 = (if wi_State w1 = WorkerDead then w1\<lparr> wi_State := WorkerActive \<rparr> else w1)
          in Inr (put_worker x w2 r))"

definition get_worker :: "string \<Rightarrow> registry \<Rightarrow> info option" where
  "get_worker x r = gget (r_workers r) x"

definition active_workers :: "string list \<Rightarrow> registry \<Rightarrow> info list" where
  "active_workers ks r =
     filter (\<lambda>w. wi_State w = WorkerActive) (List.map_filter (gget (r_workers r)) ks)"

definition all_workers :: "string list \<Rightarrow> registry \<Rightarrow> info list" where
  "all_workers ks r = List.map_filter (gget (r_workers r)) ks"

definition drain :: "string \<Rightarrow> registry \<Rightarrow> registry_error + registry" where
  "drain x r =
     (case gget (r_workers r) x of
        None \<Rightarrow> Inl (WorkerNotFound x)
      | Some w \<Rightarrow> Inr (put_worker x (w\<lparr> wi_State := WorkerDraining \<rparr>) r))"

definition reserve_capacity :: "string \<Rightarrow> demand \<Rightarrow> registry \<Rightarrow> registry_error + registry" where
  "reserve_capacity x d r =
     (case gget (r_workers r) x of
        None \<Rightarrow> Inl (WorkerNotFound x)
      | Some w \<Rightarrow>
          if \<not> can_accept_task d w then Inl (InsufficientResources x)
          else Inr (put_worker x
                 (w\<lparr> wi_AvailableCPU := wi_AvailableCPU w - dm_cpuMilli d,
                     wi_AvailableMemoryMB := wi_AvailableMemoryMB w - dm_memMB d,
                     wi_AvailableDiskMB := wi_AvailableDiskMB w - dm_diskMB d,
                     wi_RunningTasks := wi_RunningTasks w + 1 \<rparr>) r))"

definition release_capacity :: "string \<Rightarrow> demand \<Rightarrow> registry \<Rightarrow> registry" where
  "release_capacity x d r =
     (case gget (r_workers r) x of
        None \<Rightarrow> r
      | Some w \<Rightarrow>
          put_worker x
            (w\<lparr> wi_AvailableCPU := wi_AvailableCPU w + dm_cpuMilli d,
                wi_AvailableMemoryMB := wi_AvailableMemoryMB w + dm_memMB d,
                wi_AvailableDiskMB := wi_AvailableDiskMB w + dm_diskMB d,
                wi_RunningTasks := (if 0 < wi_RunningTasks w then wi_RunningTasks w - 1
                                    else wi_RunningTasks w) \<rparr>) r)"

text \<open>The loop of \<open>CheckHeartbeats\<close>; \<open>timeout\<close> is the registry's \<open>heartbeatTimeout\<close>.\<close>

definition heartbeat_missed :: "time \<Rightarrow> int \<Rightarrow> info \<Rightarrow> bool" where
  "heartbeat_missed now timeout w \<longleftrightarrow>
     wi_State w \<noteq> WorkerDead \<and> time_sub now (wi_LastHeartbeat w) > timeout"

fun mark_dead ::
    "time \<Rightarrow> int \<Rightarrow> string list \<Rightarrow> (string, info) gomap \<Rightarrow> (string, info) gomap \<times> string list" where
  "mark_dead now timeout [] ws = (ws, [])"
| "mark_dead now timeout (x # xs) ws =
     (case gget ws x of
        None \<Rightarrow> mark_dead now timeout xs ws
      | Some w \<Rightarrow>
          if heartbeat_missed now timeout w
          then case mark_dead now timeout xs (gput x (w\<lparr> wi_State := WorkerDead \<rparr>) ws) of
                 (ws', dead) \<Rightarrow> (ws', x # dead)
          else mark_dead now timeout xs ws)"

definition check_heartbeats :: "string list \<Rightarrow> time \<Rightarrow> registry \<Rightarrow> registry \<times> string list" where
  "check_heartbeats ks now r =
     (case mark_dead now (r_heartbeatTimeout r) ks (r_workers r) of
        (ws, dead) \<Rightarrow> (r\<lparr> r_workers := ws \<rparr>, dead))"

definition registry_size :: "registry \<Rightarrow> nat" where
  "registry_size r = length (r_workers r)"

section \<open>The contract of a pool of resources\<close>

text \<open>
  A pool has several dimensions.  A reservation that succeeds takes its cost from every dimension; a
  release gives it back, provided the pool does not overflow its capacity.
\<close>

locale resource_pool =
  fixes reserve :: "'r \<Rightarrow> 's \<Rightarrow> 's option"
    and release :: "'r \<Rightarrow> 's \<Rightarrow> 's"
    and free :: "'s \<Rightarrow> 'd \<Rightarrow> nat"
    and limit :: "'s \<Rightarrow> 'd \<Rightarrow> nat"
    and cost :: "'r \<Rightarrow> 'd \<Rightarrow> nat"
  assumes reserve_free: "reserve r s = Some s' \<Longrightarrow> free s d = free s' d + cost r d"
    and reserve_limit: "reserve r s = Some s' \<Longrightarrow> limit s' d = limit s d"
    and release_free: "(\<And>d. free s d + cost r d \<le> limit s d) \<Longrightarrow>
      free (release r s) d = free s d + cost r d"
    and release_limit: "limit (release r s) d = limit s d"
begin

definition held_cost :: "'r list \<Rightarrow> 'd \<Rightarrow> nat" where
  "held_cost held d = (\<Sum>r \<leftarrow> held. cost r d)"

lemma held_cost_remove1: "r \<in> set held \<Longrightarrow> held_cost held d = cost r d + held_cost (remove1 r held) d"
  by (induction held) (auto simp: held_cost_def)

text \<open>Clients: reserve, keep the handle when it succeeds, release only what is held.\<close>

inductive pool_run :: "'s \<Rightarrow> 's \<Rightarrow> 'r list \<Rightarrow> bool" for s0 where
  pool_start: "pool_run s0 s0 []"
| pool_reserve: "pool_run s0 s held \<Longrightarrow> reserve r s = Some s' \<Longrightarrow> pool_run s0 s' (r # held)"
| pool_release: "pool_run s0 s held \<Longrightarrow> r \<in> set held \<Longrightarrow>
    pool_run s0 (release r s) (remove1 r held)"

lemma pool_run_limit: "pool_run s0 s held \<Longrightarrow> limit s d = limit s0 d"
  by (induction rule: pool_run.induct) (simp_all add: reserve_limit release_limit)

lemma pool_conserved:
  assumes "pool_run s0 s held" "\<And>d. free s0 d \<le> limit s0 d"
  shows "free s d + held_cost held d = free s0 d"
  using assms(1)
proof (induction arbitrary: d rule: pool_run.induct)
  case pool_start
  show ?case by (simp add: held_cost_def)
next
  case (pool_reserve s held r s')
  from pool_reserve.IH [of d] reserve_free [OF pool_reserve(2), of d] show ?case
    by (simp add: held_cost_def)
next
  case (pool_release s held r)
  have "free s e + cost r e \<le> limit s e" for e
    using pool_release.IH [of e] held_cost_remove1 [OF pool_release(2), of e] assms(2) [of e]
      pool_run_limit [OF pool_release(1), of e] by simp
  then have "free (release r s) d = free s d + cost r d" by (rule release_free)
  then show ?case
    using pool_release.IH [of d] held_cost_remove1 [OF pool_release(2), of d] by simp
qed

lemma pool_returned:
  "pool_run s0 s [] \<Longrightarrow> (\<And>d. free s0 d \<le> limit s0 d) \<Longrightarrow> free s d = free s0 d"
  using pool_conserved [of s0 s "[]" d] by (simp add: held_cost_def)

end

section \<open>One worker of the registry as a pool\<close>

text \<open>The last dimension is the room left in the counter of running tasks.\<close>

datatype dimension = CPU | Memory | Disk | Slots

definition free_of :: "string \<Rightarrow> registry \<Rightarrow> dimension \<Rightarrow> nat" where
  "free_of x r d =
     (case gget (r_workers r) x of
        None \<Rightarrow> 0
      | Some w \<Rightarrow>
          (case d of CPU \<Rightarrow> unat (wi_AvailableCPU w) | Memory \<Rightarrow> unat (wi_AvailableMemoryMB w)
           | Disk \<Rightarrow> unat (wi_AvailableDiskMB w)
           | Slots \<Rightarrow> 2 ^ 32 - 1 - unat (wi_RunningTasks w)))"

definition limit_of :: "string \<Rightarrow> registry \<Rightarrow> dimension \<Rightarrow> nat" where
  "limit_of x r d =
     (case gget (r_workers r) x of
        None \<Rightarrow> 0
      | Some w \<Rightarrow> 2 ^ 32 - 1)"

definition cost_of :: "demand \<Rightarrow> dimension \<Rightarrow> nat" where
  "cost_of q d =
     (case d of CPU \<Rightarrow> unat (dm_cpuMilli q) | Memory \<Rightarrow> unat (dm_memMB q)
      | Disk \<Rightarrow> unat (dm_diskMB q) | Slots \<Rightarrow> 1)"

definition reserve_opt :: "string \<Rightarrow> demand \<Rightarrow> registry \<Rightarrow> registry option" where
  "reserve_opt x q r = (case reserve_capacity x q r of Inl _ \<Rightarrow> None | Inr r' \<Rightarrow> Some r')"

lemma unat_less_32: "unat (a :: u32) < 2 ^ 32"
proof -
  have "unat a < 2 ^ LENGTH(32)" by (rule unsigned_less)
  then show ?thesis by simp
qed

lemma unat_sub_add: "b \<le> (a :: u32) \<Longrightarrow> unat a = unat (a - b) + unat b"
  by (simp add: unat_sub word_le_nat_alt)

lemma unat_add_bound: "unat (a :: u32) + unat b \<le> 2 ^ 32 - 1 \<Longrightarrow> unat (a + b) = unat a + unat b"
  by (subst unat_add_lem [symmetric]) simp

lemma unat_incr: "(a :: u32) < b \<Longrightarrow> unat (a + 1) = unat a + 1"
proof -
  assume "a < b"
  then have "unat a + unat (1 :: u32) < 2 ^ LENGTH(32)"
    using unat_less_32 [of b] by (simp add: word_less_nat_alt)
  then have "unat (a + 1) = unat a + unat (1 :: u32)" by (rule unat_add_lem [THEN iffD1])
  then show ?thesis by simp
qed

lemma unat_decr: "0 < (a :: u32) \<Longrightarrow> unat (a - 1) + 1 = unat a"
  by (metis add.commute unat_minus_one unat_gt_0 Suc_eq_plus1_left Suc_pred' word_gt_0)

lemma reserve_capacity_Inr:
  "reserve_capacity x d r = Inr r' \<longleftrightarrow> (\<exists>w. gget (r_workers r) x = Some w \<and> can_accept_task d w \<and>
     r' = put_worker x (w\<lparr> wi_AvailableCPU := wi_AvailableCPU w - dm_cpuMilli d,
                     wi_AvailableMemoryMB := wi_AvailableMemoryMB w - dm_memMB d,
                     wi_AvailableDiskMB := wi_AvailableDiskMB w - dm_diskMB d,
                     wi_RunningTasks := wi_RunningTasks w + 1 \<rparr>) r)"
  by (auto simp: reserve_capacity_def split: option.split)

lemma can_accept_task_iff:
  "can_accept_task d w \<longleftrightarrow> wi_State w = WorkerActive \<and> wi_RunningTasks w < wi_MaxTasks w
     \<and> dm_cpuMilli d \<le> wi_AvailableCPU w \<and> dm_memMB d \<le> wi_AvailableMemoryMB w
     \<and> dm_diskMB d \<le> wi_AvailableDiskMB w"
  by (auto simp: can_accept_task_def)

lemma reserve_opt_Some:
  "reserve_opt x d r = Some r' \<longleftrightarrow> reserve_capacity x d r = Inr r'"
  by (simp add: reserve_opt_def split: sum.split)

lemma put_worker_get [simp]:
  "gget (r_workers (put_worker x w r)) y = (if y = x then Some w else gget (r_workers r) y)"
  by (simp add: put_worker_def)

lemma unat_le_max: "unat (a :: u32) \<le> 2 ^ 32 - 1"
  using unat_less_32 [of a] by simp

interpretation worker_pool: resource_pool "reserve_opt x" "release_capacity x" "free_of x" "limit_of x"
    cost_of for x
proof
  fix r s s' d
  assume "reserve_opt x r s = Some s'"
  then obtain w where w: "gget (r_workers s) x = Some w" "can_accept_task r w"
    and s': "s' = put_worker x (w\<lparr> wi_AvailableCPU := wi_AvailableCPU w - dm_cpuMilli r,
                     wi_AvailableMemoryMB := wi_AvailableMemoryMB w - dm_memMB r,
                     wi_AvailableDiskMB := wi_AvailableDiskMB w - dm_diskMB r,
                     wi_RunningTasks := wi_RunningTasks w + 1 \<rparr>) s"
    by (auto simp: reserve_opt_Some reserve_capacity_Inr)
  have l: "wi_RunningTasks w < wi_MaxTasks w" using w(2) by (simp add: can_accept_task_iff)
  note i = unat_incr [OF l]
  then have "unat (wi_RunningTasks w) + 1 \<le> 2 ^ 32 - 1" by (metis unat_le_max)
  with i show "free_of x s d = free_of x s' d + cost_of r d"
    using w by (cases d) (simp_all add: s' free_of_def cost_of_def can_accept_task_iff unat_sub_add)
  show "limit_of x s' d = limit_of x s d" using w(1) by (simp add: s' limit_of_def)
next
  fix s r d
  assume le: "\<And>d. free_of x s d + cost_of r d \<le> limit_of x s d"
  show "free_of x (release_capacity x r s) d = free_of x s d + cost_of r d"
  proof (cases "gget (r_workers s) x")
    case None
    then show ?thesis using le [of Slots] by (simp add: free_of_def limit_of_def cost_of_def)
  next
    case (Some w)
    have "unat (wi_AvailableCPU w) + unat (dm_cpuMilli r) \<le> 2 ^ 32 - 1"
      "unat (wi_AvailableMemoryMB w) + unat (dm_memMB r) \<le> 2 ^ 32 - 1"
      "unat (wi_AvailableDiskMB w) + unat (dm_diskMB r) \<le> 2 ^ 32 - 1"
      using le [of CPU] le [of Memory] le [of Disk] Some
      by (simp_all add: free_of_def limit_of_def cost_of_def)
    note u = this [THEN unat_add_bound]
    have p: "0 < unat (wi_RunningTasks w)" "unat (wi_RunningTasks w) \<le> 2 ^ 32 - 1"
      using le [of Slots] Some unat_le_max [of "wi_RunningTasks w"]
      by (simp_all add: free_of_def limit_of_def cost_of_def)
    then have "0 < wi_RunningTasks w" by (simp add: word_less_nat_alt)
    moreover from this have "unat (wi_RunningTasks w - 1) + 1 = unat (wi_RunningTasks w)"
      by (rule unat_decr)
    ultimately show ?thesis
      using Some u p by (cases d) (auto simp: release_capacity_def free_of_def cost_of_def)
  qed
next
  fix s r d
  show "limit_of x (release_capacity x r s) d = limit_of x s d"
    by (auto simp: release_capacity_def limit_of_def split: option.split)
qed

section \<open>Other workers and heartbeats\<close>

lemma reserve_other: "reserve_capacity x d r = Inr r' \<Longrightarrow> y \<noteq> x \<Longrightarrow> get_worker y r' = get_worker y r"
  by (auto simp: reserve_capacity_Inr get_worker_def)

lemma release_other: "y \<noteq> x \<Longrightarrow> get_worker y (release_capacity x d r) = get_worker y r"
  by (simp add: release_capacity_def get_worker_def split: option.split)

lemma mark_dead_spec:
  "mark_dead now timeout ks ws = (ws', dead) \<Longrightarrow> distinct ks \<Longrightarrow>
     (\<forall>x. gget ws' x = (case gget ws x of None \<Rightarrow> None
        | Some w \<Rightarrow> Some (if x \<in> set ks \<and> heartbeat_missed now timeout w
                          then w\<lparr> wi_State := WorkerDead \<rparr> else w)))
     \<and> dead = filter (\<lambda>x. case gget ws x of None \<Rightarrow> False | Some w \<Rightarrow> heartbeat_missed now timeout w) ks"
proof (induction ks arbitrary: ws dead)
  case Nil
  then show ?case by (auto split: option.split)
next
  case (Cons k ks)
  show ?case
  proof (cases "\<exists>w. gget ws k = Some w \<and> heartbeat_missed now timeout w")
    case True
    then obtain w where w: "gget ws k = Some w" "heartbeat_missed now timeout w" by blast
    let ?ws1 = "gput k (w\<lparr> wi_State := WorkerDead \<rparr>) ws"
    from Cons.prems(1) w obtain dead' where r: "mark_dead now timeout ks ?ws1 = (ws', dead')"
      and d: "dead = k # dead'" by (auto split: prod.splits)
    have "filter (\<lambda>x. case gget ?ws1 x of None \<Rightarrow> False | Some w \<Rightarrow> heartbeat_missed now timeout w) ks
        = filter (\<lambda>x. case gget ws x of None \<Rightarrow> False | Some w \<Rightarrow> heartbeat_missed now timeout w) ks"
      using Cons.prems(2) by (intro filter_cong) auto
    with Cons.IH [OF r] Cons.prems(2) w d show ?thesis by (auto split: option.splits)
  next
    case False
    then have r: "mark_dead now timeout ks ws = (ws', dead)"
      using Cons.prems(1) by (auto split: option.splits)
    from Cons.IH [OF r] Cons.prems(2) False show ?thesis by (auto split: option.splits)
  qed
qed

section \<open>Properties\<close>

text \<open>Reservations and releases of one worker, the way the scheduler issues them: what a failed
  reservation asks for is not held, and only what is held is returned.\<close>

datatype ledger_op = Acquire demand | Return demand

fun run_ledger :: "string \<Rightarrow> ledger_op list \<Rightarrow> registry \<Rightarrow> demand list \<Rightarrow> registry \<times> demand list" where
  "run_ledger x [] r held = (r, held)"
| "run_ledger x (Acquire d # ops) r held =
     (case reserve_capacity x d r of
        Inl _ \<Rightarrow> run_ledger x ops r held
      | Inr r' \<Rightarrow> run_ledger x ops r' (d # held))"
| "run_ledger x (Return d # ops) r held =
     (if d \<in> set held then run_ledger x ops (release_capacity x d r) (remove1 d held)
      else run_ledger x ops r held)"

lemma run_ledger_pool:
  "run_ledger x ops r held = (r', held') \<Longrightarrow> worker_pool.pool_run x r0 r held \<Longrightarrow>
     worker_pool.pool_run x r0 r' held'"
proof (induction x ops r held rule: run_ledger.induct)
  case (2 x d ops r held)
  then show ?case
    using worker_pool.pool_reserve [of x r0 r held d] reserve_opt_Some [of x d r]
    by (cases "reserve_capacity x d r") auto
next
  case (3 x d ops r held)
  then show ?case by (auto intro: worker_pool.pool_release split: if_splits)
qed simp

lemma free_of_limit: "free_of x r d \<le> limit_of x r d"
proof -
  have "unat a \<le> 4294967295" for a :: u32 using unat_le_max [of a] by simp
  then show ?thesis by (cases d) (auto simp: free_of_def limit_of_def split: option.split)
qed

lemma release_present: "get_worker x r \<noteq> None \<Longrightarrow> get_worker x (release_capacity x d r) \<noteq> None"
  by (auto simp: release_capacity_def get_worker_def split: option.split)

lemma run_ledger_present:
  "run_ledger x ops r held = (r', held') \<Longrightarrow> get_worker x r \<noteq> None \<Longrightarrow> get_worker x r' \<noteq> None"
proof (induction x ops r held rule: run_ledger.induct)
  case (2 x d ops r held)
  then show ?case by (auto simp: reserve_capacity_Inr get_worker_def split: sum.splits)
next
  case (3 x d ops r held)
  then show ?case by (auto simp: release_present split: if_splits)
qed simp


definition small_worker :: info where
  "small_worker = \<lparr> wi_ID = ''w'', wi_Platforms = [], wi_Labels = [], wi_TotalCPU = 4000,
     wi_AvailableCPU = 4000, wi_TotalMemoryMB = 8000, wi_AvailableMemoryMB = 8000,
     wi_TotalDiskMB = 100, wi_AvailableDiskMB = 100, wi_RunningTasks = 0, wi_MaxTasks = 4,
     wi_LastHeartbeat = 0, wi_RegisteredAt = 0, wi_State = WorkerActive \<rparr>"

definition small_registry :: registry where
  "small_registry = put_worker ''w'' small_worker (new_registry 30)"

definition big_demand :: demand where
  "big_demand = \<lparr> dm_cpuMilli = 3000, dm_memMB = 1000, dm_diskMB = 10 \<rparr>"


text \<open>\<open>CheckHeartbeats\<close> marks exactly the workers that are not dead yet and whose last heartbeat is
  longer ago than the timeout, and returns exactly their identifiers; every other worker, and every
  other field, is unchanged, whatever the order of the range loop.\<close>

theorem check_heartbeats_exact:
  assumes "gwf (r_workers r)" "range_order (r_workers r) ks" "check_heartbeats ks now r = (r', dead)"
  shows "(\<forall>x. get_worker x r' = map_option
      (\<lambda>w. if wi_State w \<noteq> WorkerDead \<and> time_sub now (wi_LastHeartbeat w) > r_heartbeatTimeout r
           then w\<lparr> wi_State := WorkerDead \<rparr> else w) (get_worker x r))
    \<and> distinct dead
    \<and> (\<forall>x. x \<in> set dead \<longleftrightarrow> (\<exists>w. get_worker x r = Some w \<and> wi_State w \<noteq> WorkerDead
         \<and> time_sub now (wi_LastHeartbeat w) > r_heartbeatTimeout r))"
proof -
  obtain ws where m: "mark_dead now (r_heartbeatTimeout r) ks (r_workers r) = (ws, dead)"
    and r': "r' = r\<lparr> r_workers := ws \<rparr>"
    using assms(3) by (auto simp: check_heartbeats_def split: prod.splits)
  have k: "distinct ks" "\<And>x. x \<in> set ks \<longleftrightarrow> gget (r_workers r) x \<noteq> None"
    using assms(2) range_order_set [OF assms(2)] by (auto simp: range_order_def)
  from mark_dead_spec [OF m k(1)] k show ?thesis
    by (auto simp: r' get_worker_def heartbeat_missed_def split: option.splits)
qed

theorem check_heartbeats_exact_witness:
  "''w'' \<in> set (snd (check_heartbeats [''w''] 100 small_registry))"
proof -
  have r: "range_order (r_workers small_registry) [''w'']" "gwf (r_workers small_registry)"
    by code_simp+
  have "get_worker ''w'' small_registry = Some small_worker" by code_simp
  moreover have "wi_State small_worker \<noteq> WorkerDead"
    "time_sub 100 (wi_LastHeartbeat small_worker) > r_heartbeatTimeout small_registry" by code_simp+
  ultimately show ?thesis
    using check_heartbeats_exact [OF r(2,1) prod.collapse [symmetric], of 100] by blast
qed

text \<open>A heartbeat overwrites the reservations. When a worker reports the capacity it was
  registered with, as \<open>cmd/worker\<close> always does, any demand up to the worker's total is accepted next,
  whatever is already reserved on it.\<close>

theorem heartbeat_forgets_reservations:
  assumes "get_worker x r = Some w" "wi_State w = WorkerActive" "0 < wi_MaxTasks w"
    and "cap_AvailableCPU c = wi_TotalCPU w" "cap_AvailableMemoryMB c = wi_TotalMemoryMB w"
    "cap_AvailableDiskMB c = wi_TotalDiskMB w" "cap_RunningTasks c = 0"
    and "dm_cpuMilli d \<le> wi_TotalCPU w" "dm_memMB d \<le> wi_TotalMemoryMB w" "dm_diskMB d \<le> wi_TotalDiskMB w"
  shows "\<exists>r1 r2. heartbeat now x c r = Inr r1 \<and> reserve_capacity x d r1 = Inr r2"
  using assms
  by (auto simp: heartbeat_def get_worker_def reserve_capacity_Inr can_accept_task_iff Let_def)

theorem heartbeat_forgets_reservations_witness:
  "let c = \<lparr> cap_AvailableCPU = 4000, cap_AvailableMemoryMB = 8000, cap_AvailableDiskMB = 100,
             cap_RunningTasks = 0 \<rparr>;
       r = fst (run_ledger ''w'' [Acquire big_demand] small_registry [])
   in reserve_capacity ''w'' big_demand r = Inl (InsufficientResources ''w'')
      \<and> (\<exists>r1 r2. heartbeat 5 ''w'' c r = Inr r1 \<and> reserve_capacity ''w'' big_demand r1 = Inr r2)
      \<and> unat (dm_cpuMilli big_demand) + unat (dm_cpuMilli big_demand) > unat (wi_TotalCPU small_worker)"
proof -
  let ?r = "fst (run_ledger ''w'' [Acquire big_demand] small_registry [])"
  let ?c = "\<lparr> cap_AvailableCPU = 4000, cap_AvailableMemoryMB = 8000, cap_AvailableDiskMB = 100,
             cap_RunningTasks = 0 \<rparr>"
  let ?w = "small_worker\<lparr> wi_AvailableCPU := 1000, wi_AvailableMemoryMB := 7000,
     wi_AvailableDiskMB := 90, wi_RunningTasks := 1 \<rparr>"
  have "reserve_capacity ''w'' big_demand ?r = Inl (InsufficientResources ''w'')" by code_simp
  moreover have "unat (dm_cpuMilli big_demand) + unat (dm_cpuMilli big_demand)
      > unat (wi_TotalCPU small_worker)" by code_simp
  moreover have "get_worker ''w'' ?r = Some ?w" by code_simp
  then have "\<exists>r1 r2. heartbeat 5 ''w'' ?c ?r = Inr r1 \<and> reserve_capacity ''w'' big_demand r1 = Inr r2"
    by (rule heartbeat_forgets_reservations) code_simp+
  ultimately show ?thesis by (simp add: Let_def)
qed

end
