(* ===== verification/Build_Store.thy ===== *)
theory Build_Store
  imports Relay_Prelude "HOL-Library.Multiset"
begin

text \<open>
  The build history, \<open>pkg/store\<close>: the records (\<open>store.go\<close>), the in-memory store (\<open>mem.go\<close>) and
  the SQLite store (\<open>sqlite.go\<close>).  A table is the list of its rows in insertion order and each SQL
  statement of the source is a function on the tables, with the documented effect of
  \<open>INSERT OR IGNORE\<close>, \<open>ON CONFLICT DO UPDATE\<close>, the foreign key and its \<open>ON DELETE CASCADE\<close>;
  failures of the driver itself are not modelled.  A zero time is stored as NULL and read back as
  zero, so the columns hold the time itself.  \<open>history_store\<close> is the Go interface \<open>Store\<close> with the
  laws both implementations satisfy, and \<open>any_store\<close> is the value of that interface the scheduler
  holds.
\<close>

section \<open>Records\<close>

record task_record =
  tr_ID :: string
  tr_BuildID :: string
  tr_Name :: string
  tr_State :: string
  tr_ExitCode :: int
  tr_ErrorMessage :: string
  tr_StartedAt :: time
  tr_FinishedAt :: time

record build_record =
  br_ID :: string
  br_RepoURL :: string
  br_RepoFullName :: string
  br_CommitSHA :: string
  br_Branch :: string
  br_PRNumber :: string
  br_TriggeredBy :: string
  br_State :: string
  br_CreatedAt :: time
  br_StartedAt :: time
  br_FinishedAt :: time
  br_Tasks :: "task_record list"

record audit_entry =
  au_ID :: int
  au_TS :: time
  au_Actor :: string
  au_Action :: string
  au_Resource :: string
  au_Detail :: string

datatype store_error = ForeignKeyViolation string

section \<open>The in-memory store\<close>

record mem_store =
  ms_builds :: "(string, build_record) gomap"
  ms_audit :: "audit_entry list"

definition new_mem_store :: mem_store where
  "new_mem_store = \<lparr> ms_builds = [], ms_audit = [] \<rparr>"

definition mem_SaveBuild :: "build_record \<Rightarrow> mem_store \<Rightarrow> mem_store" where
  "mem_SaveBuild b m = m\<lparr> ms_builds := gput (br_ID b) b (ms_builds m) \<rparr>"

definition mem_UpdateBuildState :: "string \<Rightarrow> string \<Rightarrow> time \<Rightarrow> mem_store \<Rightarrow> mem_store" where
  "mem_UpdateBuildState x state finishedAt m =
     (case gget (ms_builds m) x of
        None \<Rightarrow> m
      | Some b \<Rightarrow> m\<lparr> ms_builds :=
          gput x (b\<lparr> br_State := state, br_FinishedAt := finishedAt \<rparr>) (ms_builds m) \<rparr>)"

text \<open>The loop over \<open>b.Tasks\<close>: the first record with the ID is replaced, else one is appended.\<close>

fun upsert_task :: "task_record \<Rightarrow> task_record list \<Rightarrow> task_record list" where
  "upsert_task t [] = [t]"
| "upsert_task t (e # es) = (if tr_ID e = tr_ID t then t # es else e # upsert_task t es)"

definition mem_UpdateTaskState :: "task_record \<Rightarrow> mem_store \<Rightarrow> mem_store" where
  "mem_UpdateTaskState t m =
     (case gget (ms_builds m) (tr_BuildID t) of
        None \<Rightarrow> m
      | Some b \<Rightarrow> m\<lparr> ms_builds :=
          gput (tr_BuildID t) (b\<lparr> br_Tasks := upsert_task t (br_Tasks b) \<rparr>) (ms_builds m) \<rparr>)"

text \<open>A limit that is not positive means no limit; \<open>ks\<close> is the order of the range loop.\<close>

definition mem_ListBuilds :: "string list \<Rightarrow> int \<Rightarrow> mem_store \<Rightarrow> build_record list" where
  "mem_ListBuilds ks limit m =
     (let out = List.map_filter (gget (ms_builds m)) ks
      in if limit > 0 \<and> int (length out) > limit then take (nat limit) out else out)"

definition mem_GetBuild :: "string \<Rightarrow> mem_store \<Rightarrow> build_record option" where
  "mem_GetBuild x m = gget (ms_builds m) x"

definition mem_AppendAudit :: "time \<Rightarrow> audit_entry \<Rightarrow> mem_store \<Rightarrow> mem_store" where
  "mem_AppendAudit now e m = m\<lparr> ms_audit := ms_audit m @ [e\<lparr> au_TS := now \<rparr>] \<rparr>"

text \<open>The last \<open>n\<close> entries, oldest first.\<close>

definition mem_ListAudit :: "int \<Rightarrow> mem_store \<Rightarrow> audit_entry list" where
  "mem_ListAudit limit m =
     (let n = (if limit > 0 \<and> int (length (ms_audit m)) > limit then nat limit
               else length (ms_audit m))
      in map (\<lambda>i. ms_audit m ! (length (ms_audit m) - n + i)) [0 ..< n])"

definition mem_DeleteBuildsBefore :: "time \<Rightarrow> mem_store \<Rightarrow> mem_store \<times> int" where
  "mem_DeleteBuildsBefore cutoff m =
     (m\<lparr> ms_builds := filter (\<lambda>(x, b). \<not> br_CreatedAt b < cutoff) (ms_builds m) \<rparr>,
      int (length (filter (\<lambda>(x, b). br_CreatedAt b < cutoff) (ms_builds m))))"

section \<open>The SQLite store\<close>

text \<open>The \<open>builds\<close> rows carry no tasks: their \<open>br_Tasks\<close> is empty.\<close>

record sqlite_store =
  sq_builds :: "(string, build_record) gomap"
  sq_tasks :: "(string \<times> string, task_record) gomap"
  sq_audit :: "audit_entry list"

definition empty_database :: sqlite_store where
  "empty_database = \<lparr> sq_builds = [], sq_tasks = [], sq_audit = [] \<rparr>"

text \<open>\<open>INSERT OR IGNORE\<close>: a row whose key exists is dropped, and so is one whose \<open>created_at\<close> would
  be NULL.\<close>

definition sql_SaveBuild :: "build_record \<Rightarrow> sqlite_store \<Rightarrow> sqlite_store" where
  "sql_SaveBuild b s =
     (if gget (sq_builds s) (br_ID b) \<noteq> None \<or> is_zero_time (br_CreatedAt b) then s
      else s\<lparr> sq_builds := gput (br_ID b) (b\<lparr> br_Tasks := [] \<rparr>) (sq_builds s) \<rparr>)"

definition sql_UpdateBuildState :: "string \<Rightarrow> string \<Rightarrow> time \<Rightarrow> sqlite_store \<Rightarrow> sqlite_store" where
  "sql_UpdateBuildState x state finishedAt s =
     (case gget (sq_builds s) x of
        None \<Rightarrow> s
      | Some b \<Rightarrow> s\<lparr> sq_builds :=
          gput x (b\<lparr> br_State := state, br_FinishedAt := finishedAt \<rparr>) (sq_builds s) \<rparr>)"

definition sql_UpdateTaskState ::
    "task_record \<Rightarrow> sqlite_store \<Rightarrow> store_error + sqlite_store" where
  "sql_UpdateTaskState t s =
     (if gget (sq_builds s) (tr_BuildID t) = None then Inl (ForeignKeyViolation (tr_BuildID t))
      else Inr (case gget (sq_tasks s) (tr_ID t, tr_BuildID t) of
          None \<Rightarrow> s\<lparr> sq_tasks := gput (tr_ID t, tr_BuildID t) t (sq_tasks s) \<rparr>
        | Some e \<Rightarrow> s\<lparr> sq_tasks := gput (tr_ID t, tr_BuildID t)
            (e\<lparr> tr_State := tr_State t, tr_ExitCode := tr_ExitCode t,
                tr_ErrorMessage := tr_ErrorMessage t, tr_StartedAt := tr_StartedAt t,
                tr_FinishedAt := tr_FinishedAt t \<rparr>) (sq_tasks s) \<rparr>))"

definition sql_limit :: "int \<Rightarrow> int \<Rightarrow> nat" where
  "sql_limit dflt limit = nat (if limit \<le> 0 then dflt else limit)"

text \<open>\<open>ORDER BY created_at DESC LIMIT\<close>; rows with equal times keep the order of the table.\<close>

definition sql_ListBuilds :: "int \<Rightarrow> sqlite_store \<Rightarrow> build_record list" where
  "sql_ListBuilds limit s =
     take (sql_limit 500 limit) (sort_key (\<lambda>b. - br_CreatedAt b) (map snd (sq_builds s)))"

definition sql_GetBuild :: "string \<Rightarrow> sqlite_store \<Rightarrow> build_record option" where
  "sql_GetBuild x s =
     (case gget (sq_builds s) x of
        None \<Rightarrow> None
      | Some b \<Rightarrow>
          Some (b\<lparr> br_Tasks := filter (\<lambda>t. tr_BuildID t = x) (map snd (sq_tasks s)) \<rparr>))"

definition sql_AppendAudit :: "time \<Rightarrow> audit_entry \<Rightarrow> sqlite_store \<Rightarrow> sqlite_store" where
  "sql_AppendAudit now e s =
     s\<lparr> sq_audit := sq_audit s @ [e\<lparr> au_ID := int (length (sq_audit s)) + 1, au_TS := now \<rparr>] \<rparr>"

definition sql_ListAudit :: "int \<Rightarrow> sqlite_store \<Rightarrow> audit_entry list" where
  "sql_ListAudit limit s = take (sql_limit 200 limit) (sort_key (\<lambda>e. - au_TS e) (sq_audit s))"

definition sql_DeleteBuildsBefore :: "time \<Rightarrow> sqlite_store \<Rightarrow> sqlite_store \<times> int" where
  "sql_DeleteBuildsBefore cutoff s =
     (s\<lparr> sq_builds := filter (\<lambda>(x, b). \<not> br_CreatedAt b < cutoff) (sq_builds s),
         sq_tasks := filter (\<lambda>((x, b), t). case gget (sq_builds s) b of
             None \<Rightarrow> True | Some r \<Rightarrow> \<not> br_CreatedAt r < cutoff) (sq_tasks s) \<rparr>,
      int (length (filter (\<lambda>(x, b). br_CreatedAt b < cutoff) (sq_builds s))))"

section \<open>The interface\<close>

text \<open>What a client sees of a stored build besides its tasks.\<close>

definition header :: "build_record \<Rightarrow> build_record" where
  "header b = b\<lparr> br_Tasks := [] \<rparr>"

lemma header_simps [simp]:
  "header (b\<lparr> br_Tasks := ts \<rparr>) = header b"
  "header (b\<lparr> br_State := s, br_FinishedAt := f \<rparr>) = (header b)\<lparr> br_State := s, br_FinishedAt := f \<rparr>"
  "br_CreatedAt (header b) = br_CreatedAt b"
  "header (header b) = header b"
  by (simp_all add: header_def)

text \<open>A call that does not change the state of build \<open>x\<close>.\<close>

fun spares :: "string \<Rightarrow> (string \<times> string \<times> time) + task_record \<Rightarrow> bool" where
  "spares x (Inl (y, st, fin)) \<longleftrightarrow> y \<noteq> x"
| "spares x (Inr t) \<longleftrightarrow> True"

locale history_store =
  fixes SaveBuild :: "build_record \<Rightarrow> 's \<Rightarrow> 's"
    and UpdateBuildState :: "string \<Rightarrow> string \<Rightarrow> time \<Rightarrow> 's \<Rightarrow> 's"
    and UpdateTaskState :: "task_record \<Rightarrow> 's \<Rightarrow> 's"
    and GetBuild :: "string \<Rightarrow> 's \<Rightarrow> build_record option"
    and DeleteBuildsBefore :: "time \<Rightarrow> 's \<Rightarrow> 's"
    and good :: "'s \<Rightarrow> bool"
  assumes save_fresh: "good s \<Longrightarrow> GetBuild (br_ID b) s = None \<Longrightarrow> br_CreatedAt b \<noteq> 0 \<Longrightarrow>
      map_option header (GetBuild (br_ID b) (SaveBuild b s)) = Some (header b)"
    and save_other: "good s \<Longrightarrow> x \<noteq> br_ID b \<Longrightarrow>
      map_option header (GetBuild x (SaveBuild b s)) = map_option header (GetBuild x s)"
    and state_get: "good s \<Longrightarrow> map_option header (GetBuild x (UpdateBuildState y st fin s)) =
      (if x = y then map_option (\<lambda>b. header b\<lparr> br_State := st, br_FinishedAt := fin \<rparr>) (GetBuild x s)
       else map_option header (GetBuild x s))"
    and task_get: "good s \<Longrightarrow>
      map_option header (GetBuild x (UpdateTaskState t s)) = map_option header (GetBuild x s)"
    and delete_get: "good s \<Longrightarrow> map_option header (GetBuild x (DeleteBuildsBefore c s)) =
      (case GetBuild x s of None \<Rightarrow> None
       | Some b \<Rightarrow> if br_CreatedAt b < c then None else Some (header b))"
    and good_save: "good s \<Longrightarrow> br_ID b \<noteq> [] \<Longrightarrow> good (SaveBuild b s)"
    and good_state: "good s \<Longrightarrow> good (UpdateBuildState y st fin s)"
    and good_task: "good s \<Longrightarrow> good (UpdateTaskState t s)"
    and good_delete: "good s \<Longrightarrow> good (DeleteBuildsBefore c s)"
begin

text \<open>A client's calls after it saved a build.\<close>

fun after_calls :: "(string \<times> string \<times> time + task_record) list \<Rightarrow> 's \<Rightarrow> 's" where
  "after_calls [] s = s"
| "after_calls (Inl (y, st, fin) # cs) s = after_calls cs (UpdateBuildState y st fin s)"
| "after_calls (Inr t # cs) s = after_calls cs (UpdateTaskState t s)"

lemma good_after_calls: "good s \<Longrightarrow> good (after_calls cs s)"
  by (induction cs s rule: after_calls.induct) (simp_all add: good_state good_task)

text \<open>Reports for tasks, and state changes of other builds, do not touch what is stored of a build.\<close>

lemma after_calls_other:
  "good s \<Longrightarrow> list_all (spares x) cs \<Longrightarrow>
     map_option header (GetBuild x (after_calls cs s)) = map_option header (GetBuild x s)"
  by (induction cs s rule: after_calls.induct)
    (auto simp: good_state good_task state_get task_get)

lemma saved_then_finished:
  assumes "good s" "GetBuild (br_ID b) s = None" "br_CreatedAt b \<noteq> 0" "br_ID b \<noteq> []"
    and other: "list_all (spares (br_ID b)) (cs @ cs')"
  shows "map_option header (GetBuild (br_ID b)
      (after_calls cs' (UpdateBuildState (br_ID b) st fin (after_calls cs (SaveBuild b s)))))
    = Some (header b\<lparr> br_State := st, br_FinishedAt := fin \<rparr>)"
proof -
  let ?s1 = "after_calls cs (SaveBuild b s)" and ?x = "br_ID b"
  have g: "good ?s1" using assms(1,4) by (simp add: good_after_calls good_save)
  have "map_option header (GetBuild ?x ?s1) = Some (header b)"
    using after_calls_other [of "SaveBuild b s" ?x cs] assms by (simp add: save_fresh good_save)
  then obtain r where r: "GetBuild ?x ?s1 = Some r" "header r = header b" by blast
  have "map_option header (GetBuild ?x (UpdateBuildState ?x st fin ?s1))
      = Some (header b\<lparr> br_State := st, br_FinishedAt := fin \<rparr>)"
    using state_get [OF g] r by simp
  then show ?thesis
    using after_calls_other [OF good_state [OF g], of ?x cs'] other by simp
qed

end

section \<open>Both implementations satisfy it\<close>

definition mem_good :: "mem_store \<Rightarrow> bool" where
  "mem_good m \<longleftrightarrow> gwf (ms_builds m)"

text \<open>Every task row belongs to a build row, as the foreign key demands.\<close>

definition sql_good :: "sqlite_store \<Rightarrow> bool" where
  "sql_good s \<longleftrightarrow> gwf (sq_builds s) \<and> gwf (sq_tasks s)
     \<and> list_all (\<lambda>((x, b), t). tr_ID t = x \<and> tr_BuildID t = b \<and> gget (sq_builds s) b \<noteq> None)
         (sq_tasks s)"

definition sql_task :: "task_record \<Rightarrow> sqlite_store \<Rightarrow> sqlite_store" where
  "sql_task t s = (case sql_UpdateTaskState t s of Inl _ \<Rightarrow> s | Inr s' \<Rightarrow> s')"

interpretation mem: history_store mem_SaveBuild mem_UpdateBuildState mem_UpdateTaskState mem_GetBuild
    "\<lambda>c m. fst (mem_DeleteBuildsBefore c m)" mem_good
  by unfold_locales
    (auto simp: mem_SaveBuild_def mem_UpdateBuildState_def mem_UpdateTaskState_def mem_GetBuild_def
      mem_DeleteBuildsBefore_def mem_good_def gget_filter gwf_filter split: option.splits)

lemma sql_GetBuild_header: "map_option header (sql_GetBuild x s) = map_option header (gget (sq_builds s) x)"
  by (simp add: sql_GetBuild_def split: option.split)

lemma sql_GetBuild_None: "sql_GetBuild x s = None \<longleftrightarrow> gget (sq_builds s) x = None"
  by (simp add: sql_GetBuild_def split: option.split)

text \<open>The foreign key, read through look-ups.\<close>

lemma sql_good_iff: "sql_good s \<longleftrightarrow> gwf (sq_builds s) \<and> gwf (sq_tasks s)
    \<and> (\<forall>x b t. gget (sq_tasks s) (x, b) = Some t \<longrightarrow>
         tr_ID t = x \<and> tr_BuildID t = b \<and> gget (sq_builds s) b \<noteq> None)"
proof (cases "gwf (sq_tasks s)")
  case True
  then show ?thesis by (auto simp: sql_good_def list_all_iff gget_Some_iff)
qed (simp add: sql_good_def)

lemma sql_good_save: "sql_good s \<Longrightarrow> sql_good (sql_SaveBuild b s)"
  by (auto simp: sql_good_iff sql_SaveBuild_def)

lemma sql_good_state: "sql_good s \<Longrightarrow> sql_good (sql_UpdateBuildState x st fin s)"
  by (auto simp: sql_good_iff sql_UpdateBuildState_def split: option.split)

lemma sql_good_task: "sql_good s \<Longrightarrow> sql_good (sql_task t s)"
  by (auto simp: sql_good_iff sql_task_def sql_UpdateTaskState_def split: option.split sum.split)

lemma sql_good_delete: "sql_good s \<Longrightarrow> sql_good (fst (sql_DeleteBuildsBefore c s))"
proof -
  assume g: "sql_good s"
  have f: "gget (filter (\<lambda>((x, b), t). case gget (sq_builds s) b of
      None \<Rightarrow> True | Some r \<Rightarrow> \<not> br_CreatedAt r < c) (sq_tasks s)) k =
      (case gget (sq_tasks s) k of None \<Rightarrow> None
       | Some t \<Rightarrow> if (case gget (sq_builds s) (snd k) of None \<Rightarrow> True
            | Some r \<Rightarrow> \<not> br_CreatedAt r < c) then Some t else None)" for k
    using gget_filter [of "sq_tasks s" "\<lambda>k t. case gget (sq_builds s) (snd k) of
        None \<Rightarrow> True | Some r \<Rightarrow> \<not> br_CreatedAt r < c" k] g
    by (simp add: sql_good_def case_prod_unfold)
  show ?thesis
    using g unfolding sql_good_iff sql_DeleteBuildsBefore_def fst_conv sqlite_store.simps f
    by (auto simp: gget_filter gwf_filter split: option.splits if_splits) (metis not_None_eq)
qed

interpretation sql: history_store sql_SaveBuild sql_UpdateBuildState sql_task sql_GetBuild
    "\<lambda>c s. fst (sql_DeleteBuildsBefore c s)" sql_good
proof
  fix s x y st fin b t c
  assume g: "sql_good s"
  show "map_option header (sql_GetBuild (br_ID b) (sql_SaveBuild b s)) = Some (header b)"
    if "sql_GetBuild (br_ID b) s = None" "br_CreatedAt b \<noteq> 0"
    using that by (simp add: sql_GetBuild_header sql_GetBuild_None sql_SaveBuild_def is_zero_time_def)
  show "map_option header (sql_GetBuild x (sql_SaveBuild b s)) = map_option header (sql_GetBuild x s)"
    if "x \<noteq> br_ID b"
    using that by (simp add: sql_GetBuild_header sql_SaveBuild_def)
  show "map_option header (sql_GetBuild x (sql_UpdateBuildState y st fin s)) =
      (if x = y then map_option (\<lambda>b. header b\<lparr> br_State := st, br_FinishedAt := fin \<rparr>) (sql_GetBuild x s)
       else map_option header (sql_GetBuild x s))"
    by (auto simp: sql_GetBuild_def sql_UpdateBuildState_def split: option.splits)
  show "map_option header (sql_GetBuild x (sql_task t s)) = map_option header (sql_GetBuild x s)"
    by (auto simp: sql_GetBuild_header sql_task_def sql_UpdateTaskState_def split: option.splits sum.splits)
  show "map_option header (sql_GetBuild x (fst (sql_DeleteBuildsBefore c s))) =
      (case sql_GetBuild x s of None \<Rightarrow> None
       | Some b \<Rightarrow> if br_CreatedAt b < c then None else Some (header b))"
    unfolding sql_GetBuild_header
    using g by (auto simp: sql_GetBuild_def sql_DeleteBuildsBefore_def sql_good_def gget_filter
        split: option.split)
qed (simp_all add: sql_good_save sql_good_state sql_good_task sql_good_delete)

section \<open>Audit lists\<close>

lemma map_nth_drop: "k \<le> length xs \<Longrightarrow> map (\<lambda>i. xs ! (length xs - k + i)) [0 ..< k] = drop (length xs - k) xs"
  by (rule nth_equalityI) auto

lemma sort_desc_rev:
  assumes "sorted_wrt (\<lambda>a b. f a < f b) xs"
  shows "sort_key (\<lambda>a. - f a :: int) xs = rev xs"
proof (rule properties_for_sort_key)
  show "mset (rev xs) = mset xs" by simp
  show "sorted (map (\<lambda>a. - f a) (rev xs))"
  proof -
    have "sorted_wrt (\<lambda>a b. f b < f a) (rev xs)" using assms by (simp add: sorted_wrt_rev)
    then have "sorted_wrt (\<lambda>a b. - f a \<le> - f b) (rev xs)" by (rule sorted_wrt_mono_rel [rotated]) simp
    then show ?thesis by (simp add: sorted_map)
  qed
  fix k assume "k \<in> set (rev xs)"
  have "filter (\<lambda>x. - f k = - f x) (rev xs) = rev (filter (\<lambda>x. - f k = - f x) xs)" by (simp add: rev_filter)
  also have "length (filter (\<lambda>x. - f k = - f x) xs) \<le> 1"
    using assms by (induction xs) (auto simp: filter_empty_conv)
  then have "rev (filter (\<lambda>x. - f k = - f x) xs) = filter (\<lambda>x. - f k = - f x) xs"
    by (cases "filter (\<lambda>x. - f k = - f x) xs") auto
  finally show "filter (\<lambda>x. - f k = - f x) (rev xs) = filter (\<lambda>x. - f k = - f x) xs" .
qed

section \<open>Properties\<close>

text \<open>What the SQLite history says of a build: after a new build was saved with a creation time,
  any number of task reports and state changes of other builds may come and go; once its final
  state was stored, the build is found, with that state and finishing time, and with every other
  column as first saved.\<close>

theorem history_keeps_result:
  assumes "sql_good s" "sql_GetBuild (br_ID b) s = None" "br_CreatedAt b \<noteq> 0" "br_ID b \<noteq> []"
    and "list_all (spares (br_ID b)) (cs @ cs')"
  shows "map_option header (sql_GetBuild (br_ID b) (sql.after_calls cs'
      (sql_UpdateBuildState (br_ID b) st fin (sql.after_calls cs (sql_SaveBuild b s)))))
    = Some (header (b\<lparr> br_State := st, br_FinishedAt := fin \<rparr>))"
  using sql.saved_then_finished [OF assms] by simp

definition small_build :: "string \<Rightarrow> time \<Rightarrow> build_record" where
  "small_build x c = \<lparr> br_ID = x, br_RepoURL = [], br_RepoFullName = [], br_CommitSHA = [],
     br_Branch = ''main'', br_PRNumber = [], br_TriggeredBy = [], br_State = ''queued'',
     br_CreatedAt = c, br_StartedAt = 0, br_FinishedAt = 0, br_Tasks = [] \<rparr>"

definition small_report :: "string \<Rightarrow> string \<Rightarrow> string \<Rightarrow> task_record" where
  "small_report x b st = \<lparr> tr_ID = x, tr_BuildID = b, tr_Name = x, tr_State = st, tr_ExitCode = 0,
     tr_ErrorMessage = [], tr_StartedAt = 1, tr_FinishedAt = 2 \<rparr>"

theorem history_keeps_result_witness:
  "map_option br_State (map_option header (sql_GetBuild ''b1'' (sql_UpdateBuildState ''b1'' ''passed'' 9
     (sql_task (small_report ''t'' ''b1'' ''passed'') (sql_SaveBuild (small_build ''b1'' 5) empty_database)))))
   = Some ''passed''"
proof -
  have "sql_good empty_database" "sql_GetBuild ''b1'' empty_database = None" by code_simp+
  from history_keeps_result [OF this(1), of "small_build ''b1'' 5"
      "[Inr (small_report ''t'' ''b1'' ''passed'')]" "[]" "''passed''" 9] this(2)
  have "map_option header (sql_GetBuild ''b1'' (sql_UpdateBuildState ''b1'' ''passed'' 9
     (sql_task (small_report ''t'' ''b1'' ''passed'') (sql_SaveBuild (small_build ''b1'' 5) empty_database))))
     = Some (header ((small_build ''b1'' 5)\<lparr> br_State := ''passed'', br_FinishedAt := 9 \<rparr>))"
    by (simp add: small_build_def)
  then show ?thesis by (simp only: option.map header_def) (simp add: small_build_def)
qed

text \<open>Retention removes exactly the builds created before the cutoff from the SQLite history,
  together with their task rows, and returns how many there were; every other build is found as
  before and no task row is left without its build.\<close>

theorem delete_removes_exactly_old:
  assumes "sql_good s" "sql_DeleteBuildsBefore cutoff s = (s', n)"
  shows "sql_good s'
    \<and> (\<forall>x. map_option header (sql_GetBuild x s') =
         (case sql_GetBuild x s of None \<Rightarrow> None
          | Some b \<Rightarrow> if br_CreatedAt b < cutoff then None else Some (header b)))
    \<and> n = int (length (sq_builds s)) - int (length (sq_builds s'))
    \<and> (\<forall>k t. (k, t) \<in> set (sq_tasks s') \<longrightarrow> (k, t) \<in> set (sq_tasks s) \<and> gget (sq_builds s') (snd k) \<noteq> None)"
proof -
  have s': "s' = fst (sql_DeleteBuildsBefore cutoff s)" using assms(2) by simp
  have g: "sql_good s'" unfolding s' by (rule sql_good_delete [OF assms(1)])
  have "n = int (length (sq_builds s)) - int (length (sq_builds s'))"
    using assms(2) sum_length_filter_compl [of "\<lambda>(x, b). br_CreatedAt b < cutoff" "sq_builds s"]
    by (auto simp: sql_DeleteBuildsBefore_def case_prod_unfold)
  moreover have "(k, t) \<in> set (sq_tasks s) \<and> gget (sq_builds s') (snd k) \<noteq> None"
    if "(k, t) \<in> set (sq_tasks s')" for k t
    using that g assms(2) by (auto simp: sql_good_def list_all_iff sql_DeleteBuildsBefore_def)
  ultimately show ?thesis using g sql.delete_get [OF assms(1)] s' by blast
qed

theorem delete_removes_exactly_old_witness:
  "sql_good (fst (sql_DeleteBuildsBefore 7 (sql_SaveBuild (small_build ''b2'' 9)
     (sql_SaveBuild (small_build ''b1'' 5) empty_database))))"
proof -
  let ?s = "sql_SaveBuild (small_build ''b2'' 9) (sql_SaveBuild (small_build ''b1'' 5) empty_database)"
  have "sql_good ?s" by code_simp
  from delete_removes_exactly_old [OF this prod.collapse [symmetric], of 7] show ?thesis by blast
qed

text \<open>The two stores list the audit log in opposite orders. With the same entries, written at
  increasing times, and a positive limit, SQLite returns the newest entries first and the in-memory
  store returns the very same entries oldest first.\<close>

lemma audit_lists_reversed:
  assumes "sq_audit s = ms_audit m" "sorted_wrt (\<lambda>a b. au_TS a < au_TS b) (ms_audit m)" "0 < limit"
  shows "sql_ListAudit limit s = rev (mem_ListAudit limit m)"
proof -
  let ?n = "if limit > 0 \<and> int (length (ms_audit m)) > limit then nat limit else length (ms_audit m)"
  have n: "?n \<le> length (ms_audit m)" by auto
  have "mem_ListAudit limit m = drop (length (ms_audit m) - ?n) (ms_audit m)"
    unfolding mem_ListAudit_def Let_def by (rule map_nth_drop [OF n])
  moreover have "sql_ListAudit limit s = take (nat limit) (rev (ms_audit m))"
    using assms by (simp add: sql_ListAudit_def sql_limit_def sort_desc_rev)
  ultimately show ?thesis using assms(3) by (auto simp: take_rev)
qed

definition small_entry :: "string \<Rightarrow> audit_entry" where
  "small_entry a = \<lparr> au_ID = 0, au_TS = 0, au_Actor = a, au_Action = [], au_Resource = [], au_Detail = [] \<rparr>"

lemma audit_lists_reversed_example:
  "map au_Actor (mem_ListAudit 2 (mem_AppendAudit 3 (small_entry ''c'') (mem_AppendAudit 2 (small_entry ''b'')
      (mem_AppendAudit 1 (small_entry ''a'') new_mem_store)))) = [''b'', ''c'']
   \<and> map au_Actor (sql_ListAudit 2 (empty_database\<lparr> sq_audit := ms_audit
      (mem_AppendAudit 3 (small_entry ''c'') (mem_AppendAudit 2 (small_entry ''b'')
      (mem_AppendAudit 1 (small_entry ''a'') new_mem_store))) \<rparr>)) = [''c'', ''b'']"
proof -
  let ?m = "mem_AppendAudit 3 (small_entry ''c'') (mem_AppendAudit 2 (small_entry ''b'')
      (mem_AppendAudit 1 (small_entry ''a'') new_mem_store))"
  have "map au_Actor (mem_ListAudit 2 ?m) = [''b'', ''c'']" by code_simp
  moreover have "sorted_wrt (\<lambda>a b. au_TS a < au_TS b) (ms_audit ?m)" by code_simp
  ultimately show ?thesis
    using audit_lists_reversed [of "empty_database\<lparr> sq_audit := ms_audit ?m \<rparr>" ?m 2]
    by (simp add: rev_map [symmetric])
qed

text \<open>The stores do not agree on saving: saving a build that is already there replaces it in
  memory and is ignored by SQLite, and the tasks of the saved record are kept in memory and dropped
  by SQLite.\<close>

theorem stores_disagree_on_save:
  assumes "gget (sq_builds s) (br_ID b) = Some old" "sql_good s"
  shows "sql_SaveBuild b s = s \<and> mem_GetBuild (br_ID b) (mem_SaveBuild b m) = Some b
    \<and> (\<forall>b'. gget (sq_builds s) (br_ID b') = None \<and> br_CreatedAt b' \<noteq> 0 \<longrightarrow>
         map_option br_Tasks (sql_GetBuild (br_ID b') (sql_SaveBuild b' s)) = Some [])"
proof -
  have "map_option br_Tasks (sql_GetBuild (br_ID b') (sql_SaveBuild b' s)) = Some []"
    if "gget (sq_builds s) (br_ID b') = None" "br_CreatedAt b' \<noteq> 0" for b'
  proof -
    have "tr_BuildID t \<noteq> br_ID b'" if "(k, t) \<in> set (sq_tasks s)" for k t
      using that assms(2) \<open>gget (sq_builds s) (br_ID b') = None\<close>
      by (fastforce simp: sql_good_def list_all_iff)
    then show ?thesis
      using that by (auto simp: sql_GetBuild_def sql_SaveBuild_def is_zero_time_def filter_empty_conv)
  qed
  then show ?thesis using assms(1) by (simp add: sql_SaveBuild_def mem_GetBuild_def mem_SaveBuild_def)
qed

theorem stores_disagree_on_save_witness:
  "sql_SaveBuild (small_build ''b1'' 8) (sql_SaveBuild (small_build ''b1'' 5) empty_database)
     = sql_SaveBuild (small_build ''b1'' 5) empty_database"
proof -
  let ?s = "sql_SaveBuild (small_build ''b1'' 5) empty_database"
  have "gget (sq_builds ?s) (br_ID (small_build ''b1'' 8)) = Some (small_build ''b1'' 5)" "sql_good ?s"
    by code_simp+
  then show ?thesis using stores_disagree_on_save by blast
qed

section \<open>The value of the interface\<close>

text \<open>The store a scheduler was given: none, or one of the implementations.\<close>

datatype any_store = NoStore | MemBacked mem_store | SqliteBacked sqlite_store

fun store_SaveBuild :: "build_record \<Rightarrow> any_store \<Rightarrow> any_store" where
  "store_SaveBuild b NoStore = NoStore"
| "store_SaveBuild b (MemBacked m) = MemBacked (mem_SaveBuild b m)"
| "store_SaveBuild b (SqliteBacked s) = SqliteBacked (sql_SaveBuild b s)"

fun store_UpdateBuildState :: "string \<Rightarrow> string \<Rightarrow> time \<Rightarrow> any_store \<Rightarrow> any_store" where
  "store_UpdateBuildState x st fin NoStore = NoStore"
| "store_UpdateBuildState x st fin (MemBacked m) = MemBacked (mem_UpdateBuildState x st fin m)"
| "store_UpdateBuildState x st fin (SqliteBacked s) = SqliteBacked (sql_UpdateBuildState x st fin s)"

text \<open>The scheduler logs an error of the store and goes on.\<close>

fun store_UpdateTaskState :: "task_record \<Rightarrow> any_store \<Rightarrow> any_store" where
  "store_UpdateTaskState t NoStore = NoStore"
| "store_UpdateTaskState t (MemBacked m) = MemBacked (mem_UpdateTaskState t m)"
| "store_UpdateTaskState t (SqliteBacked s) = SqliteBacked (sql_task t s)"

fun store_GetBuild :: "string \<Rightarrow> any_store \<Rightarrow> build_record option" where
  "store_GetBuild x NoStore = None"
| "store_GetBuild x (MemBacked m) = mem_GetBuild x m"
| "store_GetBuild x (SqliteBacked s) = sql_GetBuild x s"

fun store_ListBuilds :: "string list \<Rightarrow> int \<Rightarrow> any_store \<Rightarrow> build_record list" where
  "store_ListBuilds ks limit NoStore = []"
| "store_ListBuilds ks limit (MemBacked m) = mem_ListBuilds ks limit m"
| "store_ListBuilds ks limit (SqliteBacked s) = sql_ListBuilds limit s"

end
