(* ===== verification/Scm_Types.thy ===== *)
theory Scm_Types
  imports Relay_Prelude
begin

text \<open>
  The canonical events and reports of a git host, \<open>pkg/scm/types.go\<close>.  The integer enumerations
  are datatypes with the declared constants as constructors; a nil pointer is \<open>None\<close>.
\<close>

datatype provider = ProviderUnknown | ProviderGitHub | ProviderGitLab

fun provider_string :: "provider \<Rightarrow> string" where
  "provider_string ProviderGitHub = ''github''"
| "provider_string ProviderGitLab = ''gitlab''"
| "provider_string ProviderUnknown = ''unknown''"

datatype event_type = EventUnknown | EventPush | EventPullRequest | EventComment

fun event_type_string :: "event_type \<Rightarrow> string" where
  "event_type_string EventPush = ''push''"
| "event_type_string EventPullRequest = ''pull_request''"
| "event_type_string EventComment = ''comment''"
| "event_type_string EventUnknown = ''unknown''"

record commit =
  co_SHA :: string
  co_Message :: string
  co_Author :: string
  co_Added :: "string list"
  co_Modified :: "string list"
  co_Removed :: "string list"

record push_event =
  pu_RepoURL :: string
  pu_RepoFullName :: string
  pu_Ref :: string
  pu_BeforeSHA :: string
  pu_AfterSHA :: string
  pu_Pusher :: string
  pu_Commits :: "commit list"

record pull_request_event =
  pr_RepoURL :: string
  pr_RepoFullName :: string
  pr_Action :: string
  pr_Number :: u32
  pr_Title :: string
  pr_HeadSHA :: string
  pr_HeadBranch :: string
  pr_BaseBranch :: string
  pr_Author :: string

record comment_event =
  ce_RepoURL :: string
  ce_RepoFullName :: string
  ce_PRNumber :: u32
  ce_Body :: string
  ce_Author :: string
  ce_HeadSHA :: string

record event =
  ev_ID :: string
  ev_Provider :: provider
  ev_ReceivedAt :: time
  ev_Type :: event_type
  ev_Push :: "push_event option"
  ev_PR :: "pull_request_event option"
  ev_Comment :: "comment_event option"

datatype status_state =
    StatusPending
  | StatusRunning
  | StatusSuccess
  | StatusFailure
  | StatusError

fun status_state_string :: "status_state \<Rightarrow> string" where
  "status_state_string StatusPending = ''pending''"
| "status_state_string StatusRunning = ''running''"
| "status_state_string StatusSuccess = ''success''"
| "status_state_string StatusFailure = ''failure''"
| "status_state_string StatusError = ''error''"

record status_report =
  sr_Provider :: provider
  sr_RepoFullName :: string
  sr_CommitSHA :: string
  sr_State :: status_state
  sr_Context :: string
  sr_Description :: string
  sr_TargetURL :: string

record pr_comment =
  pc_RepoFullName :: string
  pc_PRNumber :: string
  pc_Body :: string

record webhook_config =
  wc_ID :: string
  wc_RepoFullName :: string
  wc_Provider :: provider
  wc_WebhookSecret :: string
  wc_AccessToken :: string
  wc_PipelineFile :: string
  wc_TriggerBranches :: "string list"
  wc_TriggerOnPR :: bool
  wc_TriggerOnPush :: bool

end
