(* ===== verification/Scheduler.thy ===== *)
theory Scheduler
  imports Graph_Live Registry Build_Store Scm_Types
begin

text \<open>
  The scheduler, \<open>pkg/scheduler/scheduler.go\<close>: its state, which includes the registry and the store
  it was given, and its operations under its lock.  What the environment decides is the record
  \<open>sched_env\<close>: the outcome of the assignment callback, whether the context is done at a task, the
  clock at a task, and the orders in which Go ranges over maps.  Logging is left out; the errors the
  code only logs are the branches that go on.
\<close>

section \<open>State\<close>

record build =
  b_ID :: string
  b_Graph :: graph
  b_RepoURL :: string
  b_RepoFullName :: string
  b_SCMProvider :: provider
  b_SCMToken :: string
  b_CommitSHA :: string
  b_Branch :: string
  b_PRNumber :: string
  b_TriggeredBy :: string
  b_CreatedAt :: time
  b_StartedAt :: time
  b_FinishedAt :: time

record task_result_report =
  rr_BuildID :: string
  rr_TaskID :: string
  rr_State :: task_state
  rr_ExitCode :: int
  rr_Error :: string

record build_completion =
  bc_BuildID :: string
  bc_Passed :: bool
  bc_Build :: "build option"

record scheduler =
  s_builds :: "(string, build) gomap"
  s_registry :: registry
  s_store :: any_store
  s_taskWorker :: "(string, string) gomap"
  s_taskBuild :: "(string, string) gomap"
  s_buildWorkers :: "(string, string list) gomap"

record task_assignment =
  as_Task :: task
  as_WorkerID :: string
  as_BuildID :: string

datatype sched_error =
    BuildAlreadyExists string
  | BuildNotFound string
  | TaskNotFound string string
  | CompletingTask string dag_error
  | NoActiveWorkers
  | NoWorkerFits demand

text \<open>Build and task select the value; the task is empty for what happens once per build.\<close>

record sched_env =
  e_assign :: "task_assignment \<Rightarrow> bool"
  e_ctx_done :: "string \<Rightarrow> string \<Rightarrow> bool"
  e_now :: "string \<Rightarrow> string \<Rightarrow> time"
  e_mark_order :: "string \<Rightarrow> string list"
  e_ready_order :: "string \<Rightarrow> string list"
  e_worker_order :: "string \<Rightarrow> string \<Rightarrow> string list"

definition new_scheduler :: "registry \<Rightarrow> scheduler" where
  "new_scheduler r = \<lparr> s_builds = [], s_registry = r, s_store = NoStore, s_taskWorker = [],
     s_taskBuild = [], s_buildWorkers = [] \<rparr>"

definition set_store :: "any_store \<Rightarrow> scheduler \<Rightarrow> scheduler" where
  "set_store st s = s\<lparr> s_store := st \<rparr>"

section \<open>Records for the store\<close>

definition task_to_record :: "task \<Rightarrow> string \<Rightarrow> task_record" where
  "task_to_record t buildID = \<lparr> tr_ID = t_ID t, tr_BuildID = buildID, tr_Name = t_Name t,
     tr_State = task_state_string (t_State t), tr_ExitCode = t_ExitCode t,
     tr_ErrorMessage = t_ErrorMessage t, tr_StartedAt = t_StartedAt t,
     tr_FinishedAt = t_FinishedAt t \<rparr>"

definition build_to_record :: "string list \<Rightarrow> build \<Rightarrow> string \<Rightarrow> build_record" where
  "build_to_record ks b state = \<lparr> br_ID = b_ID b, br_RepoURL = b_RepoURL b,
     br_RepoFullName = b_RepoFullName b, br_CommitSHA = b_CommitSHA b, br_Branch = b_Branch b,
     br_PRNumber = b_PRNumber b, br_TriggeredBy = b_TriggeredBy b, br_State = state,
     br_CreatedAt = b_CreatedAt b, br_StartedAt = b_StartedAt b, br_FinishedAt = b_FinishedAt b,
     br_Tasks = map (\<lambda>t. task_to_record t (b_ID b)) (tasks_of ks (b_Graph b)) \<rparr>"

section \<open>Submission\<close>

definition put_build :: "string \<Rightarrow> build \<Rightarrow> scheduler \<Rightarrow> scheduler" where
  "put_build x b s = s\<lparr> s_builds := gput x b (s_builds s) \<rparr>"

fun index_tasks :: "string \<Rightarrow> task list \<Rightarrow> (string, string) gomap \<Rightarrow> (string, string) gomap" where
  "index_tasks b [] m = m"
| "index_tasks b (t # ts) m = index_tasks b ts (gput (t_ID t) b m)"

definition submit_build ::
    "string list \<Rightarrow> string list \<Rightarrow> time \<Rightarrow> build \<Rightarrow> scheduler \<Rightarrow> sched_error + scheduler" where
  "submit_build ks ks' now b s =
     (if gget (s_builds s) (b_ID b) \<noteq> None then Inl (BuildAlreadyExists (b_ID b))
      else
        let b' = b\<lparr> b_CreatedAt := now \<rparr>;
            s1 = put_build (b_ID b) b' s;
            s2 = s1\<lparr> s_taskBuild :=
                   index_tasks (b_ID b) (tasks_of ks (b_Graph b')) (s_taskBuild s1) \<rparr>
        in Inr (s2\<lparr> s_store := store_SaveBuild (build_to_record ks' b' ''queued'') (s_store s2) \<rparr>))"

section \<open>Choosing a worker\<close>

definition task_demand :: "task \<Rightarrow> demand" where
  "task_demand t = \<lparr> dm_cpuMilli = t_CPUMillicores t, dm_memMB = t_MemoryMB t, dm_diskMB = t_DiskMB t \<rparr>"

text \<open>The score is a sum of three 32-bit differences in 64-bit arithmetic.\<close>

definition score :: "demand \<Rightarrow> info \<Rightarrow> u64" where
  "score d w = ucast (wi_AvailableCPU w - dm_cpuMilli d)
     + ucast (wi_AvailableMemoryMB w - dm_memMB d) + ucast (wi_AvailableDiskMB w - dm_diskMB d)"

fun best_fit :: "demand \<Rightarrow> info list \<Rightarrow> info option \<Rightarrow> u64 \<Rightarrow> info option" where
  "best_fit d [] best bestScore = best"
| "best_fit d (w # ws) best bestScore =
     (if \<not> can_accept_task d w then best_fit d ws best bestScore
      else if score d w < bestScore then best_fit d ws (Some w) (score d w)
      else best_fit d ws best bestScore)"

definition pick_worker :: "string list \<Rightarrow> task \<Rightarrow> registry \<Rightarrow> sched_error + string" where
  "pick_worker ks t r =
     (let active = active_workers ks r
      in if active = [] then Inl NoActiveWorkers
         else case best_fit (task_demand t) active None (- 1) of
                None \<Rightarrow> Inl (NoWorkerFits (task_demand t))
              | Some w \<Rightarrow> Inr (wi_ID w))"

section \<open>One scheduling cycle\<close>

definition build_graph :: "scheduler \<Rightarrow> string \<Rightarrow> graph" where
  "build_graph s x = (case gget (s_builds s) x of None \<Rightarrow> new_graph | Some b \<Rightarrow> b_Graph b)"

definition set_graph :: "string \<Rightarrow> graph \<Rightarrow> scheduler \<Rightarrow> scheduler" where
  "set_graph x g s =
     (case gget (s_builds s) x of None \<Rightarrow> s | Some b \<Rightarrow> put_build x (b\<lparr> b_Graph := g \<rparr>) s)"

definition note_worker :: "string \<Rightarrow> string \<Rightarrow> string \<Rightarrow> scheduler \<Rightarrow> scheduler" where
  "note_worker buildID taskID workerID s = s\<lparr>
     s_taskWorker := gput taskID workerID (s_taskWorker s),
     s_buildWorkers := gput buildID (sadd workerID (set_of_key (s_buildWorkers s) buildID))
                         (s_buildWorkers s) \<rparr>"

text \<open>The body of the inner loop of \<open>Schedule\<close> after the check of the context; the flag says whether
  the task counts as assigned.\<close>

definition assign_task :: "sched_env \<Rightarrow> string \<Rightarrow> string \<Rightarrow> scheduler \<Rightarrow> scheduler \<times> bool" where
  "assign_task env buildID x s =
     (case gget (g_tasks (build_graph s buildID)) x of
        None \<Rightarrow> (s, False)
      | Some t \<Rightarrow>
     (case pick_worker (e_worker_order env buildID x) t (s_registry s) of
        Inl _ \<Rightarrow> (s, False)
      | Inr workerID \<Rightarrow>
     (case reserve_capacity workerID (task_demand t) (s_registry s) of
        Inl _ \<Rightarrow> (s, False)
      | Inr r1 \<Rightarrow>
     (case transition_task (e_now env buildID x) TaskScheduled x (build_graph s buildID) of
        Inl _ \<Rightarrow> (s\<lparr> s_registry := release_capacity workerID (task_demand t) r1 \<rparr>, False)
      | Inr g1 \<Rightarrow>
          let s1 = note_worker buildID x workerID (set_graph buildID g1 (s\<lparr> s_registry := r1 \<rparr>));
              a = \<lparr> as_Task = the (gget (g_tasks g1) x), as_WorkerID = workerID,
                    as_BuildID = buildID \<rparr>
          in if \<not> e_assign env a
             then (s1\<lparr> s_registry := release_capacity workerID (task_demand t) (s_registry s1) \<rparr>, False)
             else (case transition_task (e_now env buildID x) TaskRunning x g1 of
                     Inl _ \<Rightarrow> (s1, True)
                   | Inr g2 \<Rightarrow> (set_graph buildID g2 s1, True))))))"

text \<open>The flag of the result says that the context was done and \<open>Schedule\<close> returned early.\<close>

fun assign_tasks ::
    "sched_env \<Rightarrow> string \<Rightarrow> string list \<Rightarrow> scheduler \<Rightarrow> nat \<Rightarrow> scheduler \<times> nat \<times> bool" where
  "assign_tasks env buildID [] s n = (s, n, False)"
| "assign_tasks env buildID (x # xs) s n =
     (if e_ctx_done env buildID x then (s, n, True)
      else case assign_task env buildID x s of
             (s', ok) \<Rightarrow> assign_tasks env buildID xs s' (if ok then n + 1 else n))"

fun schedule_builds ::
    "sched_env \<Rightarrow> string list \<Rightarrow> scheduler \<Rightarrow> nat \<Rightarrow> scheduler \<times> nat \<times> bool" where
  "schedule_builds env [] s n = (s, n, False)"
| "schedule_builds env (x # xs) s n =
     (case gget (s_builds s) x of
        None \<Rightarrow> schedule_builds env xs s n
      | Some b \<Rightarrow>
          (case mark_ready (e_mark_order env x) (e_ready_order env x) (b_Graph b) of
             (g, rdy) \<Rightarrow>
               (let s1 = put_build x (b\<lparr> b_Graph := g \<rparr>) s
                in if rdy = [] then schedule_builds env xs s1 n
                   else
                     let s2 = (if is_zero_time (b_StartedAt b)
                               then put_build x (b\<lparr> b_Graph := g, b_StartedAt := e_now env x [] \<rparr>) s1
                               else s1)
                     in case assign_tasks env x rdy s2 n of
                          (s3, n', done') \<Rightarrow>
                            if done' then (s3, n', True) else schedule_builds env xs s3 n')))"

definition schedule :: "sched_env \<Rightarrow> string list \<Rightarrow> scheduler \<Rightarrow> scheduler \<times> nat \<times> bool" where
  "schedule env ks s = schedule_builds env ks s 0"

section \<open>Results, cancellation and dead workers\<close>

definition release_task :: "string \<Rightarrow> task \<Rightarrow> scheduler \<Rightarrow> scheduler" where
  "release_task x t s =
     (case gget (s_taskWorker s) x of
        None \<Rightarrow> s
      | Some workerID \<Rightarrow> s\<lparr>
          s_registry := release_capacity workerID (task_demand t) (s_registry s),
          s_taskWorker := gdel x (s_taskWorker s) \<rparr>)"

definition no_completion :: build_completion where
  "no_completion = \<lparr> bc_BuildID = [], bc_Passed = False, bc_Build = None \<rparr>"

text \<open>The state is returned beside the error: the capacity is released before \<open>Complete\<close> may fail.\<close>

definition handle_task_result ::
    "(string \<Rightarrow> string list) \<Rightarrow> string list \<Rightarrow> time \<Rightarrow> time \<Rightarrow> task_result_report \<Rightarrow> scheduler
       \<Rightarrow> scheduler \<times> (sched_error + build_completion)" where
  "handle_task_result ord ks now now' rep s =
     (case gget (s_builds s) (rr_BuildID rep) of
        None \<Rightarrow> (s, Inl (BuildNotFound (rr_BuildID rep)))
      | Some b \<Rightarrow>
     (case get_task (b_Graph b) (rr_TaskID rep) of
        None \<Rightarrow> (s, Inl (TaskNotFound (rr_TaskID rep) (rr_BuildID rep)))
      | Some t \<Rightarrow>
          let s1 = release_task (rr_TaskID rep) t s
          in case complete ord ks now (rr_TaskID rep) (rr_State rep) (rr_ExitCode rep) (rr_Error rep)
                    (b_Graph b) of
               Inl e \<Rightarrow> (s1, Inl (CompletingTask (rr_TaskID rep) e))
             | Inr (g, newlyReady) \<Rightarrow>
                 let s2 = put_build (rr_BuildID rep) (b\<lparr> b_Graph := g \<rparr>) s1;
                     t' = the (get_task g (rr_TaskID rep));
                     s3 = s2\<lparr> s_store :=
                            store_UpdateTaskState (task_to_record t' (rr_BuildID rep)) (s_store s2) \<rparr>
                 in if is_complete g
                    then
                      let b' = b\<lparr> b_Graph := g, b_FinishedAt := now' \<rparr>;
                          passed = is_passed g;
                          state = (if passed then ''passed'' else ''failed'');
                          s4 = put_build (rr_BuildID rep) b' s3
                      in (s4\<lparr> s_store := store_UpdateBuildState (b_ID b') state now' (s_store s4) \<rparr>,
                          Inr \<lparr> bc_BuildID = b_ID b', bc_Passed = passed, bc_Build = Some b' \<rparr>)
                    else (s3, Inr no_completion)))"

fun release_tasks :: "task list \<Rightarrow> scheduler \<Rightarrow> scheduler" where
  "release_tasks [] s = s"
| "release_tasks (t # ts) s = release_tasks ts (release_task (t_ID t) t s)"

definition cancel_build :: "string list \<Rightarrow> time \<Rightarrow> string \<Rightarrow> scheduler \<Rightarrow> sched_error + scheduler" where
  "cancel_build ks now buildID s =
     (case gget (s_builds s) buildID of
        None \<Rightarrow> Inl (BuildNotFound buildID)
      | Some b \<Rightarrow>
          let s1 = release_tasks (tasks_of ks (b_Graph b)) s;
              s2 = put_build buildID (b\<lparr> b_Graph := cancel (b_Graph b), b_FinishedAt := now \<rparr>) s1
          in Inr (s2\<lparr> s_store := store_UpdateBuildState buildID ''cancelled'' now (s_store s2) \<rparr>))"

definition get_build :: "string \<Rightarrow> scheduler \<Rightarrow> build option" where
  "get_build x s = gget (s_builds s) x"

text \<open>\<open>BuildWorkers\<close> returns the workers of a build and forgets them.\<close>

definition build_workers :: "string \<Rightarrow> scheduler \<Rightarrow> scheduler \<times> string list" where
  "build_workers x s =
     (s\<lparr> s_buildWorkers := gdel x (s_buildWorkers s) \<rparr>, set_of_key (s_buildWorkers s) x)"

definition find_build_by_task :: "string \<Rightarrow> scheduler \<Rightarrow> string option" where
  "find_build_by_task x s = gget (s_taskBuild s) x"

text \<open>The history, empty without a store.\<close>

definition store_list_builds :: "string list \<Rightarrow> int \<Rightarrow> scheduler \<Rightarrow> build_record list" where
  "store_list_builds ks limit s = store_ListBuilds ks limit (s_store s)"

definition store_get_build :: "string \<Rightarrow> scheduler \<Rightarrow> build_record option" where
  "store_get_build x s = store_GetBuild x (s_store s)"

definition list_builds :: "string list \<Rightarrow> scheduler \<Rightarrow> build list" where
  "list_builds ks s = List.map_filter (gget (s_builds s)) ks"

text \<open>The loop of \<open>HandleDeadWorker\<close> over \<open>taskWorker\<close>, from which it deletes as it goes. A failing
  \<open>Complete\<close> is ignored. A task without an entry in \<open>taskBuild\<close> reads as the empty build ID.\<close>

definition fail_task ::
    "(string \<Rightarrow> string \<Rightarrow> string list) \<Rightarrow> (string \<Rightarrow> string \<Rightarrow> string list) \<Rightarrow> time \<Rightarrow> string \<Rightarrow> string
       \<Rightarrow> scheduler \<Rightarrow> scheduler" where
  "fail_task ord kids now workerID x s =
     (if gget (s_taskWorker s) x \<noteq> Some workerID then s
      else
        let buildID = (case gget (s_taskBuild s) x of None \<Rightarrow> [] | Some b \<Rightarrow> b)
        in case gget (s_builds s) buildID of
             None \<Rightarrow> s
           | Some b \<Rightarrow>
               let g = (case complete (ord buildID) (kids buildID x) now x TaskFailed (- 1)
                               (''worker died: '' @ workerID) (b_Graph b) of
                          Inl _ \<Rightarrow> b_Graph b
                        | Inr (g', _) \<Rightarrow> g')
               in (put_build buildID (b\<lparr> b_Graph := g \<rparr>) s)\<lparr>
                    s_taskWorker := gdel x (s_taskWorker s) \<rparr>)"

fun fail_tasks ::
    "(string \<Rightarrow> string \<Rightarrow> string list) \<Rightarrow> (string \<Rightarrow> string \<Rightarrow> string list) \<Rightarrow> time \<Rightarrow> string
       \<Rightarrow> string list \<Rightarrow> scheduler \<Rightarrow> scheduler" where
  "fail_tasks ord kids now workerID [] s = s"
| "fail_tasks ord kids now workerID (x # xs) s =
     fail_tasks ord kids now workerID xs (fail_task ord kids now workerID x s)"

definition handle_dead_worker ::
    "(string \<Rightarrow> string \<Rightarrow> string list) \<Rightarrow> (string \<Rightarrow> string \<Rightarrow> string list) \<Rightarrow> time \<Rightarrow> string list
       \<Rightarrow> string \<Rightarrow> scheduler \<Rightarrow> scheduler" where
  "handle_dead_worker ord kids now ks workerID s = fail_tasks ord kids now workerID ks s"

end
