(* ===== verification/Scheduler_Runs.thy ===== *)
theory Scheduler_Runs
  imports Scheduler
begin

text \<open>
  The scheduler refines the task graph: whatever it does to a build is a run of \<open>graph_step\<close>, so the
  safety and termination of graph runs hold for every build of a reachable scheduler.  The choice of
  a worker is the best fit.
\<close>

section \<open>Composing runs\<close>

lemma graph_run_append: "graph_run g es' g' \<Longrightarrow> graph_run g0 es g \<Longrightarrow> graph_run g0 (es @ es') g'"
proof (induction rule: graph_run.induct)
  case (run_step es' g1 e g2)
  then have "graph_run g0 ((es @ es') @ [e]) g2" by (blast intro: graph_run.run_step)
  then show ?case by simp
qed simp

lemma graph_run_one: "graph_step g e g' \<Longrightarrow> graph_run g [e] g'"
  using run_step [OF run_start, of g e g'] by simp

text \<open>What a build was submitted with; the rest is its progress.\<close>

definition build_origin :: "build \<Rightarrow> build" where
  "build_origin b = b\<lparr> b_Graph := new_graph, b_StartedAt := 0, b_FinishedAt := 0 \<rparr>"

lemma build_origin_update [simp]:
  "build_origin (b\<lparr> b_Graph := g \<rparr>) = build_origin b"
  "build_origin (b\<lparr> b_StartedAt := t \<rparr>) = build_origin b"
  "build_origin (b\<lparr> b_FinishedAt := t \<rparr>) = build_origin b"
  by (simp_all add: build_origin_def)

lemma build_origin_ID: "build_origin b' = build_origin b \<Longrightarrow> b_ID b' = b_ID b"
  unfolding build_origin_def by (drule arg_cong [of _ _ b_ID]) simp

text \<open>Every build of the first state is still there, its graph moved along by graph steps.\<close>

definition evolves :: "scheduler \<Rightarrow> scheduler \<Rightarrow> bool" where
  "evolves s s' \<longleftrightarrow> (\<forall>x. case gget (s_builds s) x of
      None \<Rightarrow> gget (s_builds s') x = None
    | Some b \<Rightarrow> (\<exists>b' es. gget (s_builds s') x = Some b' \<and> build_origin b' = build_origin b
        \<and> graph_run (b_Graph b) es (b_Graph b')))"

lemma evolvesI:
  assumes "\<And>x. gget (s_builds s) x = None \<Longrightarrow> gget (s_builds s') x = None"
    and "\<And>x b. gget (s_builds s) x = Some b \<Longrightarrow>
      \<exists>b' es. gget (s_builds s') x = Some b' \<and> build_origin b' = build_origin b
        \<and> graph_run (b_Graph b) es (b_Graph b')"
  shows "evolves s s'"
  using assms unfolding evolves_def by (auto split: option.split)

lemma evolves_same: "s_builds s' = s_builds s \<Longrightarrow> evolves s s'"
  by (rule evolvesI) (auto intro: run_start)

lemma evolves_at: "evolves s s' \<Longrightarrow> (case gget (s_builds s) x of
      None \<Rightarrow> gget (s_builds s') x = None
    | Some b \<Rightarrow> (\<exists>b' es. gget (s_builds s') x = Some b' \<and> build_origin b' = build_origin b
        \<and> graph_run (b_Graph b) es (b_Graph b')))"
  unfolding evolves_def by (rule spec)

lemma evolvesD_origin: "evolves s s' \<Longrightarrow> gget (s_builds s) x = Some b \<Longrightarrow>
    \<exists>b' es. gget (s_builds s') x = Some b' \<and> build_origin b' = build_origin b
      \<and> graph_run (b_Graph b) es (b_Graph b')"
  using evolves_at [of s s' x] by simp

lemma evolvesD: "evolves s s' \<Longrightarrow> gget (s_builds s) x = Some b \<Longrightarrow>
    \<exists>b' es. gget (s_builds s') x = Some b' \<and> graph_run (b_Graph b) es (b_Graph b')"
  using evolvesD_origin by blast

lemma evolvesD_None: "evolves s s' \<Longrightarrow> gget (s_builds s) x = None \<Longrightarrow> gget (s_builds s') x = None"
  using evolves_at [of s s' x] by simp

lemma evolves_cong: "evolves s s1 \<Longrightarrow> s_builds s2 = s_builds s1 \<Longrightarrow> evolves s s2"
  unfolding evolves_def by (erule ssubst)

lemma evolves_trans:
  assumes a: "evolves s s'" and b: "evolves s' s''"
  shows "evolves s s''"
proof (rule evolvesI)
  fix x
  show "gget (s_builds s'') x = None" if "gget (s_builds s) x = None"
    using that evolvesD_None [OF a] evolvesD_None [OF b] by blast
  fix bd assume "gget (s_builds s) x = Some bd"
  from evolvesD_origin [OF a this] obtain b' es where
    b': "gget (s_builds s') x = Some b'" "build_origin b' = build_origin bd"
      "graph_run (b_Graph bd) es (b_Graph b')" by blast
  from evolvesD_origin [OF b b'(1)] obtain b'' es' where
    b'': "gget (s_builds s'') x = Some b''" "build_origin b'' = build_origin b'"
      "graph_run (b_Graph b') es' (b_Graph b'')" by blast
  show "\<exists>b'' es. gget (s_builds s'') x = Some b'' \<and> build_origin b'' = build_origin bd
      \<and> graph_run (b_Graph bd) es (b_Graph b'')"
    using b'' b'(2) graph_run_append [OF b''(3) b'(3)] by auto
qed

lemma evolves_put:
  assumes "gget (s_builds s) x = Some b" "graph_run (b_Graph b) es (b_Graph b')"
    "s_builds s' = gput x b' (s_builds s)" "build_origin b' = build_origin b"
  shows "evolves s s'"
  by (rule evolvesI) (use assms in \<open>auto intro: run_start split: if_splits\<close>)

lemma evolves_set_graph:
  assumes "graph_run (build_graph s x) es g"
  shows "evolves s (set_graph x g s)"
proof (cases "gget (s_builds s) x")
  case None
  then show ?thesis by (simp add: set_graph_def evolves_same)
next
  case (Some b)
  then show ?thesis
    using assms by (intro evolves_put [OF Some, of es "b\<lparr> b_Graph := g \<rparr>"])
      (simp_all add: set_graph_def put_build_def build_graph_def)
qed

lemma evolves_gkeys:
  "evolves s s' \<Longrightarrow> gget (s_builds s) x = Some b \<Longrightarrow>
     \<exists>b'. gget (s_builds s') x = Some b' \<and> gkeys (g_tasks (b_Graph b')) = gkeys (g_tasks (b_Graph b))
       \<and> g_edges (b_Graph b') = g_edges (b_Graph b)"
  by (drule (1) evolvesD) (metis graph_run_frame statics_gkeys)

section \<open>The scheduling cycle\<close>

text \<open>The orders of the environment are possible orders of the maps they are used for.\<close>

definition env_ok :: "sched_env \<Rightarrow> scheduler \<Rightarrow> bool" where
  "env_ok env s \<longleftrightarrow> (\<forall>x b. gget (s_builds s) x = Some b \<longrightarrow>
      range_order (g_tasks (b_Graph b)) (e_mark_order env x)
      \<and> range_order (g_tasks (b_Graph b)) (e_ready_order env x))"

lemma env_ok_evolves:
  assumes "env_ok env s" "evolves s s'"
  shows "env_ok env s'"
  unfolding env_ok_def
proof (intro allI impI)
  fix x b' assume b': "gget (s_builds s') x = Some b'"
  then obtain b where b: "gget (s_builds s) x = Some b"
    using evolvesD_None [OF assms(2)] by (cases "gget (s_builds s) x") auto
  from evolves_gkeys [OF assms(2) b] b'
  have "gkeys (g_tasks (b_Graph b')) = gkeys (g_tasks (b_Graph b))" by simp
  then show "range_order (g_tasks (b_Graph b')) (e_mark_order env x)
      \<and> range_order (g_tasks (b_Graph b')) (e_ready_order env x)"
    using assms(1) b by (simp add: env_ok_def range_order_def)
qed

lemma s_builds_set_graph_cong:
  "s_builds s' = s_builds s \<Longrightarrow> s_builds (set_graph x g s') = s_builds (set_graph x g s)"
  by (simp add: set_graph_def put_build_def split: option.split)

lemma run_moves:
  assumes "transition_task a TaskScheduled x g = Inr g1"
  shows "graph_run g [EvMove TaskScheduled x] g1"
    and "transition_task b TaskRunning x g1 = Inr g2 \<Longrightarrow> graph_run g1 [EvMove TaskRunning x] g2"
  using assms by (auto intro!: graph_run_one step_move)

lemma set_graph_twice: "s_builds (set_graph x g' (set_graph x g s)) = s_builds (set_graph x g' s)"
proof (cases "gget (s_builds s) x")
  case (Some b)
  have "AList.update x c (AList.update x d m) = AList.update x c m" for c d :: build and m
    by (induction m) auto
  then have "gput x c (gput x d m) = gput x c m" for c d :: build and m by (simp add: gput_def)
  then show ?thesis using Some by (simp add: set_graph_def put_build_def)
qed (simp add: set_graph_def)

lemma build_graph_set: "gget (s_builds s) x \<noteq> None \<Longrightarrow> build_graph (set_graph x g s) x = g"
  by (auto simp: set_graph_def build_graph_def put_build_def)

lemma evolves_assign_task: "evolves s (fst (assign_task env b x s))"
proof (cases "gget (g_tasks (build_graph s b)) x")
  case None
  then show ?thesis by (simp add: assign_task_def evolves_same)
next
  case (Some t)
  show ?thesis
  proof (cases "pick_worker (e_worker_order env b x) t (s_registry s)")
    case (Inl e)
    then show ?thesis using Some by (simp add: assign_task_def evolves_same)
  next
    case pick: (Inr wid)
    show ?thesis
    proof (cases "reserve_capacity wid (task_demand t) (s_registry s)")
      case (Inl e)
      then show ?thesis using Some pick by (simp add: assign_task_def evolves_same)
    next
      case res: (Inr r1)
      show ?thesis
      proof (cases "transition_task (e_now env b x) TaskScheduled x (build_graph s b)")
        case (Inl e)
        then show ?thesis using Some pick res by (simp add: assign_task_def evolves_same)
      next
        case g1: (Inr g1)
        have e1: "evolves s (set_graph b g1 s)"
          by (rule evolves_set_graph [OF run_moves(1) [OF g1]])
        have e2: "evolves s (set_graph b g2 s)" if "transition_task (e_now env b x) TaskRunning x g1 = Inr g2"
          for g2
          by (rule evolves_set_graph [OF graph_run_append [OF run_moves(2) [OF g1 that] run_moves(1) [OF g1]]])
        have b1: "s_builds (set_graph b g1 (s\<lparr> s_registry := r1 \<rparr>)) = s_builds (set_graph b g1 s)"
          by (rule s_builds_set_graph_cong) simp
        have b2: "s_builds (set_graph b g2 (note_worker b x wid (set_graph b g1 (s\<lparr> s_registry := r1 \<rparr>))))
            = s_builds (set_graph b g2 s)" for g2
          using s_builds_set_graph_cong [of "note_worker b x wid (set_graph b g1 (s\<lparr> s_registry := r1 \<rparr>))"
              "set_graph b g1 s" b g2] set_graph_twice [of b g2 g1 s] b1
          by (simp add: note_worker_def)
        show ?thesis
          using Some pick res g1 b1 b2
          by (auto simp: assign_task_def Let_def note_worker_def intro: evolves_cong [OF e1] evolves_cong [OF e2]
              split: sum.split)
      qed
    qed
  qed
qed

lemma evolves_assign_tasks: "assign_tasks env b xs s n = (s', m, d) \<Longrightarrow> evolves s s'"
proof (induction env b xs s n rule: assign_tasks.induct)
  case (1 env b s n)
  then show ?case by (simp add: evolves_same)
next
  case (2 env b x xs s n)
  show ?case
  proof (cases "e_ctx_done env b x")
    case True
    then show ?thesis using 2(2) by (simp add: evolves_same)
  next
    case False
    obtain s1 ok where a: "assign_task env b x s = (s1, ok)" by fastforce
    then have "evolves s1 s'" using 2 False by simp
    moreover have "evolves s s1" using evolves_assign_task [of s env b x] a by simp
    ultimately show ?thesis using evolves_trans by blast
  qed
qed

lemma evolves_schedule_builds:
  "schedule_builds env xs s n = (s', m, d) \<Longrightarrow> env_ok env s \<Longrightarrow> evolves s s'"
proof (induction xs arbitrary: s n)
  case Nil
  then show ?case by (simp add: evolves_same)
next
  case (Cons x xs)
  show ?case
  proof (cases "gget (s_builds s) x")
    case None
    then show ?thesis using Cons by simp
  next
    case (Some b)
    obtain g rdy where m: "mark_ready (e_mark_order env x) (e_ready_order env x) (b_Graph b) = (g, rdy)"
      by fastforce
    have run: "graph_run (b_Graph b) [EvMarkReady] g"
      using Cons.prems(2) Some m by (auto intro!: graph_run_one step_mark simp: env_ok_def)
    let ?s1 = "put_build x (b\<lparr> b_Graph := g \<rparr>) s"
    let ?s2 = "if is_zero_time (b_StartedAt b)
      then put_build x (b\<lparr> b_Graph := g, b_StartedAt := e_now env x [] \<rparr>) ?s1 else ?s1"
    have e1: "evolves s ?s1"
      by (rule evolves_put [OF Some, of "[EvMarkReady]" "b\<lparr> b_Graph := g \<rparr>"])
        (simp_all add: run put_build_def)
    have "evolves ?s1 (put_build x (b\<lparr> b_Graph := g, b_StartedAt := e_now env x [] \<rparr>) ?s1)"
      by (rule evolves_put [of ?s1 x "b\<lparr> b_Graph := g \<rparr>" "[]"
            "b\<lparr> b_Graph := g, b_StartedAt := e_now env x [] \<rparr>"])
        (simp_all add: run_start put_build_def)
    then have e2: "evolves s ?s2" using e1 evolves_trans by auto
    show ?thesis
    proof (cases "rdy = []")
      case True
      then have "schedule_builds env xs ?s1 n = (s', m, d)" using Cons.prems(1) Some m by simp
      from Cons.IH [OF this env_ok_evolves [OF Cons.prems(2) e1]] e1 show ?thesis
        using evolves_trans by blast
    next
      case False
      obtain s3 n' d' where a: "assign_tasks env x rdy ?s2 n = (s3, n', d')" by (metis prod_cases3)
      have e3: "evolves s s3" using evolves_assign_tasks [OF a] e2 evolves_trans by blast
      have "(if d' then (s3, n', True) else schedule_builds env xs s3 n') = (s', m, d)"
        using Cons.prems(1) Some m False a by (simp add: Let_def)
      then show ?thesis
        using Cons.IH [OF _ env_ok_evolves [OF Cons.prems(2) e3]] e3 evolves_trans
        by (auto split: if_splits)
    qed
  qed
qed

lemma evolves_schedule: "schedule env ks s = (s', m, d) \<Longrightarrow> env_ok env s \<Longrightarrow> evolves s s'"
  unfolding schedule_def by (rule evolves_schedule_builds)

section \<open>Results, cancellation and dead workers\<close>

lemma release_task_builds [simp]: "s_builds (release_task x t s) = s_builds s"
  by (simp add: release_task_def split: option.split)

lemma release_tasks_builds [simp]: "s_builds (release_tasks ts s) = s_builds s"
  by (induction ts s rule: release_tasks.induct) simp_all

lemma run_complete:
  assumes "child_order g ord" "distinct ks" "set ks = set (children g x)" "is_terminal st"
    "complete ord ks now x st code msg g = Inr (g', newly)"
  shows "graph_run g [EvFinish st x] g'"
  by (rule graph_run_one [OF step_finish [OF assms]])

text \<open>The states a worker's report can carry: what the worker service decodes. Any other report reads
  as pending, and completing a task with it is an error.\<close>

definition reportable :: "task_state \<Rightarrow> bool" where
  "reportable st \<longleftrightarrow> is_terminal st \<or> st = TaskPending"

lemma complete_pending: "complete ord ks now x TaskPending code msg g \<noteq> Inr r"
proof -
  have "transition_to now TaskPending t = Inl (InvalidTransition (t_State t) TaskPending (t_Name t))" for t
    by (cases "t_State t") (simp_all add: transition_to_def can_transition_to_def)
  then show ?thesis by (simp add: complete_def split: option.split)
qed

lemma evolves_handle_result:
  assumes h: "handle_task_result ord ks now now' rep s = (s', out)"
    and o: "\<And>b. gget (s_builds s) (rr_BuildID rep) = Some b \<Longrightarrow>
      child_order (b_Graph b) ord \<and> distinct ks \<and> set ks = set (children (b_Graph b) (rr_TaskID rep))"
    and fin: "reportable (rr_State rep)"
  shows "evolves s s'"
proof (cases "gget (s_builds s) (rr_BuildID rep)")
  case None
  then show ?thesis using h by (simp add: handle_task_result_def evolves_same)
next
  case (Some b)
  show ?thesis
  proof (cases "get_task (b_Graph b) (rr_TaskID rep)")
    case None
    then show ?thesis using h Some by (simp add: handle_task_result_def evolves_same)
  next
    case t: (Some t)
    show ?thesis
    proof (cases "complete ord ks now (rr_TaskID rep) (rr_State rep) (rr_ExitCode rep) (rr_Error rep) (b_Graph b)")
      case (Inl e)
      then show ?thesis using h Some t by (auto simp: handle_task_result_def Let_def intro: evolves_same)
    next
      case (Inr p)
      obtain g newly where p: "p = (g, newly)" by (cases p)
      have fin: "is_terminal (rr_State rep)"
        using fin complete_pending Inr unfolding reportable_def by metis
      have run: "graph_run (b_Graph b) [EvFinish (rr_State rep) (rr_TaskID rep)] g"
        using run_complete o [OF Some] fin Inr p by blast
      have tw: "gput x c (gput x d m) = gput x c m" for x and c d :: build and m by (simp add: gput_def)
      let ?b1 = "b\<lparr> b_Graph := g \<rparr>" and ?b2 = "b\<lparr> b_Graph := g, b_FinishedAt := now' \<rparr>"
      from h Some t Inr p have "s_builds s' = gput (rr_BuildID rep) ?b1 (s_builds s)
          \<or> s_builds s' = gput (rr_BuildID rep) ?b2 (s_builds s)"
        by (auto simp: handle_task_result_def Let_def put_build_def tw split: if_splits)
      moreover have "b_Graph ?b1 = g" "b_Graph ?b2 = g" "build_origin ?b1 = build_origin b"
        "build_origin ?b2 = build_origin b" by (simp_all add: build_origin_def)
      ultimately show ?thesis using evolves_put [OF Some] run by metis
    qed
  qed
qed

lemma evolves_cancel: "cancel_build ks now x s = Inr s' \<Longrightarrow> evolves s s'"
proof -
  assume h: "cancel_build ks now x s = Inr s'"
  then obtain b where b: "gget (s_builds s) x = Some b"
    by (auto simp: cancel_build_def split: option.splits)
  have s': "s_builds s' = gput x (b\<lparr> b_Graph := cancel (b_Graph b), b_FinishedAt := now \<rparr>) (s_builds s)"
    using h b by (auto simp: cancel_build_def Let_def put_build_def)
  show ?thesis
    by (rule evolves_put [OF b _ s', of "[EvCancel]"])
      (simp_all add: graph_run_one [OF step_cancel] build_origin_def)
qed

definition dead_orders_ok ::
    "(string \<Rightarrow> string \<Rightarrow> string list) \<Rightarrow> (string \<Rightarrow> string \<Rightarrow> string list) \<Rightarrow> scheduler \<Rightarrow> bool" where
  "dead_orders_ok ord kids s \<longleftrightarrow> (\<forall>x b. gget (s_builds s) x = Some b \<longrightarrow>
     child_order (b_Graph b) (ord x)
     \<and> (\<forall>t. distinct (kids x t) \<and> set (kids x t) = set (children (b_Graph b) t)))"

lemma dead_orders_evolves:
  assumes "dead_orders_ok ord kids s" "evolves s s'"
  shows "dead_orders_ok ord kids s'"
  unfolding dead_orders_ok_def
proof (intro allI impI)
  fix x b' assume b': "gget (s_builds s') x = Some b'"
  then obtain b where b: "gget (s_builds s) x = Some b"
    using evolvesD_None [OF assms(2)] by (cases "gget (s_builds s) x") auto
  from evolves_gkeys [OF assms(2) b] b' have "g_edges (b_Graph b') = g_edges (b_Graph b)" by simp
  then show "child_order (b_Graph b') (ord x)
     \<and> (\<forall>t. distinct (kids x t) \<and> set (kids x t) = set (children (b_Graph b') t))"
    using assms(1) b by (simp add: dead_orders_ok_def child_order_def)
qed

lemma evolves_fail_task:
  assumes "dead_orders_ok ord kids s"
  shows "evolves s (fail_task ord kids now w x s)"
proof (cases "gget (s_taskWorker s) x = Some w")
  case False
  then show ?thesis by (simp add: fail_task_def evolves_same)
next
  case w: True
  define bid where "bid = (case gget (s_taskBuild s) x of None \<Rightarrow> [] | Some b \<Rightarrow> b)"
  show ?thesis
  proof (cases "gget (s_builds s) bid")
    case None
    then show ?thesis using w by (simp add: fail_task_def evolves_same bid_def)
  next
    case (Some b)
    let ?c = "complete (ord bid) (kids bid x) now x TaskFailed (- 1) (''worker died: '' @ w) (b_Graph b)"
    define g where "g = (case ?c of Inl _ \<Rightarrow> b_Graph b | Inr (g', _) \<Rightarrow> g')"
    have "\<exists>es. graph_run (b_Graph b) es g"
    proof (cases ?c)
      case (Inl e)
      then show ?thesis using run_start by (auto simp: g_def)
    next
      case (Inr p)
      obtain g' newly where p: "p = (g', newly)" by (cases p)
      have "graph_run (b_Graph b) [EvFinish TaskFailed x] g'"
        by (rule run_complete [OF _ _ _ _ Inr [unfolded p]])
          (use assms Some in \<open>simp_all add: dead_orders_ok_def\<close>)
      then show ?thesis using Inr p by (auto simp: g_def)
    qed
    moreover have "s_builds (fail_task ord kids now w x s) = gput bid (b\<lparr> b_Graph := g \<rparr>) (s_builds s)"
      using w Some by (simp add: fail_task_def bid_def [symmetric] Let_def g_def put_build_def)
    ultimately show ?thesis using evolves_put [OF Some, of _ "b\<lparr> b_Graph := g \<rparr>"] by auto
  qed
qed

lemma evolves_fail_tasks:
  "dead_orders_ok ord kids s \<Longrightarrow> evolves s (fail_tasks ord kids now w xs s)"
proof (induction xs arbitrary: s)
  case Nil
  then show ?case by (simp add: evolves_same)
next
  case (Cons x xs)
  have e: "evolves s (fail_task ord kids now w x s)" by (rule evolves_fail_task [OF Cons.prems])
  from Cons.IH [OF dead_orders_evolves [OF Cons.prems e]] e show ?case using evolves_trans by simp
qed

section \<open>Reachable schedulers\<close>

text \<open>
  The operations of the scheduler, and the operations of the registry that other handlers call in
  between, as one step relation. A submitted graph is built with \<open>AddTask\<close> and \<open>AddEdge\<close>, so it is
  well-formed with every task pending; a result carries a state a report can carry. Handlers also
  write to the history, which the scheduler only writes.
\<close>

inductive sched_step :: "scheduler \<Rightarrow> scheduler \<Rightarrow> bool" where
  submit: "submit_build ks ks' now b s = Inr s' \<Longrightarrow> wf_graph (b_Graph b) \<Longrightarrow> all_pending (b_Graph b) \<Longrightarrow>
    sched_step s s'"
| cycle: "env_ok env s \<Longrightarrow> schedule env ks s = (s', n, early) \<Longrightarrow> sched_step s s'"
| result: "(\<And>b. gget (s_builds s) (rr_BuildID rep) = Some b \<Longrightarrow>
      child_order (b_Graph b) ord \<and> distinct ks \<and> set ks = set (children (b_Graph b) (rr_TaskID rep))) \<Longrightarrow>
    reportable (rr_State rep) \<Longrightarrow> handle_task_result ord ks now now' rep s = (s', out) \<Longrightarrow>
    sched_step s s'"
| abandon: "cancel_build ks now x s = Inr s' \<Longrightarrow> sched_step s s'"
| dead: "dead_orders_ok ord kids s \<Longrightarrow> sched_step s (handle_dead_worker ord kids now ks w s)"
| workers: "sched_step s (fst (build_workers x s))"
| registry: "sched_step s (s\<lparr> s_registry := r \<rparr>)"
| history: "sched_step s (s\<lparr> s_store := st \<rparr>)"

inductive sched_reach :: "scheduler \<Rightarrow> bool" where
  init: "s_builds s = [] \<Longrightarrow> sched_reach s"
| step: "sched_reach s \<Longrightarrow> sched_step s s' \<Longrightarrow> sched_reach s'"

inductive_cases sched_step_E: "sched_step s s'"

definition from_fresh :: "graph \<Rightarrow> bool" where
  "from_fresh g \<longleftrightarrow> (\<exists>g0 es. wf_graph g0 \<and> all_pending g0 \<and> graph_run g0 es g)"

lemma from_fresh_run: "from_fresh g \<Longrightarrow> graph_run g es g' \<Longrightarrow> from_fresh g'"
  unfolding from_fresh_def using graph_run_append by blast

lemma from_fresh_evolves:
  assumes e: "evolves s s'" and i: "\<And>x b. gget (s_builds s) x = Some b \<Longrightarrow> from_fresh (b_Graph b)"
    and b': "gget (s_builds s') x = Some b'"
  shows "from_fresh (b_Graph b')"
proof -
  obtain b where b: "gget (s_builds s) x = Some b"
    using evolvesD_None [OF e] b' by (cases "gget (s_builds s) x") auto
  from evolvesD [OF e b] b' obtain es where "graph_run (b_Graph b) es (b_Graph b')" by auto
  with i [OF b] show ?thesis by (rule from_fresh_run)
qed

text \<open>Every step but the submission of a build only moves graphs along.\<close>

lemma sched_step_cases:
  assumes "sched_step s s'"
  obtains (moved) "evolves s s'"
  | (submitted) b where "gget (s_builds s) (b_ID b) = None" "s_builds s' = gput (b_ID b) b (s_builds s)"
      "wf_graph (b_Graph b)" "all_pending (b_Graph b)"
  using assms
proof cases
  case (submit ks ks' now b)
  then have "gget (s_builds s) (b_ID b) = None"
    "s_builds s' = gput (b_ID b) (b\<lparr> b_CreatedAt := now \<rparr>) (s_builds s)"
    by (auto simp: submit_build_def Let_def put_build_def split: if_splits)
  then show ?thesis using submitted [of "b\<lparr> b_CreatedAt := now \<rparr>"] submit(2,3) by simp
next
  case (cycle env ks n early)
  then show ?thesis using evolves_schedule moved by blast
next
  case (result rep ord ks now now' out)
  then show ?thesis using evolves_handle_result moved by blast
next
  case (abandon ks now x)
  then show ?thesis using evolves_cancel moved by blast
next
  case (dead ord kids now ks w)
  then show ?thesis using evolves_fail_tasks moved by (simp add: handle_dead_worker_def)
next
  case (workers x)
  then show ?thesis by (intro moved evolves_same) (simp add: build_workers_def)
next
  case (registry r)
  then show ?thesis by (intro moved evolves_same) simp
next
  case (history st)
  then show ?thesis by (intro moved evolves_same) simp
qed

lemma sched_reach_fresh: "sched_reach s \<Longrightarrow> gget (s_builds s) x = Some b \<Longrightarrow> from_fresh (b_Graph b)"
proof (induction arbitrary: x b rule: sched_reach.induct)
  case (init s)
  then show ?case by simp
next
  case (step s s')
  from step(2) show ?case
  proof (cases rule: sched_step_cases)
    case moved
    from from_fresh_evolves [OF this step.IH step.prems] show ?thesis .
  next
    case (submitted b1)
    show ?thesis
    proof (cases "x = b_ID b1")
      case True
      then show ?thesis
        using submitted step.prems run_start by (auto simp: from_fresh_def)
    next
      case False
      then show ?thesis using submitted step.prems step.IH [of x b] by simp
    qed
  qed
qed

text \<open>Builds are stored under their own IDs.\<close>

definition keyed_builds :: "scheduler \<Rightarrow> bool" where
  "keyed_builds s \<longleftrightarrow> (\<forall>x b. gget (s_builds s) x = Some b \<longrightarrow> b_ID b = x)"

lemma keyed_buildsD: "keyed_builds s \<Longrightarrow> gget (s_builds s) x = Some b \<Longrightarrow> b_ID b = x"
  unfolding keyed_builds_def by blast

lemma keyed_builds_evolves:
  assumes "evolves s s'" "keyed_builds s"
  shows "keyed_builds s'"
  unfolding keyed_builds_def
proof (intro allI impI)
  fix x b' assume b': "gget (s_builds s') x = Some b'"
  then obtain b where b: "gget (s_builds s) x = Some b"
    using evolvesD_None [OF assms(1)] by (cases "gget (s_builds s) x") auto
  from evolvesD_origin [OF assms(1) b] b' have "build_origin b' = build_origin b" by auto
  from build_origin_ID [OF this] show "b_ID b' = x" using keyed_buildsD [OF assms(2) b] by simp
qed

lemma sched_reach_keyed: "sched_reach s \<Longrightarrow> keyed_builds s"
proof (induction rule: sched_reach.induct)
  case (init s)
  then show ?case by (simp add: keyed_builds_def)
next
  case (step s s')
  from step(2) show ?case
  proof (cases rule: sched_step_cases)
    case moved
    then show ?thesis using step.IH by (rule keyed_builds_evolves)
  next
    case (submitted b1)
    then show ?thesis using keyed_buildsD [OF step.IH] by (auto simp: keyed_builds_def)
  qed
qed

lemma sched_reach_steps: "sched_step\<^sup>*\<^sup>* s s' \<Longrightarrow> sched_reach s \<Longrightarrow> sched_reach s'"
  by (induction rule: rtranclp_induct) (auto intro: sched_reach.step)

text \<open>A build stays and its graph moves along, whatever the scheduler does.\<close>

lemma sched_steps_build:
  assumes "sched_step\<^sup>*\<^sup>* s s'" "gget (s_builds s) x = Some b" "b_ID b = x"
  shows "\<exists>b' es. gget (s_builds s') x = Some b' \<and> build_origin b' = build_origin b
    \<and> graph_run (b_Graph b) es (b_Graph b')"
  using assms(1)
proof (induction rule: rtranclp_induct)
  case base
  then show ?case using assms(2) run_start by blast
next
  case (step s1 s2)
  then obtain b1 es where b1: "gget (s_builds s1) x = Some b1" "build_origin b1 = build_origin b"
    "graph_run (b_Graph b) es (b_Graph b1)" by blast
  from step(2) show ?case
  proof (cases rule: sched_step_cases)
    case moved
    from evolvesD_origin [OF moved b1(1)] obtain b2 es' where
      "gget (s_builds s2) x = Some b2" "build_origin b2 = build_origin b1"
      "graph_run (b_Graph b1) es' (b_Graph b2)" by blast
    then show ?thesis using b1(2) graph_run_append [OF _ b1(3)] by auto
  next
    case (submitted c)
    then have "b_ID c \<noteq> x" using b1(1) by auto
    then show ?thesis using submitted(2) b1 by auto
  qed
qed

section \<open>Best fit\<close>

definition room_left :: "demand \<Rightarrow> info \<Rightarrow> nat" where
  "room_left d w = (unat (wi_AvailableCPU w) - unat (dm_cpuMilli d))
     + (unat (wi_AvailableMemoryMB w) - unat (dm_memMB d))
     + (unat (wi_AvailableDiskMB w) - unat (dm_diskMB d))"

lemma unat_ucast_32_64: "unat (ucast (a :: u32) :: u64) = unat a"
  by (simp add: unsigned_ucast_eq take_bit_nat_eq_self unat_less_32 [THEN less_trans])

lemma score_room: "can_accept_task d w \<Longrightarrow> unat (score d w) = room_left d w \<and> room_left d w < 2 ^ 64 - 1"
proof -
  assume "can_accept_task d w"
  then have s: "unat (wi_AvailableCPU w - dm_cpuMilli d) = unat (wi_AvailableCPU w) - unat (dm_cpuMilli d)"
    "unat (wi_AvailableMemoryMB w - dm_memMB d) = unat (wi_AvailableMemoryMB w) - unat (dm_memMB d)"
    "unat (wi_AvailableDiskMB w - dm_diskMB d) = unat (wi_AvailableDiskMB w) - unat (dm_diskMB d)"
    by (simp_all add: can_accept_task_iff unat_sub word_le_nat_alt)
  have l: "unat a < 4294967296" for a :: u32 using unat_less_32 [of a] by simp
  let ?a = "ucast (wi_AvailableCPU w - dm_cpuMilli d) :: u64"
  let ?b = "ucast (wi_AvailableMemoryMB w - dm_memMB d) :: u64"
  let ?c = "ucast (wi_AvailableDiskMB w - dm_diskMB d) :: u64"
  have u: "unat ?a < 4294967296" "unat ?b < 4294967296" "unat ?c < 4294967296"
    by (simp_all only: unat_ucast_32_64 l)
  have ab: "unat (?a + ?b) = unat ?a + unat ?b"
    by (rule unat_add_lem [THEN iffD1]) (use u in simp)
  have "unat (?a + ?b + ?c) = unat ?a + unat ?b + unat ?c"
    using unat_add_lem [of "?a + ?b" ?c] u by (simp add: ab)
  then show ?thesis
    using u by (simp add: score_def room_left_def unat_ucast_32_64 s)
qed

lemma unat_max_64: "unat (- 1 :: u64) = 18446744073709551615"
  by (simp add: unsigned_minus_1_eq_mask mask_eq_exp_minus_1)

lemma best_fit_spec:
  "best_fit d ws best bs = r \<Longrightarrow>
     (case best of None \<Rightarrow> bs = - 1 | Some w \<Rightarrow> can_accept_task d w \<and> score d w = bs) \<Longrightarrow>
     (case r of
        None \<Rightarrow> best = None \<and> list_all (\<lambda>w. \<not> can_accept_task d w) ws
      | Some w \<Rightarrow> can_accept_task d w \<and> (best = Some w \<or> w \<in> set ws) \<and> score d w \<le> bs
          \<and> list_all (\<lambda>v. can_accept_task d v \<longrightarrow> score d w \<le> score d v) ws)"
proof (induction d ws best bs rule: best_fit.induct)
  case (1 d best bs)
  then show ?case by (auto split: option.splits)
next
  case (2 d w ws best bs)
  show ?case
  proof (cases "can_accept_task d w")
    case False
    then show ?thesis using 2(1) 2(4,5) by (auto split: option.splits)
  next
    case True
    have n: "score d w < - 1"
      using score_room [OF True] unat_max_64 by (simp add: word_less_nat_alt)
    show ?thesis
    proof (cases "score d w < bs")
      case l: True
      have "case Some w of None \<Rightarrow> score d w = - 1 | Some v \<Rightarrow> can_accept_task d v \<and> score d v = score d w"
        using True by simp
      with 2(2) [OF _ l] 2(4) True l show ?thesis by (auto split: option.splits)
    next
      case False
      then have "best \<noteq> None" using n 2(5) by (cases best) simp_all
      with 2(3) [OF _ False] 2(4,5) True False show ?thesis by (auto split: option.splits)
    qed
  qed
qed

end
