(* ===== verification/Scheduler_Properties.thy ===== *)
theory Scheduler_Properties
  imports Scheduler_Runs Graph_Properties
begin

text \<open>The properties of the scheduler, with the small schedulers their witnesses run on.\<close>

section \<open>Small schedulers\<close>

definition small_ci_build :: "string \<Rightarrow> graph \<Rightarrow> build" where
  "small_ci_build x g = \<lparr> b_ID = x, b_Graph = g, b_RepoURL = [], b_RepoFullName = [],
     b_SCMProvider = ProviderUnknown, b_SCMToken = [], b_CommitSHA = [], b_Branch = [],
     b_PRNumber = [], b_TriggeredBy = [], b_CreatedAt = 0, b_StartedAt = 0, b_FinishedAt = 0 \<rparr>"

definition clone_task :: task where
  "clone_task = (small_task ''clone'' [])\<lparr> t_CPUMillicores := 1000, t_MemoryMB := 500, t_DiskMB := 10 \<rparr>"

definition clone_graph :: graph where
  "clone_graph = the (add_tasks [clone_task] new_graph)"

definition small_env :: "bool \<Rightarrow> sched_env" where
  "small_env ok = \<lparr> e_assign = (\<lambda>a. ok), e_ctx_done = (\<lambda>b t. False), e_now = (\<lambda>b t. 1),
     e_mark_order = (\<lambda>b. [''clone'']), e_ready_order = (\<lambda>b. [''clone'']),
     e_worker_order = (\<lambda>b t. [''w'']) \<rparr>"

definition submitted :: "sched_error + scheduler \<Rightarrow> scheduler" where
  "submitted r = (case r of Inl _ \<Rightarrow> new_scheduler (new_registry 0) | Inr s \<Rightarrow> s)"

definition one_build :: scheduler where
  "one_build = submitted (submit_build [''clone''] [''clone''] 5 (small_ci_build ''b1'' clone_graph)
     (set_store (SqliteBacked empty_database) (new_scheduler small_registry)))"

definition two_builds :: scheduler where
  "two_builds = submitted (submit_build [''clone''] [''clone''] 6 (small_ci_build ''b2'' clone_graph)
     (fst (schedule (small_env True) [''b1''] one_build)))"

section \<open>Properties\<close>

text \<open>C2. Safety of the whole scheduler: in every state reachable by submissions, scheduling cycles,
  results, cancellations, dead workers and changes of the registry, in any interleaving, each task
  of each build that was started has only parents in a final state, has only passed parents if its
  condition is the default one, and has a failed or timed out parent if it is an \<open>on_failure\<close> task
  with parents.\<close>

theorem scheduler_starts_safe:
  assumes "sched_reach s" "gget (s_builds s) x = Some b" "gget (g_tasks (b_Graph b)) y = Some t"
    and "started (t_State t)"
  shows "all_deps_terminal (g_deps (b_Graph b)) (g_tasks (b_Graph b)) y
    \<and> (\<not> should_run_after_failure t \<longrightarrow> all_deps_passed (g_deps (b_Graph b)) (g_tasks (b_Graph b)) y)
    \<and> (t_Condition t = ''on_failure'' \<and> parents (b_Graph b) y \<noteq> [] \<longrightarrow>
         any_dep_failed (g_deps (b_Graph b)) (g_tasks (b_Graph b)) y)"
proof -
  obtain g0 es where "wf_graph g0" "all_pending g0" "graph_run g0 es (b_Graph b)"
    using sched_reach_fresh [OF assms(1,2)] by (auto simp: from_fresh_def)
  then have "starts_ok (g_deps (b_Graph b)) (g_tasks (b_Graph b))" using graph_run_starts_ok by blast
  from starts_okD [OF this assms(3,4)] show ?thesis
    by (auto simp: may_start_def should_run_after_failure_def split: if_splits)
qed

lemma one_build_reach: "sched_reach one_build"
proof -
  let ?s0 = "set_store (SqliteBacked empty_database) (new_scheduler small_registry)"
  have "submit_build [''clone''] [''clone''] 5 (small_ci_build ''b1'' clone_graph) ?s0 = Inr one_build"
    by code_simp
  moreover have "wf_graph (b_Graph (small_ci_build ''b1'' clone_graph))"
    "all_pending (b_Graph (small_ci_build ''b1'' clone_graph))" by code_simp+
  ultimately have "sched_step ?s0 one_build" by (rule sched_step.submit)
  moreover have "sched_reach ?s0" by (rule sched_reach.init) (simp add: set_store_def new_scheduler_def)
  ultimately show ?thesis by (rule sched_reach.step [rotated])
qed

lemma one_build_builds:
  "s_builds one_build = [(''b1'', (small_ci_build ''b1'' clone_graph)\<lparr> b_CreatedAt := 5 \<rparr>)]"
  by code_simp

lemma one_build_history:
  "case s_store one_build of
     SqliteBacked db \<Rightarrow> map (\<lambda>p. br_ID (snd p)) (sq_builds db) = [''b1''] | _ \<Rightarrow> False"
  by code_simp

lemma one_build_cycle: "sched_reach (fst (schedule (small_env True) [''b1''] one_build))"
proof -
  have "range_order (g_tasks clone_graph) [''clone'']" by code_simp
  then have "env_ok (small_env True) one_build"
    unfolding env_ok_def one_build_builds by (simp add: gget_def small_env_def small_ci_build_def)
  moreover obtain s n early where s: "schedule (small_env True) [''b1''] one_build = (s, n, early)"
    by (metis prod_cases3)
  ultimately have "sched_step one_build s" by (rule sched_step.cycle)
  then have "sched_step one_build (fst (schedule (small_env True) [''b1''] one_build))" by (simp add: s)
  with one_build_reach show ?thesis by (rule sched_reach.step)
qed

theorem scheduler_starts_safe_witness:
  "case gget (s_builds (fst (schedule (small_env True) [''b1''] one_build))) ''b1'' of
     None \<Rightarrow> False
   | Some b \<Rightarrow> state_in (g_tasks (b_Graph b)) ''clone'' = Some TaskRunning
       \<and> all_deps_terminal (g_deps (b_Graph b)) (g_tasks (b_Graph b)) ''clone''"
proof -
  let ?s = "fst (schedule (small_env True) [''b1''] one_build)"
  let ?b = "the (gget (s_builds ?s) ''b1'')"
  let ?t = "clone_task\<lparr> t_State := TaskRunning, t_StartedAt := 1 \<rparr>"
  have "gget (s_builds ?s) ''b1'' \<noteq> None" by code_simp
  then have b: "gget (s_builds ?s) ''b1'' = Some ?b" by simp
  have t: "gget (g_tasks (b_Graph ?b)) ''clone'' = Some ?t" by code_simp
  have "started (t_State ?t)" by code_simp
  from scheduler_starts_safe [OF one_build_cycle b t this] t show ?thesis
    by (subst b) (simp add: state_in_def)
qed

text \<open>C9. \<open>pickWorker\<close> is best fit: it fails exactly when no active worker can take the task, and
  otherwise returns the ID of an active worker that can, and that of all active workers that can
  would be left with the least CPU, memory and disk in sum; the 64-bit score is that sum in natural
  numbers, so it never wraps around.\<close>

theorem pick_worker_best_fit:
  assumes "pick_worker ks t r = res"
  shows "case res of
      Inl e \<Rightarrow> list_all (\<lambda>w. \<not> can_accept_task (task_demand t) w) (active_workers ks r)
    | Inr x \<Rightarrow> \<exists>w. w \<in> set (active_workers ks r) \<and> wi_ID w = x \<and> can_accept_task (task_demand t) w
        \<and> unat (score (task_demand t) w) = room_left (task_demand t) w
        \<and> list_all (\<lambda>v. can_accept_task (task_demand t) v \<longrightarrow>
             room_left (task_demand t) w \<le> room_left (task_demand t) v) (active_workers ks r)"
proof (cases "active_workers ks r = []")
  case True
  then show ?thesis using assms by (auto simp: pick_worker_def)
next
  case False
  let ?d = "task_demand t" and ?ws = "active_workers ks r"
  note spec = best_fit_spec [where best = None and bs = "- 1" and d = ?d and ws = ?ws, OF refl]
  show ?thesis
  proof (cases "best_fit ?d ?ws None (- 1)")
    case None
    then show ?thesis using assms False spec by (auto simp: pick_worker_def)
  next
    case (Some w)
    then have w: "can_accept_task ?d w" "w \<in> set ?ws"
      "list_all (\<lambda>v. can_accept_task ?d v \<longrightarrow> score ?d w \<le> score ?d v) ?ws"
      using spec by auto
    have "list_all (\<lambda>v. can_accept_task ?d v \<longrightarrow> room_left ?d w \<le> room_left ?d v) ?ws"
      using w score_room by (auto simp: list_all_iff word_le_nat_alt)
    then show ?thesis using assms False Some w score_room [OF w(1)] by (auto simp: pick_worker_def)
  qed
qed

theorem pick_worker_best_fit_witness:
  "\<exists>w. w \<in> set (active_workers [''w''] small_registry) \<and> wi_ID w = ''w''"
proof -
  have "pick_worker [''w''] clone_task small_registry = Inr ''w''" by code_simp
  from pick_worker_best_fit [OF this] show ?thesis by auto
qed

lemma handle_result_outcome:
  assumes "gget (s_builds s) (rr_BuildID rep) = Some b" "b_ID b = rr_BuildID rep" "b_ID b \<noteq> []"
    and "gget (g_tasks (b_Graph b)) (rr_TaskID rep) = Some t" "is_terminal (rr_State rep)"
    and "handle_task_result ord ks now now' rep s = (s', out)"
  shows "gget (s_taskWorker s') (rr_TaskID rep) = None
    \<and> (case out of
         Inl e \<Rightarrow> \<not> can_transition_to t (rr_State rep) \<and> s_builds s' = s_builds s \<and> s_store s' = s_store s
       | Inr c \<Rightarrow> can_transition_to t (rr_State rep) \<and>
           (\<exists>b'. gget (s_builds s') (rr_BuildID rep) = Some b'
             \<and> state_in (g_tasks (b_Graph b')) (rr_TaskID rep) = Some (rr_State rep)
             \<and> (bc_BuildID c \<noteq> [] \<longleftrightarrow> is_complete (b_Graph b'))
             \<and> (is_complete (b_Graph b') \<longrightarrow> c = \<lparr> bc_BuildID = b_ID b,
                  bc_Passed = is_passed (b_Graph b'), bc_Build = Some b' \<rparr> \<and> b_FinishedAt b' = now')))"
proof -
  have tw: "gget (s_taskWorker (release_task x t s)) x = None" for x
    by (simp add: release_task_def split: option.split)
  have st: "s_store (release_task x t s) = s_store s" for x
    by (simp add: release_task_def split: option.split)
  show ?thesis
  proof (cases "complete ord ks now (rr_TaskID rep) (rr_State rep) (rr_ExitCode rep) (rr_Error rep) (b_Graph b)")
    case (Inl e)
    then have "\<not> can_transition_to t (rr_State rep)"
      using assms(4) by (auto simp: complete_def transition_to_Inl_iff Let_def split: sum.splits prod.splits)
    then show ?thesis
      using assms Inl tw st by (auto simp: handle_task_result_def get_task_def Let_def)
  next
    case (Inr p)
    obtain g newly where p: "p = (g, newly)" by (cases p)
    have c: "can_transition_to t (rr_State rep)" "state_in (g_tasks g) (rr_TaskID rep) = Some (rr_State rep)"
      using complete_task [OF Inr [unfolded p] assms(5)] assms(4) by (auto simp: state_in_def)
    show ?thesis
    proof (cases "is_complete g")
      case True
      then show ?thesis
        using assms Inr p c tw
        by (auto simp: handle_task_result_def get_task_def Let_def put_build_def)
    next
      case False
      then show ?thesis
        using assms Inr p c tw
        by (auto simp: handle_task_result_def get_task_def Let_def put_build_def no_completion_def)
    qed
  qed
qed

text \<open>\<open>HandleTaskResult\<close> for a final state of a task of a known build. Whatever happens, the task
  is no longer assigned to a worker. On an error no build and nothing in the store has changed; on
  success the task is in the reported state and a completion is returned exactly when the graph is
  complete: then it carries the verdict of \<open>IsPassed\<close> and the build with its finishing time.\<close>

theorem result_outcome:
  assumes "gget (s_builds s) (rr_BuildID rep) = Some b" "b_ID b = rr_BuildID rep" "b_ID b \<noteq> []"
    and "gget (g_tasks (b_Graph b)) (rr_TaskID rep) = Some t" "is_terminal (rr_State rep)"
    and "handle_task_result ord ks now now' rep s = (s', out)"
  shows "gget (s_taskWorker s') (rr_TaskID rep) = None
    \<and> (case out of
         Inl e \<Rightarrow> \<not> can_transition_to t (rr_State rep) \<and> s_builds s' = s_builds s \<and> s_store s' = s_store s
       | Inr c \<Rightarrow> can_transition_to t (rr_State rep) \<and>
           (\<exists>b'. gget (s_builds s') (rr_BuildID rep) = Some b'
             \<and> state_in (g_tasks (b_Graph b')) (rr_TaskID rep) = Some (rr_State rep)
             \<and> (bc_BuildID c \<noteq> [] \<longleftrightarrow> is_complete (b_Graph b'))
             \<and> (is_complete (b_Graph b') \<longrightarrow> c = \<lparr> bc_BuildID = b_ID b,
                  bc_Passed = is_passed (b_Graph b'), bc_Build = Some b' \<rparr> \<and> b_FinishedAt b' = now')))"
  using assms by (rule handle_result_outcome)

definition clone_report :: "string \<Rightarrow> task_result_report" where
  "clone_report b = \<lparr> rr_BuildID = b, rr_TaskID = ''clone'', rr_State = TaskPassed, rr_ExitCode = 0,
     rr_Error = [] \<rparr>"

theorem result_outcome_witness:
  "gget (s_taskWorker (fst (handle_task_result (\<lambda>x. []) [] 7 8 (clone_report ''b1'')
     (fst (schedule (small_env True) [''b1''] one_build))))) ''clone'' = None"
proof -
  let ?s = "fst (schedule (small_env True) [''b1''] one_build)"
  let ?b = "the (gget (s_builds ?s) ''b1'')"
  have n: "gget (s_builds ?s) (rr_BuildID (clone_report ''b1'')) \<noteq> None" by code_simp
  have r: "rr_BuildID (clone_report ''b1'') = ''b1''" by (simp add: clone_report_def)
  have b: "gget (s_builds ?s) (rr_BuildID (clone_report ''b1'')) = Some ?b" using n r by auto
  have i: "b_ID ?b = rr_BuildID (clone_report ''b1'')" "b_ID ?b \<noteq> []"
    "gget (g_tasks (b_Graph ?b)) (rr_TaskID (clone_report ''b1''))
       = Some (clone_task\<lparr> t_State := TaskRunning, t_StartedAt := 1 \<rparr>)"
    "is_terminal (rr_State (clone_report ''b1''))" by code_simp+
  from conjunct1 [OF result_outcome [OF b i prod.collapse [symmetric], of "\<lambda>x. []" "[]" 7 8]]
  show ?thesis by (simp add: clone_report_def)
qed

text \<open>The index from tasks to builds belongs to the last submission: after a build was submitted,
  every task ID of its graph is attributed to it, also when a build submitted before has a task with
  that ID; the index is where the master looks up the build of a reported result.\<close>

theorem submission_claims_task_ids:
  assumes "submit_build ks ks' now b s = Inr s'" "t \<in> set (tasks_of ks (b_Graph b))"
  shows "find_build_by_task (t_ID t) s' = Some (b_ID b)"
proof -
  have "gget (index_tasks x ts m) y = (if \<exists>u \<in> set ts. t_ID u = y then Some x else gget m y)" for x ts m y
    by (induction x ts m rule: index_tasks.induct) auto
  then show ?thesis
    using assms by (auto simp: submit_build_def find_build_by_task_def Let_def split: if_splits)
qed

theorem submission_claims_task_ids_witness:
  "find_build_by_task ''clone'' two_builds = Some ''b2''
   \<and> state_in (g_tasks (build_graph two_builds ''b1'')) ''clone'' = Some TaskRunning
   \<and> state_in (g_tasks (build_graph two_builds ''b2'')) ''clone'' = Some TaskPending"
proof -
  let ?s = "fst (schedule (small_env True) [''b1''] one_build)"
  have "submit_build [''clone''] [''clone''] 6 (small_ci_build ''b2'' clone_graph) ?s = Inr two_builds"
    by code_simp
  moreover have "tasks_of [''clone''] (b_Graph (small_ci_build ''b2'' clone_graph)) = [clone_task]"
    by code_simp
  ultimately have "find_build_by_task (t_ID clone_task) two_builds = Some (b_ID (small_ci_build ''b2'' clone_graph))"
    using submission_claims_task_ids by (metis list.set_intros(1))
  moreover have "state_in (g_tasks (build_graph two_builds ''b1'')) ''clone'' = Some TaskRunning"
    "state_in (g_tasks (build_graph two_builds ''b2'')) ''clone'' = Some TaskPending" by code_simp+
  ultimately show ?thesis by (simp add: clone_task_def small_task_def small_ci_build_def)
qed

definition cpu_of_w :: "scheduler \<Rightarrow> u32" where
  "cpu_of_w s = (case get_worker ''w'' (s_registry s) of None \<Rightarrow> 0 | Some w \<Rightarrow> wi_AvailableCPU w)"

text \<open>A failing assignment callback loses the task. The capacity is given back, but the task
  stays scheduled and is still noted as running on the worker: no later cycle offers it again, and
  when the build is cancelled the capacity is released a second time, so the worker then offers more
  CPU than it has.\<close>

theorem failed_callback_loses_task:
  "let s1 = fst (schedule (small_env False) [''b1''] one_build);
       s2 = fst (schedule (small_env True) [''b1''] s1);
       s3 = submitted (cancel_build [''clone''] 9 ''b1'' s1)
   in state_in (g_tasks (build_graph s1 ''b1'')) ''clone'' = Some TaskScheduled
      \<and> gget (s_taskWorker s1) ''clone'' = Some ''w'' \<and> cpu_of_w s1 = wi_TotalCPU small_worker
      \<and> snd (schedule (small_env True) [''b1''] s1) = (0, False)
      \<and> state_in (g_tasks (build_graph s2 ''b1'')) ''clone'' = Some TaskScheduled
      \<and> cpu_of_w s3 > wi_TotalCPU small_worker"
  unfolding Let_def by code_simp

text \<open>\<open>HandleDeadWorker\<close> fails the task of a dead worker but does not finish the build: the graph is
  complete, yet the build has no finishing time and the store still says queued.\<close>

theorem dead_worker_leaves_build_open:
  "let s = handle_dead_worker (\<lambda>b. children clone_graph) (\<lambda>b. children clone_graph) 9 [''clone''] ''w''
             (fst (schedule (small_env True) [''b1''] one_build))
   in is_complete (build_graph s ''b1'')
      \<and> map_option b_FinishedAt (gget (s_builds s) ''b1'') = Some 0
      \<and> map_option br_State (store_GetBuild ''b1'' (s_store s)) = Some ''queued''"
  unfolding Let_def by code_simp

end
