(* ===== verification/Pipeline_Config.thy ===== *)
theory Pipeline_Config
  imports Relay_Prelude
begin

text \<open>
  The pipeline definition, \<open>pkg/pipeline/config.go\<close>: the records a \<open>pipeline.yaml\<close> is decoded into.
  An optional section is a pointer in the code and an \<open>option\<close> here.
\<close>

record defaults =
  df_Image :: string
  df_Env :: "(string, string) gomap"
  df_CPUMillicores :: u32
  df_MemoryMB :: u32
  df_DiskMB :: u32
  df_TimeoutSeconds :: u32

record cache_mount_config =
  cc_Key :: string
  cc_Path :: string
  cc_ReadOnly :: bool

record artifact_config =
  ac_Name :: string
  ac_Path :: string

record task_config =
  tc_ID :: string
  tc_Name :: string
  tc_Image :: string
  tc_Commands :: "string list"
  tc_DependsOn :: "string list"
  tc_Env :: "(string, string) gomap"
  tc_SecretRefs :: "string list"
  tc_CPUMillicores :: u32
  tc_MemoryMB :: u32
  tc_DiskMB :: u32
  tc_TimeoutSeconds :: u32
  tc_Cache :: "cache_mount_config list"
  tc_Artifacts :: "artifact_config list"
  tc_Condition :: string

record triggers =
  tg_Branches :: "string list"
  tg_PullRequests :: bool
  tg_Paths :: "string list"

record code_review_config =
  cr_Enabled :: bool
  cr_Provider :: string
  cr_APIKeySecret :: string
  cr_Model :: string
  cr_OllamaURL :: string
  cr_ReviewerPrompt :: string
  cr_BaseBranch :: string
  cr_ServerURL :: string
  cr_FailOnCritical :: "bool option"
  cr_Image :: string

record sonarqube_config =
  sq_Enabled :: bool
  sq_ServerURL :: string
  sq_ProjectKey :: string
  sq_TokenSecret :: string
  sq_Image :: string
  sq_QualityGate :: bool
  sq_ExtraArgs :: "string list"
  sq_Sources :: string
  sq_Exclusions :: string

record linter_tool =
  lt_Name :: string
  lt_Image :: string
  lt_Config :: string
  lt_Args :: "string list"
  lt_Paths :: "string list"

record linter_config =
  lc_Enabled :: bool
  lc_Tools :: "linter_tool list"

record security_tool =
  st_Name :: string
  st_Image :: string
  st_Severity :: string
  st_FailOnFindings :: bool
  st_Args :: "string list"

record security_config =
  sc_Enabled :: bool
  sc_Tools :: "security_tool list"

record integrations =
  in_SonarQube :: "sonarqube_config option"
  in_Linters :: "linter_config option"
  in_Security :: "security_config option"
  in_CodeReview :: "code_review_config option"

record config =
  cf_Name :: string
  cf_Defaults :: defaults
  cf_Integrations :: integrations
  cf_Tasks :: "task_config list"
  cf_Triggers :: triggers

end
