(* ===== verification/Go_Strings.thy ===== *)
theory Go_Strings
  imports Relay_Prelude
begin

text \<open>
  The functions of Go's \<open>strings\<close> and \<open>encoding/base64\<close> packages the program uses, on strings as
  lists of bytes (a \<open>char\<close> is one byte).  \<open>replace_first\<close> and \<open>replace_all\<close> are used with a
  non-empty pattern only.  Base64 is the standard alphabet with padding; the lemmas are that decoding
  inverts encoding and that encoded text stays within the alphabet.
\<close>

section \<open>Strings\<close>

definition has_prefix :: "string \<Rightarrow> string \<Rightarrow> bool" where
  "has_prefix p s \<longleftrightarrow> take (length p) s = p"

definition trim_prefix :: "string \<Rightarrow> string \<Rightarrow> string" where
  "trim_prefix p s = (if has_prefix p s then drop (length p) s else s)"

fun replace_first :: "string \<Rightarrow> string \<Rightarrow> string \<Rightarrow> string" where
  "replace_first old new [] = []"
| "replace_first old new (c # cs) =
     (if has_prefix old (c # cs) then new @ drop (length old) (c # cs)
      else c # replace_first old new cs)"

function replace_all :: "string \<Rightarrow> string \<Rightarrow> string \<Rightarrow> string" where
  "replace_all old new [] = []"
| "replace_all old new (c # cs) =
     (if old \<noteq> [] \<and> has_prefix old (c # cs) then new @ replace_all old new (drop (length old) (c # cs))
      else c # replace_all old new cs)"
  by pat_completeness auto
termination
  by (relation "measure (\<lambda>(old, new, s). length s)") (auto simp: less_Suc_eq_le diff_le_self neq_Nil_conv)

fun contains :: "string \<Rightarrow> string \<Rightarrow> bool" where
  "contains [] p \<longleftrightarrow> p = []"
| "contains (c # cs) p \<longleftrightarrow> has_prefix p (c # cs) \<or> contains cs p"

fun join :: "string list \<Rightarrow> string \<Rightarrow> string" where
  "join [] sep = []"
| "join [x] sep = x"
| "join (x # y # zs) sep = x @ sep @ join (y # zs) sep"

lemma has_prefix_iff: "has_prefix p s \<longleftrightarrow> (\<exists>t. s = p @ t)"
proof
  assume "has_prefix p s"
  then have "s = p @ drop (length p) s" by (metis append_take_drop_id has_prefix_def)
  then show "\<exists>t. s = p @ t" by blast
next
  assume "\<exists>t. s = p @ t"
  then show "has_prefix p s" by (auto simp: has_prefix_def)
qed

lemma contains_iff: "contains s p \<longleftrightarrow> (\<exists>u v. s = u @ p @ v)"
proof (induction s)
  case Nil
  then show ?case by simp
next
  case (Cons c cs)
  show ?case
  proof
    assume "contains (c # cs) p"
    then consider t where "c # cs = p @ t" | "contains cs p" by (auto simp: has_prefix_iff)
    then show "\<exists>u v. c # cs = u @ p @ v"
    proof cases
      case (1 t)
      then have "c # cs = [] @ p @ t" by simp
      then show ?thesis by blast
    next
      case 2
      then obtain u v where "cs = u @ p @ v" using Cons.IH by blast
      then have "c # cs = (c # u) @ p @ v" by simp
      then show ?thesis by blast
    qed
  next
    assume "\<exists>u v. c # cs = u @ p @ v"
    then obtain u v where uv: "c # cs = u @ p @ v" by blast
    show "contains (c # cs) p"
    proof (cases u)
      case Nil
      then have "has_prefix p (c # cs)" using uv by (auto simp: has_prefix_iff)
      then show ?thesis by simp
    next
      case (Cons d ds)
      then have "cs = ds @ p @ v" using uv by simp
      then show ?thesis using Cons.IH by auto
    qed
  qed
qed

section \<open>Base64\<close>

definition base64_alphabet :: string where
  "base64_alphabet = ''ABCDEFGHIJKLMNOPQRSTUVWXYZabcdefghijklmnopqrstuvwxyz0123456789+/''"

definition base64_digit :: "nat \<Rightarrow> char" where
  "base64_digit n = base64_alphabet ! n"

definition base64_value :: "char \<Rightarrow> nat" where
  "base64_value c = length (takeWhile (\<lambda>d. d \<noteq> c) base64_alphabet)"

abbreviation byte_of :: "char \<Rightarrow> nat" where
  "byte_of c \<equiv> (of_char c :: nat)"

fun base64_encode :: "string \<Rightarrow> string" where
  "base64_encode [] = []"
| "base64_encode [a] =
     [base64_digit (byte_of a div 4), base64_digit (byte_of a mod 4 * 16), CHR ''='', CHR ''='']"
| "base64_encode [a, b] =
     [base64_digit (byte_of a div 4), base64_digit (byte_of a mod 4 * 16 + byte_of b div 16),
      base64_digit (byte_of b mod 16 * 4), CHR ''='']"
| "base64_encode (a # b # c # cs) =
     base64_digit (byte_of a div 4) # base64_digit (byte_of a mod 4 * 16 + byte_of b div 16) #
     base64_digit (byte_of b mod 16 * 4 + byte_of c div 64) # base64_digit (byte_of c mod 64) #
     base64_encode cs"

text \<open>What \<open>base64 -d\<close> computes on well-formed input.\<close>

fun base64_decode :: "string \<Rightarrow> string" where
  "base64_decode (p # q # r # s # cs) =
     (let x = base64_value p; y = base64_value q; z = base64_value r; w = base64_value s
      in if r = CHR ''='' then [char_of (x * 4 + y div 16)]
         else if s = CHR ''='' then [char_of (x * 4 + y div 16), char_of (y mod 16 * 16 + z div 4)]
         else char_of (x * 4 + y div 16) # char_of (y mod 16 * 16 + z div 4) #
              char_of (z mod 4 * 64 + w) # base64_decode cs)"
| "base64_decode _ = []"

lemma base64_alphabet_props: "length base64_alphabet = 64" "distinct base64_alphabet"
  "CHR ''='' \<notin> set base64_alphabet"
  unfolding base64_alphabet_def by simp_all

lemma base64_value_digit: "n < 64 \<Longrightarrow> base64_value (base64_digit n) = n"
proof -
  assume n: "n < 64"
  then have "takeWhile (\<lambda>d. d \<noteq> base64_alphabet ! n) base64_alphabet = take n base64_alphabet"
    using base64_alphabet_props(1,2)
    by (intro takeWhile_eq_take_P_nth) (auto simp: nth_eq_iff_index_eq)
  then show ?thesis using n base64_alphabet_props(1) by (simp add: base64_value_def base64_digit_def)
qed

lemma base64_digit_in: "n < 64 \<Longrightarrow> base64_digit n \<in> set base64_alphabet"
  using base64_alphabet_props(1) by (simp add: base64_digit_def)

lemma base64_digit_pad: "n < 64 \<Longrightarrow> base64_digit n \<noteq> CHR ''=''"
  using base64_digit_in base64_alphabet_props(3) by metis

lemma byte_of_less: "byte_of c < 256"
  by simp

lemma base64_parts_nat:
  fixes a b c :: nat
  assumes "a < 256" "b < 256" "c < 256"
  shows "a div 4 < 64" "a mod 4 * 16 < 64" "a mod 4 * 16 + b div 16 < 64"
    "b mod 16 * 4 < 64" "b mod 16 * 4 + c div 64 < 64" "c mod 64 < 64"
proof -
  have d: "a div 4 < 64" "b div 16 < 16" "c div 64 < 4"
    using assms by (simp_all add: less_mult_imp_div_less)
  moreover have m: "a mod 4 < 4" "b mod 16 < 16" "c mod 64 < 64" by simp_all
  ultimately show "a div 4 < 64" "a mod 4 * 16 < 64" "a mod 4 * 16 + b div 16 < 64"
    "b mod 16 * 4 < 64" "b mod 16 * 4 + c div 64 < 64" "c mod 64 < 64" by linarith+
qed

lemmas base64_parts = base64_parts_nat [OF byte_of_less byte_of_less byte_of_less]

lemma base64_join_nat:
  fixes b c :: nat
  assumes "b < 256" "c < 256"
  shows "b div 16 div 16 = 0" "b div 16 mod 16 * 16 + b mod 16 = b"
    "b div 16 mod 16 * 16 + (b mod 16 + c div 64 div 4) = b" "c div 64 mod 4 * 64 + c mod 64 = c"
proof -
  have "b div 16 < 16" "c div 64 < 4" using assms by (simp_all add: less_mult_imp_div_less)
  then show "b div 16 div 16 = 0" "b div 16 mod 16 * 16 + b mod 16 = b"
    "b div 16 mod 16 * 16 + (b mod 16 + c div 64 div 4) = b" "c div 64 mod 4 * 64 + c mod 64 = c"
    using div_mult_mod_eq [of b 16] div_mult_mod_eq [of c 64] by simp_all
qed

lemmas base64_join = base64_join_nat [OF byte_of_less byte_of_less]

lemma base64_roundtrip: "base64_decode (base64_encode s) = s"
  by (induction s rule: base64_encode.induct)
    (simp_all add: Let_def base64_value_digit base64_parts base64_digit_pad base64_join)

lemma base64_encode_chars: "c \<in> set (base64_encode s) \<Longrightarrow> c \<in> set base64_alphabet \<or> c = CHR ''=''"
  by (induction s rule: base64_encode.induct) (auto simp: base64_digit_in base64_parts)

end
