(* ===== verification/Pipeline_Tools.thy ===== *)
theory Pipeline_Tools
  imports Pipeline_Config Task Go_Strings
begin

text \<open>
  The built-in tools, \<open>pkg/pipeline/defaults.go\<close>: default images, commands and caches, and the shell
  commands generated for linters, scanners, the code review and SonarQube.  The Python program that
  the review task runs, \<open>codeReviewScript\<close>, is data to this code and an argument of
  \<open>commands_for_code_review\<close>.
\<close>

section \<open>Tables\<close>

definition default_images :: "(string, string) gomap" where
  "default_images =
    [(''golangci-lint'', ''golangci/golangci-lint:v1.62''),
     (''eslint'', ''node:22-slim''),
     (''ruff'', ''ghcr.io/astral-sh/ruff:latest''),
     (''pylint'', ''python:3.13-slim''),
     (''rubocop'', ''ruby:3.3-slim''),
     (''shellcheck'', ''koalaman/shellcheck-alpine:stable''),
     (''hadolint'', ''hadolint/hadolint:latest''),
     (''trivy'', ''aquasec/trivy:latest''),
     (''grype'', ''anchore/grype:latest''),
     (''semgrep'', ''semgrep/semgrep:latest''),
     (''gosec'', ''securego/gosec:latest''),
     (''sonarqube'', ''sonarsource/sonar-scanner-cli:latest''),
     (''code-review'', ''python:3.12-slim'')]"

text \<open>A quotation mark cannot stand in a literal.\<close>

abbreviation quote :: char where "quote \<equiv> CHR 0x27"

definition default_commands :: "(string, string) gomap" where
  "default_commands =
    [(''golangci-lint'', ''golangci-lint run --timeout=5m''),
     (''eslint'', ''npx eslint .''),
     (''ruff'', ''ruff check .''),
     (''pylint'', ''pylint .''),
     (''rubocop'', ''rubocop''),
     (''shellcheck'', ''find . -name '' @ [quote] @ ''*.sh'' @ [quote] @ '' -exec shellcheck {} +''),
     (''hadolint'', ''find . -name '' @ [quote] @ ''Dockerfile*'' @ [quote] @ '' -exec hadolint {} +''),
     (''trivy'', ''trivy fs --severity HIGH,CRITICAL .''),
     (''grype'', ''grype dir:.''),
     (''semgrep'', ''semgrep scan --config=auto .''),
     (''gosec'', ''gosec ./...'')]"

definition mount :: "string \<Rightarrow> string \<Rightarrow> cache_mount" where
  "mount key path = \<lparr> cm_CacheKey = key, cm_MountPath = path, cm_ReadOnly = False \<rparr>"

definition default_caches_for_linter :: "string \<Rightarrow> cache_mount list" where
  "default_caches_for_linter name =
     (if name = ''golangci-lint'' then
        [mount ''gomod'' ''/root/go/pkg/mod'',
         mount ''golangci-lint-cache'' ''/root/.cache/golangci-lint'']
      else if name = ''eslint'' then [mount ''npm'' ''/root/.npm'']
      else if name = ''ruff'' \<or> name = ''pylint'' then [mount ''pip'' ''/root/.cache/pip'']
      else [])"

definition default_caches_for_scanner :: "string \<Rightarrow> cache_mount list" where
  "default_caches_for_scanner name =
     (if name = ''trivy'' then [mount ''trivy-db'' ''/root/.cache/trivy'']
      else if name = ''grype'' then [mount ''grype-db'' ''/root/.cache/grype'']
      else [])"

definition image_for_tool :: "string \<Rightarrow> string \<Rightarrow> string" where
  "image_for_tool name override =
     (if override \<noteq> [] then override
      else case gget default_images name of Some img \<Rightarrow> img | None \<Rightarrow> [])"

section \<open>Commands\<close>

definition linter_config_flag :: "linter_tool \<Rightarrow> string" where
  "linter_config_flag tool =
     (if lt_Config tool = [] then []
      else if lt_Name tool = ''golangci-lint'' then '' --config='' @ lt_Config tool
      else if lt_Name tool = ''eslint'' then '' --config '' @ lt_Config tool
      else if lt_Name tool = ''ruff'' then '' --config='' @ lt_Config tool
      else [])"

definition commands_for_linter :: "linter_tool \<Rightarrow> string list" where
  "commands_for_linter tool =
     (if lt_Args tool \<noteq> [] then lt_Args tool
      else case gget default_commands (lt_Name tool) of
        None \<Rightarrow> [lt_Name tool]
      | Some base \<Rightarrow>
          let cmd = base @ linter_config_flag tool
          in if lt_Paths tool \<noteq> []
             then [take (length cmd - 1) cmd @ join (lt_Paths tool) '' '']
             else [cmd])"

definition commands_for_scanner :: "security_tool \<Rightarrow> string list" where
  "commands_for_scanner tool =
     (if st_Args tool \<noteq> [] then st_Args tool
      else case gget default_commands (st_Name tool) of
        None \<Rightarrow> [st_Name tool]
      | Some base \<Rightarrow>
          let cmd = (if st_Severity tool \<noteq> [] \<and> st_Name tool = ''trivy''
                     then replace_first ''HIGH,CRITICAL'' (st_Severity tool) base else base)
          in [cmd @ (if st_FailOnFindings tool \<and> st_Name tool = ''trivy''
                     then '' --exit-code=1'' else [])])"

definition or_else :: "string \<Rightarrow> string \<Rightarrow> string" where
  "or_else s dflt = (if s = [] then dflt else s)"

definition quoted :: "string \<Rightarrow> string" where
  "quoted s = quote # s @ [quote]"

definition commands_for_code_review :: "string \<Rightarrow> code_review_config \<Rightarrow> string list" where
  "commands_for_code_review script cfg =
     (let provider = or_else (cr_Provider cfg) ''anthropic'';
          baseBranch = or_else (cr_BaseBranch cfg) ''main'';
          promptPath = or_else (cr_ReviewerPrompt cfg) ''code-reviewer.md'';
          (sdkPkg, defaultModel) =
            (if provider = ''openai'' then (''openai'', ''gpt-4o'')
             else if provider = ''ollama'' then (''openai'', ''llama3.2'')
             else (''anthropic'', ''claude-sonnet-4-6''));
          model = or_else (cr_Model cfg) defaultModel;
          ollamaURL = or_else (cr_OllamaURL cfg) ''http://localhost:11434'';
          failOnCritical = (if cr_FailOnCritical cfg = Some False then ''false'' else ''true'');
          encoded = base64_encode script;
          install = ''command -v apt-get >/dev/null 2>&1 &&'' @
            '' (apt-get update -qq && apt-get install -y -qq git ||'' @
            '' echo '' @ quoted ''WARNING: apt install of git failed'' @ '' >&2);'' @
            '' command -v git >/dev/null 2>&1 || echo '' @
              quoted ''WARNING: git not found, diff may fail'' @ '' >&2;'' @
            '' pip install -q '' @ sdkPkg @ '' || exit 1'';
          run = ''echo '' @ quoted encoded @ '' | base64 -d | '' @
            ''REVIEW_PROVIDER='' @ quoted provider @ '' REVIEW_BASE_BRANCH='' @ quoted baseBranch @
            '' REVIEW_PROMPT_PATH='' @ quoted promptPath @ '' '' @
            ''REVIEW_MODEL='' @ quoted model @ '' REVIEW_OLLAMA_URL='' @ quoted ollamaURL @
            '' CODE_REVIEW_SERVER_URL='' @ quoted (cr_ServerURL cfg) @ '' '' @
            ''REVIEW_FAIL_ON_CRITICAL='' @ quoted failOnCritical @ '' python3''
      in [install, run])"

fun append_args :: "string \<Rightarrow> string list \<Rightarrow> string" where
  "append_args cmd [] = cmd"
| "append_args cmd (a # as) = append_args (cmd @ '' '' @ a) as"

definition commands_for_sonar :: "sonarqube_config \<Rightarrow> string list" where
  "commands_for_sonar cfg =
     (let cmd0 = ''sonar-scanner'' @ '' -Dsonar.host.url='' @ sq_ServerURL cfg @
            '' -Dsonar.projectKey='' @ sq_ProjectKey cfg @ '' -Dsonar.token=$SONAR_TOKEN'';
          cmd1 = (if sq_Sources cfg \<noteq> [] then cmd0 @ '' -Dsonar.sources='' @ sq_Sources cfg else cmd0);
          cmd2 = (if sq_Exclusions cfg \<noteq> []
                  then cmd1 @ '' -Dsonar.exclusions='' @ sq_Exclusions cfg else cmd1);
          cmd3 = (if sq_QualityGate cfg then cmd2 @ '' -Dsonar.qualitygate.wait=true'' else cmd2)
      in [append_args cmd3 (sq_ExtraArgs cfg)])"

end
