(* ===== verification/Pipeline_Build.thy ===== *)
theory Pipeline_Build
  imports Pipeline_Tools Graph_Live
begin

text \<open>
  From a pipeline definition to a task graph, \<open>pkg/pipeline/parser.go\<close>.  Decoding the YAML text is
  done by a library and is the argument \<open>unmarshal\<close> of \<open>parse\<close>; the program of the review task is the
  argument \<open>script\<close>; the visiting orders are those of the range loops.  A call of \<open>AddEdge\<close> whose error
  the code drops leaves the graph as it is (\<open>try_edge\<close>).
\<close>

datatype pipeline_error =
    ReadingFile
  | ParsingYAML
  | AddingTask string dag_error
  | AddingEdge string string dag_error
  | UnknownLinter string
  | AddingLinter string dag_error
  | SonarServerRequired
  | SonarProjectRequired
  | AddingSonar dag_error
  | UnknownScanner string
  | AddingScanner string dag_error
  | APIKeyRequired string
  | AddingReview dag_error
  | PipelineValidation dag_error

section \<open>Parsing\<close>

definition apply_defaults :: "config \<Rightarrow> config" where
  "apply_defaults cfg =
     (let d = cf_Defaults cfg;
          d1 = (if df_CPUMillicores d = 0 then d\<lparr> df_CPUMillicores := 1000 \<rparr> else d);
          d2 = (if df_MemoryMB d1 = 0 then d1\<lparr> df_MemoryMB := 512 \<rparr> else d1);
          d3 = (if df_DiskMB d2 = 0 then d2\<lparr> df_DiskMB := 2000 \<rparr> else d2);
          d4 = (if df_TimeoutSeconds d3 = 0 then d3\<lparr> df_TimeoutSeconds := 600 \<rparr> else d3)
      in cfg\<lparr> cf_Defaults := d4 \<rparr>)"

definition parse :: "(string \<Rightarrow> config option) \<Rightarrow> string \<Rightarrow> pipeline_error + config" where
  "parse unmarshal data =
     (case unmarshal data of None \<Rightarrow> Inl ParsingYAML | Some cfg \<Rightarrow> Inr (apply_defaults cfg))"

definition parse_file ::
    "(string \<Rightarrow> config option) \<Rightarrow> (string \<Rightarrow> string option) \<Rightarrow> string \<Rightarrow> pipeline_error + config" where
  "parse_file unmarshal read_file path =
     (case read_file path of None \<Rightarrow> Inl ReadingFile | Some data \<Rightarrow> parse unmarshal data)"

section \<open>User-defined tasks\<close>

definition or_default :: "u32 \<Rightarrow> u32 \<Rightarrow> u32" where
  "or_default x dflt = (if x = 0 then dflt else x)"

text \<open>Two loops that copy one map into another: first the defaults, then the task's own entries.\<close>

fun copy_env :: "(string, string) gomap \<Rightarrow> (string, string) gomap \<Rightarrow> (string, string) gomap" where
  "copy_env [] env = env"
| "copy_env ((k, v) # m) env = copy_env m (gput k v env)"

definition config_to_task :: "task_config \<Rightarrow> defaults \<Rightarrow> task" where
  "config_to_task tc d = zero_task\<lparr>
     t_ID := tc_ID tc,
     t_Name := or_else (tc_Name tc) (tc_ID tc),
     t_Condition := tc_Condition tc,
     t_ContainerImage := or_else (tc_Image tc) (df_Image d),
     t_Commands := tc_Commands tc,
     t_Env := copy_env (tc_Env tc) (copy_env (df_Env d) []),
     t_CPUMillicores := or_default (tc_CPUMillicores tc) (df_CPUMillicores d),
     t_MemoryMB := or_default (tc_MemoryMB tc) (df_MemoryMB d),
     t_DiskMB := or_default (tc_DiskMB tc) (df_DiskMB d),
     t_TimeoutSeconds := or_default (tc_TimeoutSeconds tc) (df_TimeoutSeconds d),
     t_CacheMounts := map (\<lambda>c. \<lparr> cm_CacheKey = cc_Key c, cm_MountPath = cc_Path c,
                                cm_ReadOnly = cc_ReadOnly c \<rparr>) (tc_Cache tc),
     t_SecretRefs := tc_SecretRefs tc \<rparr>"

fun add_config_tasks :: "defaults \<Rightarrow> task_config list \<Rightarrow> graph \<Rightarrow> pipeline_error + graph" where
  "add_config_tasks d [] g = Inr g"
| "add_config_tasks d (tc # tcs) g =
     on_ok (wrap_error (AddingTask (tc_ID tc)) (add_task (config_to_task tc d) g))
       (add_config_tasks d tcs)"

fun add_dependencies :: "string \<Rightarrow> string list \<Rightarrow> graph \<Rightarrow> pipeline_error + graph" where
  "add_dependencies x [] g = Inr g"
| "add_dependencies x (p # ps) g =
     on_ok (wrap_error (AddingEdge p x) (add_edge p x g)) (add_dependencies x ps)"

fun add_config_edges :: "task_config list \<Rightarrow> graph \<Rightarrow> pipeline_error + graph" where
  "add_config_edges [] g = Inr g"
| "add_config_edges (tc # tcs) g =
     on_ok (add_dependencies (tc_ID tc) (tc_DependsOn tc) g) (add_config_edges tcs)"

section \<open>Integration tasks\<close>

definition try_edge :: "string \<Rightarrow> string \<Rightarrow> graph \<Rightarrow> graph" where
  "try_edge p c g =
     (if get_task g p = None then g else case add_edge p c g of Inl _ \<Rightarrow> g | Inr g' \<Rightarrow> g')"

definition linter_task :: "config \<Rightarrow> linter_tool \<Rightarrow> string \<Rightarrow> task" where
  "linter_task cfg tool img = zero_task\<lparr>
     t_ID := ''lint-'' @ lt_Name tool,
     t_Name := ''lint: '' @ lt_Name tool,
     t_ContainerImage := img,
     t_Commands := commands_for_linter tool,
     t_CPUMillicores := df_CPUMillicores (cf_Defaults cfg),
     t_MemoryMB := (if df_MemoryMB (cf_Defaults cfg) < 2048 then 2048
                    else df_MemoryMB (cf_Defaults cfg)),
     t_DiskMB := df_DiskMB (cf_Defaults cfg),
     t_TimeoutSeconds := 600,
     t_CacheMounts := default_caches_for_linter (lt_Name tool) \<rparr>"

fun add_linters :: "config \<Rightarrow> linter_tool list \<Rightarrow> graph \<Rightarrow> pipeline_error + graph" where
  "add_linters cfg [] g = Inr g"
| "add_linters cfg (tool # tools) g =
     (let taskID = ''lint-'' @ lt_Name tool;
          img = image_for_tool (lt_Name tool) (lt_Image tool)
      in if img = [] then Inl (UnknownLinter (lt_Name tool))
         else on_ok (wrap_error (AddingLinter taskID) (add_task (linter_task cfg tool img) g))
                (\<lambda>g'. add_linters cfg tools (try_edge ''clone'' taskID g')))"

definition add_linter_tasks :: "config \<Rightarrow> graph \<Rightarrow> pipeline_error + graph" where
  "add_linter_tasks cfg g =
     (case in_Linters (cf_Integrations cfg) of
        None \<Rightarrow> Inr g
      | Some lc \<Rightarrow> if \<not> lc_Enabled lc then Inr g else add_linters cfg (lc_Tools lc) g)"

definition sonar_task :: "config \<Rightarrow> sonarqube_config \<Rightarrow> task" where
  "sonar_task cfg sq = zero_task\<lparr>
     t_ID := ''sonarqube'',
     t_Name := ''sonarqube analysis'',
     t_ContainerImage := image_for_tool ''sonarqube'' (sq_Image sq),
     t_Commands := commands_for_sonar sq,
     t_CPUMillicores := 2000,
     t_MemoryMB := 2048,
     t_DiskMB := df_DiskMB (cf_Defaults cfg),
     t_TimeoutSeconds := 600,
     t_SecretRefs := (if sq_TokenSecret sq \<noteq> [] then [sq_TokenSecret sq] else []),
     t_Env := [(''SONAR_TOKEN'', ''$SONAR_TOKEN'')] \<rparr>"

fun try_edges :: "string list \<Rightarrow> string \<Rightarrow> graph \<Rightarrow> graph" where
  "try_edges [] c g = g"
| "try_edges (p # ps) c g = try_edges ps c (try_edge p c g)"

definition add_sonar_task :: "config \<Rightarrow> graph \<Rightarrow> pipeline_error + graph" where
  "add_sonar_task cfg g =
     (case in_SonarQube (cf_Integrations cfg) of
        None \<Rightarrow> Inr g
      | Some sq \<Rightarrow>
          if \<not> sq_Enabled sq then Inr g
          else if sq_ServerURL sq = [] then Inl SonarServerRequired
          else if sq_ProjectKey sq = [] then Inl SonarProjectRequired
          else on_ok (wrap_error AddingSonar (add_task (sonar_task cfg sq) g))
                 (\<lambda>g'. Inr (try_edges [''compile'', ''test'', ''build'', ''clone''] ''sonarqube'' g')))"

definition review_task :: "string \<Rightarrow> config \<Rightarrow> code_review_config \<Rightarrow> task" where
  "review_task script cfg cr = zero_task\<lparr>
     t_ID := ''review-pr'',
     t_Name := ''code review'',
     t_ContainerImage := image_for_tool ''code-review'' (cr_Image cr),
     t_Commands := commands_for_code_review script cr,
     t_CPUMillicores := df_CPUMillicores (cf_Defaults cfg),
     t_MemoryMB := 512,
     t_DiskMB := df_DiskMB (cf_Defaults cfg),
     t_TimeoutSeconds := 600,
     t_SecretRefs := (if cr_APIKeySecret cr \<noteq> [] then [cr_APIKeySecret cr] else []) \<rparr>"

definition add_code_review_task :: "string \<Rightarrow> config \<Rightarrow> graph \<Rightarrow> pipeline_error + graph" where
  "add_code_review_task script cfg g =
     (case in_CodeReview (cf_Integrations cfg) of
        None \<Rightarrow> Inr g
      | Some cr \<Rightarrow>
          if \<not> cr_Enabled cr then Inr g
          else
            let provider = or_else (cr_Provider cr) ''anthropic''
            in if cr_ServerURL cr = [] \<and> provider \<noteq> ''ollama'' \<and> cr_APIKeySecret cr = []
               then Inl (APIKeyRequired provider)
               else on_ok (wrap_error AddingReview (add_task (review_task script cfg cr) g))
                      (\<lambda>g'. Inr (try_edge ''clone'' ''review-pr'' g')))"

definition scanner_task :: "config \<Rightarrow> security_tool \<Rightarrow> string \<Rightarrow> task" where
  "scanner_task cfg tool img = zero_task\<lparr>
     t_ID := ''security-'' @ st_Name tool,
     t_Name := ''security: '' @ st_Name tool,
     t_ContainerImage := img,
     t_Commands := commands_for_scanner tool,
     t_CPUMillicores := df_CPUMillicores (cf_Defaults cfg),
     t_MemoryMB := 1024,
     t_DiskMB := df_DiskMB (cf_Defaults cfg),
     t_TimeoutSeconds := 600,
     t_CacheMounts := default_caches_for_scanner (st_Name tool) \<rparr>"

fun add_scanners :: "config \<Rightarrow> security_tool list \<Rightarrow> graph \<Rightarrow> pipeline_error + graph" where
  "add_scanners cfg [] g = Inr g"
| "add_scanners cfg (tool # tools) g =
     (let taskID = ''security-'' @ st_Name tool;
          img = image_for_tool (st_Name tool) (st_Image tool)
      in if img = [] then Inl (UnknownScanner (st_Name tool))
         else on_ok (wrap_error (AddingScanner taskID) (add_task (scanner_task cfg tool img) g))
                (\<lambda>g'. add_scanners cfg tools (try_edge ''clone'' taskID g')))"

definition add_security_tasks :: "config \<Rightarrow> graph \<Rightarrow> pipeline_error + graph" where
  "add_security_tasks cfg g =
     (case in_Security (cf_Integrations cfg) of
        None \<Rightarrow> Inr g
      | Some sc \<Rightarrow> if \<not> sc_Enabled sc then Inr g else add_scanners cfg (sc_Tools sc) g)"

section \<open>The whole graph\<close>

definition assemble :: "string \<Rightarrow> config \<Rightarrow> pipeline_error + graph" where
  "assemble script cfg =
     on_ok (add_config_tasks (cf_Defaults cfg) (cf_Tasks cfg) new_graph) (\<lambda>g1.
     on_ok (add_config_edges (cf_Tasks cfg) g1) (\<lambda>g2.
     on_ok (add_linter_tasks cfg g2) (\<lambda>g3.
     on_ok (add_sonar_task cfg g3) (\<lambda>g4.
     on_ok (add_security_tasks cfg g4) (add_code_review_task script cfg)))))"

definition build_dag ::
    "string \<Rightarrow> (graph \<Rightarrow> string list) \<Rightarrow> (graph \<Rightarrow> string list) \<Rightarrow> (graph \<Rightarrow> string \<Rightarrow> string list)
       \<Rightarrow> config \<Rightarrow> pipeline_error + graph" where
  "build_dag script ks ks' ord cfg =
     on_ok (assemble script cfg) (\<lambda>g.
       wrap_error PipelineValidation (validate (ks g) (ks' g) (ord g) g))"

end
