(* ===== verification/Pipeline_Properties.thy ===== *)
theory Pipeline_Properties
  imports Pipeline_Build
begin

text \<open>
  The properties of the pipeline front end: the graph it builds satisfies what the scheduler assumes
  of a submitted graph and has the tasks and the dependencies the pipeline file declares.
\<close>

section \<open>How a graph grows\<close>

lemma all_pending_iff: "gwf (g_tasks g) \<Longrightarrow>
    all_pending g \<longleftrightarrow> (\<forall>x t. gget (g_tasks g) x = Some t \<longrightarrow> t_State t = TaskPending)"
  by (simp add: all_pending_def list_all_gomap)

definition fresh_graph :: "graph \<Rightarrow> bool" where
  "fresh_graph g \<longleftrightarrow> wf_graph g \<and> all_pending g"

text \<open>The second graph is fresh and has every task of the first, with the same parents.\<close>

definition extends :: "graph \<Rightarrow> graph \<Rightarrow> bool" where
  "extends g g' \<longleftrightarrow> fresh_graph g' \<and> (\<forall>x t. gget (g_tasks g) x = Some t \<longrightarrow>
      gget (g_tasks g') x = Some t \<and> set (parents g' x) = set (parents g x))"

lemma extends_refl: "fresh_graph g \<Longrightarrow> extends g g"
  by (simp add: extends_def)

lemma extends_fresh: "extends g g' \<Longrightarrow> fresh_graph g'"
  by (simp add: extends_def)

lemma extends_trans: "extends g g' \<Longrightarrow> extends g' g'' \<Longrightarrow> extends g g''"
  unfolding extends_def by metis

lemma add_task_cases:
  assumes "add_task t g = Inr g'"
  shows "gget (g_tasks g) (t_ID t) = None"
    and "g_tasks g' = gput (t_ID t) (t\<lparr> t_State := TaskPending \<rparr>) (g_tasks g)"
    and "parents g' x = parents g x"
  using assms by (auto simp: add_task_def set_of_key_def split: if_splits)

lemma add_task_fresh:
  assumes "fresh_graph g" "add_task t g = Inr g'"
  shows "fresh_graph g'"
proof -
  have w: "wf_graph g'" using assms(1) wf_add_task [OF _ assms(2)] by (simp add: fresh_graph_def)
  have p: "t_State u = TaskPending" if "gget (g_tasks g) x = Some u" for x u
    using assms(1) that all_pending_iff [of g] by (auto simp: fresh_graph_def wf_tasks)
  have "all_pending g'"
    unfolding all_pending_iff [OF wf_tasks [OF w]] add_task_cases(2) [OF assms(2)]
    using p by (auto split: if_splits)
  then show ?thesis using w by (simp add: fresh_graph_def)
qed

lemma add_task_extends: "fresh_graph g \<Longrightarrow> add_task t g = Inr g' \<Longrightarrow> extends g g'"
  using add_task_cases [of t g g'] add_task_fresh [of g t g'] by (auto simp: extends_def)

lemma add_edge_cases:
  assumes "add_edge p c g = Inr g'"
  shows "g_tasks g' = g_tasks g" "set (parents g' x) = (if x = c then {p} else {}) \<union> set (parents g x)"
  using assms by (auto simp: add_edge_def split: if_splits)

lemma add_edge_fresh: "fresh_graph g \<Longrightarrow> add_edge p c g = Inr g' \<Longrightarrow> fresh_graph g'"
  using add_edge_cases(1) [of p c g g'] wf_add_edge by (auto simp: fresh_graph_def all_pending_def)

lemma try_edge_extends:
  assumes "extends g g'" "gget (g_tasks g) c = None"
  shows "extends g (try_edge p c g')"
proof (cases "get_task g' p = None \<or> (\<exists>e. add_edge p c g' = Inl e)")
  case True
  then show ?thesis using assms by (auto simp: try_edge_def)
next
  case False
  then obtain g'' where e: "add_edge p c g' = Inr g''" by (cases "add_edge p c g'") auto
  have "fresh_graph g''" using add_edge_fresh [OF extends_fresh [OF assms(1)] e] .
  then have "extends g g''"
    using assms add_edge_cases [OF e] unfolding extends_def by auto
  then show ?thesis using False e by (auto simp: try_edge_def)
qed

lemma try_edges_extends:
  "extends g g' \<Longrightarrow> gget (g_tasks g) c = None \<Longrightarrow> extends g (try_edges ps c g')"
  by (induction ps arbitrary: g') (simp_all add: try_edge_extends)

section \<open>Integration tasks leave the user's tasks alone\<close>

lemma add_linters_extends: "add_linters cfg tools g = Inr g' \<Longrightarrow> fresh_graph g \<Longrightarrow> extends g g'"
proof (induction tools arbitrary: g)
  case Nil
  then show ?case by (simp add: extends_refl)
next
  case (Cons tool tools)
  then obtain img g1 where t: "add_task (linter_task cfg tool img) g = Inr g1"
    and r: "add_linters cfg tools (try_edge ''clone'' (''lint-'' @ lt_Name tool) g1) = Inr g'"
    by (auto simp: Let_def split: if_splits)
  have "gget (g_tasks g) (''lint-'' @ lt_Name tool) = None"
    using add_task_cases(1) [OF t] by (simp add: linter_task_def)
  from try_edge_extends [OF add_task_extends [OF Cons.prems(2) t] this]
  have e: "extends g (try_edge ''clone'' (''lint-'' @ lt_Name tool) g1)" .
  from Cons.IH [OF r extends_fresh [OF e]] e show ?case using extends_trans by blast
qed

lemma add_scanners_extends: "add_scanners cfg tools g = Inr g' \<Longrightarrow> fresh_graph g \<Longrightarrow> extends g g'"
proof (induction tools arbitrary: g)
  case Nil
  then show ?case by (simp add: extends_refl)
next
  case (Cons tool tools)
  then obtain img g1 where t: "add_task (scanner_task cfg tool img) g = Inr g1"
    and r: "add_scanners cfg tools (try_edge ''clone'' (''security-'' @ st_Name tool) g1) = Inr g'"
    by (auto simp: Let_def split: if_splits)
  have "gget (g_tasks g) (''security-'' @ st_Name tool) = None"
    using add_task_cases(1) [OF t] by (simp add: scanner_task_def)
  from try_edge_extends [OF add_task_extends [OF Cons.prems(2) t] this]
  have e: "extends g (try_edge ''clone'' (''security-'' @ st_Name tool) g1)" .
  from Cons.IH [OF r extends_fresh [OF e]] e show ?case using extends_trans by blast
qed

lemma add_linter_tasks_extends: "add_linter_tasks cfg g = Inr g' \<Longrightarrow> fresh_graph g \<Longrightarrow> extends g g'"
  using add_linters_extends
  by (auto simp: add_linter_tasks_def extends_refl split: option.splits if_splits)

lemma add_security_tasks_extends: "add_security_tasks cfg g = Inr g' \<Longrightarrow> fresh_graph g \<Longrightarrow> extends g g'"
  using add_scanners_extends
  by (auto simp: add_security_tasks_def extends_refl split: option.splits if_splits)

lemma add_sonar_task_extends:
  assumes "add_sonar_task cfg g = Inr g'" "fresh_graph g"
  shows "extends g g'"
proof (cases "g' = g")
  case False
  then obtain sq g1 where t: "add_task (sonar_task cfg sq) g = Inr g1"
    and g': "g' = try_edges [''compile'', ''test'', ''build'', ''clone''] ''sonarqube'' g1"
    using assms(1)
    by (auto simp: add_sonar_task_def simp del: try_edges.simps split: option.splits if_splits)
  have "gget (g_tasks g) ''sonarqube'' = None"
    using add_task_cases(1) [OF t] by (simp add: sonar_task_def)
  then show ?thesis
    unfolding g' by (rule try_edges_extends [OF add_task_extends [OF assms(2) t]])
qed (simp add: extends_refl assms(2))

lemma add_code_review_extends:
  assumes "add_code_review_task script cfg g = Inr g'" "fresh_graph g"
  shows "extends g g'"
proof (cases "g' = g")
  case False
  then obtain cr g1 where t: "add_task (review_task script cfg cr) g = Inr g1"
    and g': "g' = try_edge ''clone'' ''review-pr'' g1"
    using assms(1) by (auto simp: add_code_review_task_def Let_def split: option.splits if_splits)
  have "gget (g_tasks g) ''review-pr'' = None"
    using add_task_cases(1) [OF t] by (simp add: review_task_def)
  then show ?thesis
    unfolding g' by (rule try_edge_extends [OF add_task_extends [OF assms(2) t]])
qed (simp add: extends_refl assms(2))

section \<open>User tasks and dependencies\<close>

lemma config_to_task_basic [simp]:
  "t_ID (config_to_task tc d) = tc_ID tc" "t_State (config_to_task tc d) = TaskPending"
  "(config_to_task tc d)\<lparr> t_State := TaskPending \<rparr> = config_to_task tc d"
  by (simp_all add: config_to_task_def zero_task_def)

lemma add_config_tasks_spec:
  "add_config_tasks d tcs g = Inr g' \<Longrightarrow> fresh_graph g \<Longrightarrow>
     fresh_graph g' \<and> (\<forall>x. parents g' x = parents g x)
     \<and> (\<forall>x t. gget (g_tasks g) x = Some t \<longrightarrow> gget (g_tasks g') x = Some t)
     \<and> (\<forall>tc \<in> set tcs. gget (g_tasks g) (tc_ID tc) = None
          \<and> gget (g_tasks g') (tc_ID tc) = Some (config_to_task tc d))
     \<and> distinct (map tc_ID tcs)"
proof (induction tcs arbitrary: g)
  case Nil
  then show ?case by simp
next
  case (Cons tc tcs)
  then obtain g1 where t: "add_task (config_to_task tc d) g = Inr g1"
    and r: "add_config_tasks d tcs g1 = Inr g'" by auto
  note C = add_task_cases [OF t]
  have old: "gget (g_tasks g1) x = Some u" if "gget (g_tasks g) x = Some u" for x u
    using that C by auto
  from Cons.IH [OF r add_task_fresh [OF Cons.prems(2) t]] C old
  show ?case by (auto split: if_splits)
qed

lemma add_dependencies_spec:
  "add_dependencies x ps g = Inr g' \<Longrightarrow> fresh_graph g \<Longrightarrow>
     fresh_graph g' \<and> g_tasks g' = g_tasks g
     \<and> (\<forall>y. set (parents g' y) = (if y = x then set ps else {}) \<union> set (parents g y))"
proof (induction ps arbitrary: g)
  case Nil
  then show ?case by simp
next
  case (Cons p ps)
  then obtain g1 where e: "add_edge p x g = Inr g1" and r: "add_dependencies x ps g1 = Inr g'" by auto
  from Cons.IH [OF r add_edge_fresh [OF Cons.prems(2) e]] add_edge_cases [OF e] show ?case by auto
qed

lemma add_config_edges_spec:
  "add_config_edges tcs g = Inr g' \<Longrightarrow> fresh_graph g \<Longrightarrow>
     fresh_graph g' \<and> g_tasks g' = g_tasks g
     \<and> (\<forall>y. set (parents g' y) = \<Union> {set (tc_DependsOn tc) |tc. tc \<in> set tcs \<and> tc_ID tc = y}
          \<union> set (parents g y))"
proof (induction tcs arbitrary: g)
  case Nil
  then show ?case by simp
next
  case (Cons tc tcs)
  then obtain g1 where e: "add_dependencies (tc_ID tc) (tc_DependsOn tc) g = Inr g1"
    and r: "add_config_edges tcs g1 = Inr g'" by auto
  note D = add_dependencies_spec [OF e Cons.prems(2)]
  from Cons.IH [OF r] D have I: "fresh_graph g' \<and> g_tasks g' = g_tasks g1"
    "\<And>y. set (parents g' y) = \<Union> {set (tc_DependsOn tc) |tc. tc \<in> set tcs \<and> tc_ID tc = y}
          \<union> set (parents g1 y)" by blast+
  have "set (parents g' y) = \<Union> {set (tc_DependsOn u) |u. u \<in> set (tc # tcs) \<and> tc_ID u = y}
          \<union> set (parents g y)" for y
    unfolding I(2) using D by auto
  then show ?case using I(1) D by simp
qed

lemma config_edges_parents:
  assumes "distinct (map tc_ID tcs)" "tc \<in> set tcs"
  shows "\<Union> {set (tc_DependsOn u) |u. u \<in> set tcs \<and> tc_ID u = tc_ID tc} = set (tc_DependsOn tc)"
proof -
  have "u = tc" if "u \<in> set tcs" "tc_ID u = tc_ID tc" for u
    using assms that by (meson distinct_map inj_onD)
  then show ?thesis using assms(2) by auto
qed

lemma new_graph_fresh: "fresh_graph new_graph"
  by (simp add: fresh_graph_def wf_new_graph) (simp add: all_pending_def new_graph_def)

lemma assemble_spec:
  assumes a: "assemble script cfg = Inr g"
  shows "fresh_graph g \<and> (\<forall>tc \<in> set (cf_Tasks cfg).
      gget (g_tasks g) (tc_ID tc) = Some (config_to_task tc (cf_Defaults cfg))
      \<and> set (parents g (tc_ID tc)) = set (tc_DependsOn tc))"
proof -
  from a obtain g1 g2 g3 g4 g5 where
    s: "add_config_tasks (cf_Defaults cfg) (cf_Tasks cfg) new_graph = Inr g1"
    "add_config_edges (cf_Tasks cfg) g1 = Inr g2" "add_linter_tasks cfg g2 = Inr g3"
    "add_sonar_task cfg g3 = Inr g4" "add_security_tasks cfg g4 = Inr g5"
    "add_code_review_task script cfg g5 = Inr g"
    by (auto simp: assemble_def)
  note T = add_config_tasks_spec [OF s(1) new_graph_fresh]
  note E = add_config_edges_spec [OF s(2) conjunct1 [OF T]]
  have f: "fresh_graph g2" using E by simp
  have e3: "extends g2 g3" by (rule add_linter_tasks_extends [OF s(3) f])
  have e4: "extends g2 g4"
    by (rule extends_trans [OF e3 add_sonar_task_extends [OF s(4) extends_fresh [OF e3]]])
  have e5: "extends g2 g5"
    by (rule extends_trans [OF e4 add_security_tasks_extends [OF s(5) extends_fresh [OF e4]]])
  have e6: "extends g2 g"
    by (rule extends_trans [OF e5 add_code_review_extends [OF s(6) extends_fresh [OF e5]]])
  have "gget (g_tasks g) (tc_ID tc) = Some (config_to_task tc (cf_Defaults cfg))
      \<and> set (parents g (tc_ID tc)) = set (tc_DependsOn tc)" if tc: "tc \<in> set (cf_Tasks cfg)" for tc
  proof -
    have t: "gget (g_tasks g2) (tc_ID tc) = Some (config_to_task tc (cf_Defaults cfg))"
      using T E tc by simp
    have "set (parents g2 (tc_ID tc)) = set (tc_DependsOn tc) \<union> set (parents new_graph (tc_ID tc))"
      using E T config_edges_parents [OF _ tc] by simp
    then have "set (parents g2 (tc_ID tc)) = set (tc_DependsOn tc)"
      by (simp add: new_graph_def set_of_key_def)
    then show ?thesis using e6 t unfolding extends_def by blast
  qed
  then show ?thesis using extends_fresh [OF e6] by blast
qed

lemma build_dag_spec:
  assumes "build_dag script ks ks' ord cfg = Inr g"
    and "\<And>h. wf_graph h \<Longrightarrow> range_order (g_tasks h) (ks h) \<and> child_order h (ord h)"
  shows "wf_graph g \<and> all_pending g \<and> topological g (g_order g)
    \<and> (\<forall>tc \<in> set (cf_Tasks cfg).
         gget (g_tasks g) (tc_ID tc) = Some (config_to_task tc (cf_Defaults cfg))
         \<and> set (parents g (tc_ID tc)) = set (tc_DependsOn tc))"
proof -
  obtain h where h: "assemble script cfg = Inr h" and v: "validate (ks h) (ks' h) (ord h) h = Inr g"
    using assms(1) by (auto simp: build_dag_def)
  note A = assemble_spec [OF h]
  have w: "wf_graph h" "all_pending h" using A by (simp_all add: fresh_graph_def)
  have t: "topological h (g_order g)" "g = h\<lparr> g_order := g_order g \<rparr>"
    using validate_topological [OF w(1) _ _ v] assms(2) [OF w(1)] by auto
  have g: "g_tasks g = g_tasks h" "g_deps g = g_deps h" by (subst t(2), simp)+
  have "wf_graph g" by (subst t(2)) (simp add: w(1))
  moreover have "topological g (g_order g)" using t(1) by (simp add: topological_def g)
  ultimately show ?thesis using A w(2) by (simp add: g all_pending_def)
qed

section \<open>Properties\<close>

text \<open>C5. The graph of a pipeline is what the scheduler expects and what the file says: when
  \<open>BuildGraph\<close> succeeds, the graph is well-formed, every task is pending, the stored order is a
  topological order of all tasks, and every task of the file is in the graph, converted with the
  defaults, and depends on exactly the tasks it lists; generated tasks add no dependency to it.\<close>

theorem built_graph_sound:
  assumes "build_dag script ks ks' ord cfg = Inr g"
    and "\<And>h. wf_graph h \<Longrightarrow> range_order (g_tasks h) (ks h) \<and> child_order h (ord h)"
  shows "wf_graph g \<and> all_pending g \<and> topological g (g_order g)
    \<and> (\<forall>tc \<in> set (cf_Tasks cfg).
         gget (g_tasks g) (tc_ID tc) = Some (config_to_task tc (cf_Defaults cfg))
         \<and> set (parents g (tc_ID tc)) = set (tc_DependsOn tc))"
  using assms by (rule build_dag_spec)

definition small_defaults :: defaults where
  "small_defaults = \<lparr> df_Image = ''alpine'', df_Env = [(''CI'', ''1'')], df_CPUMillicores = 0,
     df_MemoryMB = 0, df_DiskMB = 0, df_TimeoutSeconds = 0 \<rparr>"

definition small_config_task :: "string \<Rightarrow> string list \<Rightarrow> task_config" where
  "small_config_task x ds = \<lparr> tc_ID = x, tc_Name = [], tc_Image = [], tc_Commands = [''make''],
     tc_DependsOn = ds, tc_Env = [(''CI'', ''2'')], tc_SecretRefs = [], tc_CPUMillicores = 0,
     tc_MemoryMB = 0, tc_DiskMB = 0, tc_TimeoutSeconds = 0, tc_Cache = [], tc_Artifacts = [],
     tc_Condition = [] \<rparr>"

definition small_linter :: "string \<Rightarrow> string \<Rightarrow> string list \<Rightarrow> linter_tool" where
  "small_linter name conf paths = \<lparr> lt_Name = name, lt_Image = [], lt_Config = conf, lt_Args = [],
     lt_Paths = paths \<rparr>"

definition small_config :: config where
  "small_config = \<lparr> cf_Name = ''demo'', cf_Defaults = small_defaults,
     cf_Integrations = \<lparr> in_SonarQube = None,
       in_Linters = Some \<lparr> lc_Enabled = True, lc_Tools = [small_linter ''ruff'' [] []] \<rparr>,
       in_Security = None, in_CodeReview = None \<rparr>,
     cf_Tasks = [small_config_task ''clone'' [], small_config_task ''test'' [''clone'']],
     cf_Triggers = \<lparr> tg_Branches = [], tg_PullRequests = False, tg_Paths = [] \<rparr> \<rparr>"

definition keys_of :: "graph \<Rightarrow> string list" where
  "keys_of g = gkeys (g_tasks g)"

theorem built_graph_sound_witness:
  "case build_dag [] keys_of keys_of children (apply_defaults small_config) of
     Inl _ \<Rightarrow> False
   | Inr g \<Rightarrow> g_order g = [''clone'', ''test'', ''lint-ruff''] \<and> set (parents g ''test'') = {''clone''}"
proof -
  let ?r = "build_dag [] keys_of keys_of children (apply_defaults small_config)"
  define g where "g = (case ?r of Inl _ \<Rightarrow> new_graph | Inr g \<Rightarrow> g)"
  have ok: "case ?r of Inl _ \<Rightarrow> False | Inr g \<Rightarrow> g_order g = [''clone'', ''test'', ''lint-ruff'']"
    by code_simp
  then have r: "?r = Inr g" by (simp add: g_def split: sum.splits)
  have "range_order (g_tasks h) (keys_of h) \<and> child_order h (children h)" if "wf_graph h" for h
    using that wf_tasks [OF that] by (auto simp: keys_of_def child_order_children)
  from built_graph_sound [OF r this] have
    "\<forall>tc \<in> set (cf_Tasks (apply_defaults small_config)). set (parents g (tc_ID tc)) = set (tc_DependsOn tc)"
    by blast
  moreover have "cf_Tasks (apply_defaults small_config)
      = [small_config_task ''clone'' [], small_config_task ''test'' [''clone'']]" by code_simp
  ultimately have "set (parents g ''test'') = {''clone''}" by (simp add: small_config_task_def)
  then show ?thesis using ok r by simp
qed

text \<open>A parsed pipeline asks for something: whatever the YAML library decoded, after \<open>Parse\<close> every
  task of the file has non-zero CPU, memory, disk and time-out; its own value if it gives one, else
  the file's default, else the built-in one.\<close>

theorem parsed_tasks_have_resources:
  assumes "parse unmarshal data = Inr cfg" "tc \<in> set (cf_Tasks cfg)"
  shows "\<exists>raw. unmarshal data = Some raw \<and> cf_Tasks cfg = cf_Tasks raw
    \<and> (let t = config_to_task tc (cf_Defaults cfg); d = cf_Defaults raw in
         t_CPUMillicores t = or_default (tc_CPUMillicores tc) (or_default (df_CPUMillicores d) 1000)
         \<and> t_MemoryMB t = or_default (tc_MemoryMB tc) (or_default (df_MemoryMB d) 512)
         \<and> t_DiskMB t = or_default (tc_DiskMB tc) (or_default (df_DiskMB d) 2000)
         \<and> t_TimeoutSeconds t = or_default (tc_TimeoutSeconds tc) (or_default (df_TimeoutSeconds d) 600)
         \<and> t_CPUMillicores t \<noteq> 0 \<and> t_MemoryMB t \<noteq> 0 \<and> t_DiskMB t \<noteq> 0 \<and> t_TimeoutSeconds t \<noteq> 0)"
proof -
  obtain raw where raw: "unmarshal data = Some raw" "cfg = apply_defaults raw"
    using assms(1) by (auto simp: parse_def split: option.splits)
  have d: "df_CPUMillicores (cf_Defaults cfg) = or_default (df_CPUMillicores (cf_Defaults raw)) 1000"
    "df_MemoryMB (cf_Defaults cfg) = or_default (df_MemoryMB (cf_Defaults raw)) 512"
    "df_DiskMB (cf_Defaults cfg) = or_default (df_DiskMB (cf_Defaults raw)) 2000"
    "df_TimeoutSeconds (cf_Defaults cfg) = or_default (df_TimeoutSeconds (cf_Defaults raw)) 600"
    by (simp_all add: raw(2) apply_defaults_def or_default_def Let_def)
  have n: "or_default x y \<noteq> 0" if "y \<noteq> 0" for x y using that by (simp add: or_default_def)
  have "cf_Tasks cfg = cf_Tasks raw" by (simp add: raw(2) apply_defaults_def Let_def)
  then show ?thesis
    using raw(1) by (simp add: config_to_task_def d n Let_def)
qed

theorem parsed_tasks_have_resources_witness:
  "t_CPUMillicores (config_to_task (small_config_task ''test'' [''clone''])
     (cf_Defaults (apply_defaults small_config))) = 1000"
proof -
  have p: "parse (\<lambda>_. Some small_config) [] = Inr (apply_defaults small_config)"
    by (simp add: parse_def)
  have "small_config_task ''test'' [''clone''] \<in> set (cf_Tasks (apply_defaults small_config))" by code_simp
  from parsed_tasks_have_resources [OF p this] show ?thesis
    by (auto simp: Let_def or_default_def small_config_task_def small_config_def small_defaults_def)
qed

text \<open>The environment of a task is that of the defaults overridden by its own, in whatever order
  the two maps are copied.\<close>

theorem task_env_overrides_defaults:
  assumes "gwf (tc_Env tc)" "gwf (df_Env d)"
  shows "gget (t_Env (config_to_task tc d)) k =
    (case gget (tc_Env tc) k of Some v \<Rightarrow> Some v | None \<Rightarrow> gget (df_Env d) k)"
proof -
  have c: "gwf m \<Longrightarrow> gget (copy_env m env) k = (case gget m k of Some v \<Rightarrow> Some v | None \<Rightarrow> gget env k)"
    for m env
  proof (induction m arbitrary: env)
    case (Cons p m)
    obtain x y where p: "p = (x, y)" by (cases p)
    have "gwf m" "gget m x = None"
      using Cons.prems p by (auto simp: gwf_def gkeys_def gget_def map_of_eq_None_iff)
    then show ?case using Cons.IH p by (auto simp: gget_def [of "_ # _"] gget_def [of m] split: option.split)
  qed simp
  show ?thesis using assms by (simp add: config_to_task_def c split: option.split)
qed

theorem task_env_overrides_defaults_witness:
  "gget (t_Env (config_to_task (small_config_task ''test'' []) small_defaults)) ''CI'' = Some ''2''"
proof -
  have "gwf (tc_Env (small_config_task ''test'' []))" "gwf (df_Env small_defaults)" by code_simp+
  from task_env_overrides_defaults [OF this, of "''CI''"] show ?thesis
    by (simp add: small_config_task_def gget_def)
qed

text \<open>The review script survives the shell: the second command of the review task echoes, within
  single quotes, a text without a quotation mark that \<open>base64 -d\<close> decodes to the script, for every
  script of bytes.\<close>

theorem review_script_roundtrip:
  "\<exists>e rest. commands_for_code_review script cfg ! 1 = ''echo '' @ [quote] @ e @ [quote] @ '' | base64 -d | '' @ rest
     \<and> quote \<notin> set e \<and> base64_decode e = script"
proof -
  let ?e = "base64_encode script"
  have "quote \<notin> set base64_alphabet" unfolding base64_alphabet_def by simp
  then have "quote \<notin> set ?e" using base64_encode_chars [of quote script] by auto
  moreover have "\<exists>rest. commands_for_code_review script cfg ! 1
      = ''echo '' @ [quote] @ ?e @ [quote] @ '' | base64 -d | '' @ rest"
    by (simp add: commands_for_code_review_def Let_def quoted_def)
  ultimately show ?thesis using base64_roundtrip by blast
qed

text \<open>\<open>commandsForLinter\<close> replaces the last character of the command by the paths, whatever that
  character is. For eslint with a configuration file it cuts the file's name, and for golangci-lint
  without one it cuts the unit of the time-out.\<close>

theorem linter_paths_cut_command:
  assumes "lt_Args tool = []" "lt_Paths tool \<noteq> []"
  shows "(lt_Name tool = ''eslint'' \<and> lt_Config tool \<noteq> [] \<longrightarrow> commands_for_linter tool
        = [''npx eslint . --config '' @ butlast (lt_Config tool) @ join (lt_Paths tool) '' ''])
    \<and> (lt_Name tool = ''golangci-lint'' \<and> lt_Config tool = [] \<longrightarrow> commands_for_linter tool
        = [''golangci-lint run --timeout=5'' @ join (lt_Paths tool) '' ''])"
  using assms
  by (auto simp: commands_for_linter_def linter_config_flag_def default_commands_def gget_def Let_def
      butlast_conv_take take_Cons')

theorem linter_paths_cut_command_witness:
  "commands_for_linter (small_linter ''eslint'' ''eslint.config.js'' [''src'', ''test''])
     = [''npx eslint . --config eslint.config.jsrc test'']"
  using linter_paths_cut_command [of "small_linter ''eslint'' ''eslint.config.js'' [''src'', ''test'']"]
  by (simp add: small_linter_def)

end
