(* ===== verification/Secrets.thy ===== *)
theory Secrets
  imports Go_Strings
begin

text \<open>
  Secrets, \<open>pkg/secrets/store.go\<close>: the store by scope and name, the scrubber that masks secret values
  in log output, and \<open>ScrubEnv\<close>.  The scrubber's regular expressions are quoted literals, so
  \<open>ReplaceAllString\<close> replaces the leftmost non-overlapping occurrences of the value, which is
  \<open>replace_all\<close>.  \<open>strings.ToUpper\<close> is modelled on ASCII names.
\<close>

section \<open>The store\<close>

record entry =
  se_Name :: string
  se_Value :: string
  se_Scope :: string
  se_CreatedBy :: string
  se_UpdatedAt :: time

type_synonym secret_store = "(string, (string, entry) gomap) gomap"

datatype secret_error =
    ScopeAndNameRequired
  | EmptySecretValue
  | NoSecretsForScope string
  | SecretNotFound string string
  | ScopeNotFound string

definition new_secret_store :: secret_store where
  "new_secret_store = []"

text \<open>Indexing a nil inner map finds nothing.\<close>

definition scope_of :: "secret_store \<Rightarrow> string \<Rightarrow> (string, entry) gomap" where
  "scope_of s scope = (case gget s scope of None \<Rightarrow> [] | Some m \<Rightarrow> m)"

definition secret_put ::
    "time \<Rightarrow> string \<Rightarrow> string \<Rightarrow> string \<Rightarrow> string \<Rightarrow> secret_store \<Rightarrow> secret_error + secret_store" where
  "secret_put now scope name val createdBy s =
     (if scope = [] \<or> name = [] then Inl ScopeAndNameRequired
      else if val = [] then Inl EmptySecretValue
      else Inr (gput scope (gput name \<lparr> se_Name = name, se_Value = val, se_Scope = scope,
                 se_CreatedBy = createdBy, se_UpdatedAt = now \<rparr> (scope_of s scope)) s))"

definition secret_get :: "string \<Rightarrow> string \<Rightarrow> secret_store \<Rightarrow> secret_error + string" where
  "secret_get scope name s =
     (case gget s scope of
        None \<Rightarrow> Inl (NoSecretsForScope scope)
      | Some m \<Rightarrow> (case gget m name of
            None \<Rightarrow> Inl (SecretNotFound name scope)
          | Some e \<Rightarrow> Inr (se_Value e)))"

fun collect_secrets ::
    "string \<Rightarrow> (string, entry) gomap option \<Rightarrow> string list \<Rightarrow> (string, string) gomap
       \<Rightarrow> secret_error + (string, string) gomap" where
  "collect_secrets scope m [] res = Inr res"
| "collect_secrets scope m (name # names) res =
     (case m of
        None \<Rightarrow> Inl (SecretNotFound name scope)
      | Some m' \<Rightarrow> (case gget m' name of
            None \<Rightarrow> Inl (SecretNotFound name scope)
          | Some e \<Rightarrow> collect_secrets scope m names (gput name (se_Value e) res)))"

definition secret_get_multiple ::
    "string \<Rightarrow> string list \<Rightarrow> secret_store \<Rightarrow> secret_error + (string, string) gomap" where
  "secret_get_multiple scope names s = collect_secrets scope (gget s scope) names []"

definition secret_delete :: "string \<Rightarrow> string \<Rightarrow> secret_store \<Rightarrow> secret_error + secret_store" where
  "secret_delete scope name s =
     (case gget s scope of
        None \<Rightarrow> Inl (ScopeNotFound scope)
      | Some m \<Rightarrow>
          if gget m name = None then Inl (SecretNotFound name scope)
          else let m' = gdel name m
               in Inr (if m' = [] then gdel scope s else gput scope m' s))"

definition secret_list :: "string list \<Rightarrow> string \<Rightarrow> secret_store \<Rightarrow> entry list" where
  "secret_list ks scope s =
     map (\<lambda>e. e\<lparr> se_Value := [] \<rparr>) (List.map_filter (gget (scope_of s scope)) ks)"

section \<open>The scrubber\<close>

text \<open>The scrubber is the list of its values; the compiled patterns are in step with it.\<close>

definition stars :: string where
  "stars = ''***''"

definition add_value :: "string \<Rightarrow> string list \<Rightarrow> string list" where
  "add_value v values = (if length v < 3 then values else values @ [v])"

fun new_scrubber_from :: "string list \<Rightarrow> string list \<Rightarrow> string list" where
  "new_scrubber_from [] acc = acc"
| "new_scrubber_from (v # vs) acc =
     (if length v < 3 then new_scrubber_from vs acc else new_scrubber_from vs (acc @ [v]))"

definition new_scrubber :: "string list \<Rightarrow> string list" where
  "new_scrubber vs = new_scrubber_from vs []"

fun scrub :: "string list \<Rightarrow> string \<Rightarrow> string" where
  "scrub [] s = s"
| "scrub (v # vs) s = scrub vs (replace_all v stars s)"

section \<open>Environments\<close>

definition ascii_upper :: "char \<Rightarrow> char" where
  "ascii_upper c = (if (97 :: nat) \<le> of_char c \<and> (of_char c :: nat) \<le> 122
                    then char_of ((of_char c :: nat) - 32) else c)"

definition to_upper :: "string \<Rightarrow> string" where
  "to_upper = map ascii_upper"

definition sensitive_patterns :: "string list" where
  "sensitive_patterns =
     [''SECRET'', ''TOKEN'', ''PASSWORD'', ''KEY'', ''CREDENTIAL'', ''AUTH'', ''PRIVATE'', ''API_KEY'']"

definition is_sensitive :: "string \<Rightarrow> bool" where
  "is_sensitive k \<longleftrightarrow> list_ex (contains (to_upper k)) sensitive_patterns"

fun scrub_env_from ::
    "(string, string) gomap \<Rightarrow> (string, string) gomap \<Rightarrow> (string, string) gomap" where
  "scrub_env_from [] res = res"
| "scrub_env_from ((k, v) # env) res =
     scrub_env_from env (gput k (if is_sensitive k then stars else v) res)"

definition scrub_env :: "(string, string) gomap \<Rightarrow> (string, string) gomap" where
  "scrub_env env = scrub_env_from env []"

section \<open>What replacing leaves\<close>

lemma star_free_prefix:
  "CHR ''*'' \<notin> set p \<Longrightarrow> has_prefix p (replace_all v stars s) \<Longrightarrow> has_prefix p s"
proof (induction v stars s arbitrary: p rule: replace_all.induct)
  case (2 v c cs)
  show ?case
  proof (cases "v \<noteq> [] \<and> has_prefix v (c # cs)")
    case True
    then have "has_prefix p (stars @ replace_all v stars (drop (length v) (c # cs)))"
      using 2(4) by simp
    then have "p = []" using 2(3) by (cases p) (auto simp: has_prefix_def stars_def)
    then show ?thesis by (simp add: has_prefix_def)
  next
    case False
    then have h: "has_prefix p (c # replace_all v stars cs)" using 2(4) by auto
    show ?thesis
    proof (cases p)
      case (Cons d p')
      then have "d = c" "has_prefix p' (replace_all v stars cs)" using h by (auto simp: has_prefix_def)
      then have "has_prefix p' cs" using 2(2) [OF False] 2(3) Cons by simp
      then show ?thesis using \<open>d = c\<close> Cons by (simp add: has_prefix_def)
    qed (simp add: has_prefix_def)
  qed
qed simp

lemma contains_stars_append:
  assumes "CHR ''*'' \<notin> set p" "p \<noteq> []" "contains (stars @ r) p"
  shows "contains r p"
proof -
  have "\<not> has_prefix p (CHR ''*'' # x)" for x using assms(1,2) by (cases p) (auto simp: has_prefix_def)
  then show ?thesis using assms(3) by (simp add: stars_def)
qed

lemma contains_drop: "contains (drop n s) p \<Longrightarrow> contains s p"
proof -
  assume "contains (drop n s) p"
  then obtain u v where "drop n s = u @ p @ v" unfolding contains_iff by blast
  then have "take n s @ drop n s = (take n s @ u) @ p @ v" by simp
  then have "s = (take n s @ u) @ p @ v" by (simp only: append_take_drop_id)
  then show ?thesis unfolding contains_iff by (intro exI)
qed

text \<open>A text without stars that occurs after the replacement occurred before.\<close>

lemma contains_replace_all:
  "CHR ''*'' \<notin> set p \<Longrightarrow> p \<noteq> [] \<Longrightarrow> contains (replace_all v stars s) p \<Longrightarrow> contains s p"
proof (induction v stars s rule: replace_all.induct)
  case (2 v c cs)
  show ?case
  proof (cases "v \<noteq> [] \<and> has_prefix v (c # cs)")
    case True
    then have "contains (replace_all v stars (drop (length v) (c # cs))) p"
      using contains_stars_append [OF 2(3,4)] 2(5) by simp
    from 2(1) [OF True 2(3,4) this] show ?thesis by (rule contains_drop)
  next
    case False
    note IH = 2(2) [OF False 2(3,4)]
    have "contains (c # replace_all v stars cs) p" using 2(5) False by auto
    then consider "has_prefix p (replace_all v stars (c # cs))" | "contains (replace_all v stars cs) p"
      using False by auto
    then show ?thesis
    proof cases
      case 1
      then have "has_prefix p (c # cs)" by (rule star_free_prefix [OF 2(3)])
      then show ?thesis by simp
    next
      case c: 2
      from IH [OF c] show ?thesis by simp
    qed
  qed
qed simp

lemma replace_all_removes:
  "CHR ''*'' \<notin> set v \<Longrightarrow> v \<noteq> [] \<Longrightarrow> \<not> contains (replace_all v stars s) v"
proof (induction v stars s rule: replace_all.induct)
  case (2 v c cs)
  show ?case
  proof (cases "v \<noteq> [] \<and> has_prefix v (c # cs)")
    case True
    from 2(1) [OF True 2(3,4)] show ?thesis
      using True contains_stars_append [OF 2(3,4)] by auto
  next
    case False
    then have "\<not> has_prefix v (c # cs)" using 2(4) by simp
    then have "\<not> has_prefix v (replace_all v stars (c # cs))" using star_free_prefix [OF 2(3)] by blast
    moreover have "replace_all v stars (c # cs) = c # replace_all v stars cs" using False by auto
    ultimately show ?thesis using 2(2) [OF False 2(3,4)] by simp
  qed
qed (simp add: has_prefix_def)

lemma replace_all_absent: "\<not> contains s v \<Longrightarrow> replace_all v new s = s"
  by (induction s) auto

lemma scrub_contains:
  "CHR ''*'' \<notin> set p \<Longrightarrow> p \<noteq> [] \<Longrightarrow> contains (scrub vs s) p \<Longrightarrow> contains s p"
  by (induction vs arbitrary: s) (auto dest: contains_replace_all)

lemma scrub_removes:
  "v \<in> set vs \<Longrightarrow> CHR ''*'' \<notin> set v \<Longrightarrow> v \<noteq> [] \<Longrightarrow> \<not> contains (scrub vs s) v"
proof (induction vs arbitrary: s)
  case (Cons w vs)
  show ?case
  proof (cases "v = w")
    case True
    have "\<not> contains (replace_all w stars s) v"
      using replace_all_removes Cons.prems(2,3) unfolding True by blast
    then show ?thesis using scrub_contains [OF Cons.prems(2,3)] by auto
  next
    case False
    then show ?thesis using Cons.IH Cons.prems by simp
  qed
qed simp

lemma new_scrubber_set: "set (new_scrubber vs) = {v \<in> set vs. 3 \<le> length v}"
proof -
  have "new_scrubber_from vs acc = acc @ filter (\<lambda>v. 3 \<le> length v) vs" for acc
    by (induction vs acc rule: new_scrubber_from.induct) simp_all
  then show ?thesis by (simp add: new_scrubber_def)
qed

section \<open>Properties\<close>

text \<open>C10. No secret leaks: whatever a task prints and however many secrets it was given, after
  scrubbing, no given value of at least three bytes occurs in the output, provided the value itself
  has no star; and a line without any of the values is left as it is.\<close>

theorem scrubbed_output_has_no_secret:
  assumes "CHR ''*'' \<notin> set v" "v \<in> set vs" "3 \<le> length v"
  shows "\<not> contains (scrub (new_scrubber vs) s) v
    \<and> (list_all (\<lambda>w. 3 \<le> length w \<longrightarrow> \<not> contains s w) vs \<longrightarrow> scrub (new_scrubber vs) s = s)"
proof -
  have n: "list_all (\<lambda>w. \<not> contains s w) ws \<Longrightarrow> scrub ws s = s" for ws
    by (induction ws) (simp_all add: replace_all_absent)
  have "v \<in> set (new_scrubber vs)" using assms by (simp add: new_scrubber_set)
  moreover have "v \<noteq> []" using assms(3) by auto
  ultimately show ?thesis
    using scrub_removes [of v "new_scrubber vs" s] assms(1) n [of "new_scrubber vs"]
    by (auto simp: list_all_iff new_scrubber_set)
qed

theorem scrubbed_output_has_no_secret_witness:
  "\<not> contains (scrub (new_scrubber [''ab'', ''hunter2'']) ''the password is hunter2 ok'') ''hunter2''"
  using scrubbed_output_has_no_secret [of "''hunter2''" "[''ab'', ''hunter2'']"] by simp

text \<open>The order of the values matters: when a value starts with another that comes first, only the
  shorter one is masked and the rest of the longer one is printed.\<close>

theorem scrub_leaks_suffix:
  assumes "3 \<le> length v" "w \<noteq> []" "\<not> contains w v" "\<not> contains (stars @ w) (v @ w)"
  shows "scrub (new_scrubber [v, v @ w]) (v @ w) = stars @ w"
proof -
  obtain c cs where v: "v = c # cs" using assms(1) by (cases v) auto
  have "replace_all v stars (v @ w) = stars @ replace_all v stars w"
    using has_prefix_iff [of v "v @ w"] by (simp add: v)
  then show ?thesis using assms by (simp add: new_scrubber_def replace_all_absent)
qed

theorem scrub_leaks_suffix_witness:
  "scrub (new_scrubber [''admin'', ''admin-s3cret'']) ''admin-s3cret'' = ''***-s3cret''"
proof -
  have "\<not> contains ''-s3cret'' ''admin''" "\<not> contains (stars @ ''-s3cret'') (''admin'' @ ''-s3cret'')"
    by code_simp+
  from scrub_leaks_suffix [OF _ _ this] show ?thesis by (simp add: stars_def)
qed

lemma scope_of_get: "gget s scope = Some m \<Longrightarrow> scope_of s scope = m"
  by (simp add: scope_of_def)

text \<open>The secret store returns what was put, last write wins, and keeps scopes apart: after a
  successful \<open>Put\<close> the secret reads as the value, every other one reads as before unless its scope was
  empty, and after a \<open>Delete\<close> of it, it is gone again.\<close>

theorem secret_put_get_delete:
  assumes "secret_put now scope name val by s = Inr s'"
  shows "secret_get scope name s' = Inr val
    \<and> (\<forall>scope' name'. (scope', name') \<noteq> (scope, name) \<and> gget s scope' \<noteq> None \<longrightarrow>
         secret_get scope' name' s' = secret_get scope' name' s)
    \<and> (\<exists>s''. secret_delete scope name s' = Inr s'' \<and> (\<exists>e. secret_get scope name s'' = Inl e))"
proof -
  let ?e = "\<lparr> se_Name = name, se_Value = val, se_Scope = scope, se_CreatedBy = by, se_UpdatedAt = now \<rparr>"
  have s': "s' = gput scope (gput name ?e (scope_of s scope)) s"
    using assms by (auto simp: secret_put_def split: if_splits)
  have "secret_get scope' name' s' = secret_get scope' name' s"
    if "(scope', name') \<noteq> (scope, name)" "gget s scope' \<noteq> None" for scope' name'
    using that by (auto simp: s' secret_get_def scope_of_def)
  then show ?thesis
    by (auto simp: s' secret_get_def secret_delete_def Let_def)
qed

theorem secret_put_get_delete_witness:
  "\<exists>s. secret_put 1 ''org/repo'' ''NPM'' ''abc'' ''me'' new_secret_store = Inr s
     \<and> secret_get ''org/repo'' ''NPM'' s = Inr ''abc''"
proof -
  have "\<exists>s. secret_put 1 ''org/repo'' ''NPM'' ''abc'' ''me'' new_secret_store = Inr s"
    by (simp add: secret_put_def)
  then show ?thesis using secret_put_get_delete by blast
qed

text \<open>\<open>ScrubEnv\<close> keeps every variable and masks exactly those whose name, in upper case, contains
  one of the sensitive words; all other values pass unchanged.\<close>

theorem scrub_env_masks:
  assumes "gwf env"
  shows "gget (scrub_env env) k =
    map_option (\<lambda>v. if is_sensitive k then stars else v) (gget env k)"
proof -
  have "gwf env \<Longrightarrow> gget (scrub_env_from env res) k = (case gget env k of
      None \<Rightarrow> gget res k | Some v \<Rightarrow> Some (if is_sensitive k then stars else v))" for env res
  proof (induction env res rule: scrub_env_from.induct)
    case (2 x v env res)
    have "gwf env" "gget env x = None"
      using 2(2) by (auto simp: gwf_def gkeys_def gget_def map_of_eq_None_iff)
    then show ?case using 2(1) by (auto simp: gget_def [of "_ # _"] gget_def [of env] split: option.split)
  qed simp
  then show ?thesis using assms by (simp add: scrub_env_def split: option.split)
qed

theorem scrub_env_masks_witness:
  "gget (scrub_env [(''npm_token'', ''abc''), (''CI'', ''1'')]) ''npm_token'' = Some ''***''"
proof -
  have "gwf [(''npm_token'', ''abc''), (''CI'', ''1'')]" by code_simp
  from scrub_env_masks [OF this, of "''npm_token''"]
  have "gget (scrub_env [(''npm_token'', ''abc''), (''CI'', ''1'')]) ''npm_token''
     = Some (if is_sensitive ''npm_token'' then stars else ''abc'')" by (simp add: gget_def)
  moreover have "is_sensitive ''npm_token''" by code_simp
  ultimately show ?thesis by (simp add: stars_def)
qed

end
