(* ===== verification/Auth.thy ===== *)
theory Auth
  imports Go_Strings
begin

text \<open>
  Bearer-token authentication of the gRPC services, \<open>pkg/auth/auth.go\<close>.  The metadata of a request
  is absent or a map from keys to values; an interceptor either rejects the call or runs the
  handler, here its result.  \<open>dial_metadata\<close> is what a client that dialled with
  \<open>TokenDialOption\<close> attaches to a call.
\<close>

type_synonym metadata = "(string, string list) gomap"

datatype auth_error =
    MissingMetadata
  | MissingAuthorizationToken
  | InvalidAuthorizationToken

definition metadata_key :: string where
  "metadata_key = ''authorization''"

definition token_from_env :: "(string \<Rightarrow> string) \<Rightarrow> string" where
  "token_from_env getenv = getenv ''API_TOKEN''"

definition strip_bearer :: "string \<Rightarrow> string" where
  "strip_bearer token = trim_prefix ''bearer '' (trim_prefix ''Bearer '' token)"

definition validate_token :: "metadata option \<Rightarrow> string \<Rightarrow> auth_error option" where
  "validate_token ctx expected =
     (case ctx of
        None \<Rightarrow> Some MissingMetadata
      | Some md \<Rightarrow>
          (case (case gget md metadata_key of None \<Rightarrow> [] | Some vs \<Rightarrow> vs) of
             [] \<Rightarrow> Some MissingAuthorizationToken
           | token # _ \<Rightarrow>
               if strip_bearer token \<noteq> expected then Some InvalidAuthorizationToken else None))"

definition unary_interceptor ::
    "string \<Rightarrow> metadata option \<Rightarrow> (metadata option \<Rightarrow> 'r) \<Rightarrow> auth_error + 'r" where
  "unary_interceptor token ctx handler =
     (if token = [] then Inr (handler ctx)
      else case validate_token ctx token of
        Some e \<Rightarrow> Inl e
      | None \<Rightarrow> Inr (handler ctx))"

definition stream_interceptor ::
    "string \<Rightarrow> metadata option \<Rightarrow> (metadata option \<Rightarrow> 'r) \<Rightarrow> auth_error + 'r" where
  "stream_interceptor token ctx handler =
     (if token = [] then Inr (handler ctx)
      else case validate_token ctx token of
        Some e \<Rightarrow> Inl e
      | None \<Rightarrow> Inr (handler ctx))"

definition get_request_metadata :: "string \<Rightarrow> (string, string) gomap" where
  "get_request_metadata token = [(metadata_key, ''Bearer '' @ token)]"

definition require_transport_security :: bool where
  "require_transport_security = False"

text \<open>No option, and so no metadata, for the empty token.\<close>

definition token_dial_option :: "string \<Rightarrow> (string, string) gomap option" where
  "token_dial_option token = (if token = [] then None else Some (get_request_metadata token))"

definition dial_metadata :: "string \<Rightarrow> metadata option" where
  "dial_metadata token =
     (case token_dial_option token of
        None \<Rightarrow> None
      | Some m \<Rightarrow> Some (map (\<lambda>(k, v). (k, [v])) m))"

section \<open>Properties\<close>

lemma strip_bearer_dial: "strip_bearer (''Bearer '' @ t) = trim_prefix ''bearer '' t"
  by (simp add: strip_bearer_def trim_prefix_def has_prefix_def)

lemma trim_bearer_id: "trim_prefix ''bearer '' token = token \<longleftrightarrow> \<not> has_prefix ''bearer '' token"
proof
  assume e: "trim_prefix ''bearer '' token = token"
  show "\<not> has_prefix ''bearer '' token"
  proof
    assume p: "has_prefix ''bearer '' token"
    then obtain t where t: "token = ''bearer '' @ t" by (auto simp: has_prefix_iff)
    then have "trim_prefix ''bearer '' token = t" by (simp add: trim_prefix_def has_prefix_def)
    then have "length token = length t" using e by simp
    then show False using t by simp
  qed
qed (simp add: trim_prefix_def)

lemma interceptors_accept:
  "unary_interceptor token ctx h = Inr r \<longleftrightarrow> r = h ctx \<and> (token = []
      \<or> (\<exists>md v vs. ctx = Some md \<and> gget md metadata_key = Some (v # vs) \<and> strip_bearer v = token))"
  by (auto simp: unary_interceptor_def validate_token_def split: option.splits list.splits if_splits)

lemma stream_as_unary: "stream_interceptor token ctx h = unary_interceptor token ctx h"
  by (simp add: unary_interceptor_def stream_interceptor_def)

lemma dial_metadata_value:
  "token \<noteq> [] \<Longrightarrow> dial_metadata token = Some [(metadata_key, [''Bearer '' @ token])]"
  by (simp add: dial_metadata_def token_dial_option_def get_request_metadata_def)

text \<open>C40. Authentication is exact. With a token set, both interceptors run the handler if and only if
  the request's first authorization value, without the prefixes \<open>Bearer\<close> and \<open>bearer\<close>, is the
  token. So client and server agree on a token unless the token itself starts with \<open>bearer\<close>: a
  client that dials with the server's token is let in exactly when the server strips nothing off
  it.\<close>

theorem authentication_exact:
  fixes h :: "metadata option \<Rightarrow> 'r"
  assumes "token \<noteq> []"
  shows "(\<forall>ctx r. (unary_interceptor token ctx h = Inr r \<longleftrightarrow> r = h ctx
      \<and> (\<exists>md v vs. ctx = Some md \<and> gget md metadata_key = Some (v # vs) \<and> strip_bearer v = token))
      \<and> stream_interceptor token ctx h = unary_interceptor token ctx h)
   \<and> (unary_interceptor token (dial_metadata token) h = Inr (h (dial_metadata token))
        \<longleftrightarrow> \<not> has_prefix ''bearer '' token)"
  using assms
  by (simp add: interceptors_accept stream_as_unary dial_metadata_value gget_def strip_bearer_dial
      trim_bearer_id del: append.append_Cons)

theorem authentication_exact_witness:
  "unary_interceptor ''s3cret'' (dial_metadata ''s3cret'') (\<lambda>_. 1 :: nat) = Inr 1
   \<and> unary_interceptor ''bearer x'' (dial_metadata ''bearer x'') (\<lambda>_. 1 :: nat) \<noteq> Inr 1"
proof -
  have "\<not> has_prefix ''bearer '' ''s3cret''" "has_prefix ''bearer '' ''bearer x''" by code_simp+
  then show ?thesis
    using conjunct2 [OF authentication_exact [of "''s3cret''" "\<lambda>_. 1 :: nat"]]
      conjunct2 [OF authentication_exact [of "''bearer x''" "\<lambda>_. 1 :: nat"]] by simp
qed

end
