(* ===== verification/Log_Store.thy ===== *)
theory Log_Store
  imports Go_Text "HOL-Library.Multiset"
begin

text \<open>
  The log store, \<open>pkg/logstore\<close>: lines in memory with live subscribers (\<open>store.go\<close>) and the files
  behind it (\<open>file.go\<close>).  A subscriber is a Go pointer that the store and its reader share, so
  subscribers live in a list and the store holds their positions; its channel is the queue of lines
  sent and not yet read, with the capacity it was made with.  The 64-bit arithmetic of \<open>Get\<close> is
  written out with \<open>wrap64\<close>; a slice bound out of range panics, which is the result \<open>None\<close>.  A log
  file is the list of its records; the JSON text of a record and its decoding are left out, as are
  failures of the file system, of which \<open>Append\<close> ignores those of writing.
\<close>

section \<open>State\<close>

datatype stream = StreamStdout | StreamStderr | StreamSystem

record line =
  ln_TaskID :: string
  ln_LineNumber :: int
  ln_Timestamp :: time
  ln_Content :: string
  ln_Stream :: stream

record subscriber =
  sb_queue :: "line list"
  sb_capacity :: nat
  sb_closed :: bool

record log_store =
  ls_logs :: "(string, line list) gomap"
  ls_subscribers :: "(string, nat list) gomap"
  ls_completed :: "(string, bool) gomap"
  ls_heap :: "subscriber list"
  ls_file :: "(string, line list) gomap option"

datatype log_error = TaskAlreadyCompleted string

definition new_subscriber :: "nat \<Rightarrow> subscriber" where
  "new_subscriber n = \<lparr> sb_queue = [], sb_capacity = n, sb_closed = False \<rparr>"

text \<open>A line is dropped when the channel is full or closed.\<close>

definition send :: "line \<Rightarrow> subscriber \<Rightarrow> subscriber" where
  "send l s =
     (if sb_closed s then s
      else if length (sb_queue s) < sb_capacity s then s\<lparr> sb_queue := sb_queue s @ [l] \<rparr>
      else s)"

definition close_subscriber :: "subscriber \<Rightarrow> subscriber" where
  "close_subscriber s = (if sb_closed s then s else s\<lparr> sb_closed := True \<rparr>)"

text \<open>The reader takes the next line out of the channel.\<close>

definition receive :: "nat \<Rightarrow> log_store \<Rightarrow> (line \<times> log_store) option" where
  "receive i s =
     (if i < length (ls_heap s) then
        case sb_queue (ls_heap s ! i) of
          [] \<Rightarrow> None
        | l # ls \<Rightarrow> Some (l, s\<lparr> ls_heap := (ls_heap s)[i := (ls_heap s ! i)\<lparr> sb_queue := ls \<rparr>] \<rparr>)
      else None)"

definition new_log_store :: log_store where
  "new_log_store = \<lparr> ls_logs = [], ls_subscribers = [], ls_completed = [], ls_heap = [],
     ls_file = None \<rparr>"

definition lines_of :: "log_store \<Rightarrow> string \<Rightarrow> line list" where
  "lines_of s x = (case gget (ls_logs s) x of None \<Rightarrow> [] | Some ls \<Rightarrow> ls)"

definition subscribers_of :: "log_store \<Rightarrow> string \<Rightarrow> nat list" where
  "subscribers_of s x = (case gget (ls_subscribers s) x of None \<Rightarrow> [] | Some is \<Rightarrow> is)"

section \<open>The file backend\<close>

definition task_path :: "string \<Rightarrow> string" where
  "task_path x = replace_all ''..'' ''_'' (replace_all ''/'' ''_'' x) @ ''.jsonl''"

definition file_append :: "string \<Rightarrow> line list \<Rightarrow> (string, line list) gomap \<Rightarrow> (string, line list) gomap" where
  "file_append x ls fs =
     gput (task_path x) ((case gget fs (task_path x) of None \<Rightarrow> [] | Some old \<Rightarrow> old) @ ls) fs"

text \<open>The records of a file by line number. The model keeps records with equal numbers, which two
  tasks with colliding file names can leave, in file order; \<open>sort.Slice\<close> may swap them.\<close>

definition file_load :: "string \<Rightarrow> (string, line list) gomap \<Rightarrow> line list" where
  "file_load x fs =
     (case gget fs (task_path x) of None \<Rightarrow> [] | Some ls \<Rightarrow> sort_key ln_LineNumber ls)"

definition list_tasks :: "(string, line list) gomap \<Rightarrow> string list" where
  "list_tasks fs = map (\<lambda>n. take (length n - 6) n) (filter (has_suffix ''.jsonl'') (gkeys fs))"

fun load_tasks ::
    "string list \<Rightarrow> (string, line list) gomap \<Rightarrow> (string, line list) gomap \<Rightarrow> (string, line list) gomap" where
  "load_tasks [] fs logs = logs"
| "load_tasks (x # xs) fs logs = load_tasks xs fs (gput x (file_load x fs) logs)"

definition new_with_file :: "(string, line list) gomap \<Rightarrow> log_store" where
  "new_with_file fs =
     new_log_store\<lparr> ls_file := Some fs, ls_logs := load_tasks (list_tasks fs) fs [] \<rparr>"

section \<open>Operations\<close>

fun number_lines :: "time \<Rightarrow> string \<Rightarrow> int \<Rightarrow> line list \<Rightarrow> line list" where
  "number_lines now x n [] = []"
| "number_lines now x n (l # ls) =
     l\<lparr> ln_TaskID := x, ln_LineNumber := n,
        ln_Timestamp := (if is_zero_time (ln_Timestamp l) then now else ln_Timestamp l) \<rparr>
     # number_lines now x (n + 1) ls"

fun send_all :: "line list \<Rightarrow> subscriber \<Rightarrow> subscriber" where
  "send_all [] s = s"
| "send_all (l # ls) s = send_all ls (send l s)"

text \<open>Apply a function to the subscribers at the given positions.\<close>

fun update_subs :: "(subscriber \<Rightarrow> subscriber) \<Rightarrow> nat list \<Rightarrow> subscriber list \<Rightarrow> subscriber list" where
  "update_subs f [] h = h"
| "update_subs f (i # is) h = update_subs f is (if i < length h then h[i := f (h ! i)] else h)"

definition append_lines :: "time \<Rightarrow> string \<Rightarrow> line list \<Rightarrow> log_store \<Rightarrow> log_store" where
  "append_lines now x ls s =
     (let existing = lines_of s x;
          new = number_lines now x (int (length existing)) ls
      in s\<lparr> ls_logs := gput x (existing @ new) (ls_logs s),
            ls_file := map_option (file_append x new) (ls_file s),
            ls_heap := update_subs (send_all new) (subscribers_of s x) (ls_heap s) \<rparr>)"

definition complete_log :: "string \<Rightarrow> log_store \<Rightarrow> log_store" where
  "complete_log x s =
     s\<lparr> ls_completed := gput x True (ls_completed s),
        ls_heap := update_subs close_subscriber (subscribers_of s x) (ls_heap s),
        ls_subscribers := gdel x (ls_subscribers s) \<rparr>"

text \<open>Two's complement in 64 bits.\<close>

definition wrap64 :: "int \<Rightarrow> int" where
  "wrap64 n = (n + 2 ^ 63) mod 2 ^ 64 - 2 ^ 63"

definition get_lines :: "string \<Rightarrow> int \<Rightarrow> int \<Rightarrow> log_store \<Rightarrow> (line list \<times> int) option" where
  "get_lines x offset limit s =
     (let ls = lines_of s x; total = int (length ls)
      in if offset \<ge> total then Some ([], total)
         else
           let end' = (if limit > 0 \<and> wrap64 (offset + limit) < total then wrap64 (offset + limit)
                       else total)
           in if offset < 0 \<or> end' < offset then None
              else Some (take (nat end' - nat offset) (drop (nat offset) ls), total))"

definition is_log_complete :: "string \<Rightarrow> log_store \<Rightarrow> bool" where
  "is_log_complete x s \<longleftrightarrow> gget (ls_completed s) x = Some True"

text \<open>The new subscriber's position is returned. A negative start panics when there are lines.\<close>

definition subscribe :: "string \<Rightarrow> int \<Rightarrow> log_store \<Rightarrow> (log_error + (log_store \<times> nat)) option" where
  "subscribe x sinceLine s =
     (if is_log_complete x s then Some (Inl (TaskAlreadyCompleted x))
      else
        let ls = lines_of s x
        in if sinceLine < int (length ls) \<and> sinceLine < 0 then None
           else
             let sub = send_all (drop (nat sinceLine) ls) (new_subscriber 256);
                 i = length (ls_heap s)
             in Some (Inr (s\<lparr> ls_heap := ls_heap s @ [sub],
                              ls_subscribers := gput x (subscribers_of s x @ [i]) (ls_subscribers s) \<rparr>, i)))"

definition task_count :: "log_store \<Rightarrow> nat" where
  "task_count s = length (ls_logs s)"

definition line_count :: "string \<Rightarrow> log_store \<Rightarrow> int" where
  "line_count x s = int (length (lines_of s x))"

end
