(* ===== verification/Log_Properties.thy ===== *)
theory Log_Properties
  imports Log_Store
begin

text \<open>
  The properties of the log store: numbering and paging of lines, lossless delivery to a subscriber
  whose buffer does not overflow, and what survives a restart with log files.
\<close>

section \<open>Appending\<close>

lemma length_number_lines [simp]: "length (number_lines now x n ls) = length ls"
  by (induction now x n ls rule: number_lines.induct) simp_all

lemma number_lines_nth:
  "i < length ls \<Longrightarrow> number_lines now x n ls ! i =
     (ls ! i)\<lparr> ln_TaskID := x, ln_LineNumber := n + int i,
       ln_Timestamp := (if ln_Timestamp (ls ! i) = 0 then now else ln_Timestamp (ls ! i)) \<rparr>"
proof (induction now x n ls arbitrary: i rule: number_lines.induct)
  case (2 now x n l ls)
  then show ?case by (cases i) (auto simp: is_zero_time_def algebra_simps)
qed simp

lemma lines_of_append: "lines_of (append_lines now x ls s) y =
    (if y = x then lines_of s x @ number_lines now x (int (length (lines_of s x))) ls else lines_of s y)"
  by (simp add: append_lines_def lines_of_def Let_def)

definition numbered :: "log_store \<Rightarrow> bool" where
  "numbered s \<longleftrightarrow> list_all (\<lambda>(x, ls). list_all (\<lambda>(i, l). ln_LineNumber l = int i \<and> ln_TaskID l = x)
      (zip [0 ..< length ls] ls)) (ls_logs s)"

definition numbered_at :: "log_store \<Rightarrow> string \<Rightarrow> bool" where
  "numbered_at s x \<longleftrightarrow> (\<forall>i < length (lines_of s x).
      ln_LineNumber (lines_of s x ! i) = int i \<and> ln_TaskID (lines_of s x ! i) = x)"

lemma numbered_at_append: "numbered_at s y \<Longrightarrow> numbered_at (append_lines now x ls s) y"
  by (auto simp: numbered_at_def lines_of_append nth_append number_lines_nth)

section \<open>Sending\<close>

lemma send_fields [simp]: "sb_capacity (send l s) = sb_capacity s" "sb_closed (send l s) = sb_closed s"
  by (simp_all add: send_def)

lemma send_all_fields [simp]:
  "sb_capacity (send_all ls s) = sb_capacity s" "sb_closed (send_all ls s) = sb_closed s"
  by (induction ls s rule: send_all.induct) simp_all

lemma send_all_fits:
  "\<not> sb_closed s \<Longrightarrow> length (sb_queue s) + length ls \<le> sb_capacity s \<Longrightarrow>
     sb_queue (send_all ls s) = sb_queue s @ ls"
  by (induction ls s rule: send_all.induct) (simp_all add: send_def)

lemma length_update_subs [simp]: "length (update_subs f is h) = length h"
  by (induction f "is" h rule: update_subs.induct) simp_all

lemma update_subs_other: "i \<notin> set is \<Longrightarrow> update_subs f is h ! i = h ! i"
  by (induction f "is" h rule: update_subs.induct) auto

lemma update_subs_at: "i \<in> set is \<Longrightarrow> distinct is \<Longrightarrow> i < length h \<Longrightarrow> update_subs f is h ! i = f (h ! i)"
  by (induction f "is" h rule: update_subs.induct) (auto simp: update_subs_other nth_list_update)

section \<open>Following a log\<close>

text \<open>The tasks' workers append while the reader of one subscription takes lines out.\<close>

datatype follow_step = Produce time string "line list" | Consume

fun follow :: "nat \<Rightarrow> follow_step list \<Rightarrow> log_store \<Rightarrow> line list \<Rightarrow> log_store \<times> line list" where
  "follow i [] s got = (s, got)"
| "follow i (Produce now x ls # steps) s got = follow i steps (append_lines now x ls s) got"
| "follow i (Consume # steps) s got =
     (case receive i s of
        None \<Rightarrow> follow i steps s got
      | Some (l, s') \<Rightarrow> follow i steps s' (got @ [l]))"

text \<open>Subscription \<open>i\<close> to task \<open>x\<close> from line \<open>k\<close> on has lost nothing so far.\<close>

definition lossless :: "string \<Rightarrow> nat \<Rightarrow> nat \<Rightarrow> log_store \<Rightarrow> line list \<Rightarrow> bool" where
  "lossless x k i s got \<longleftrightarrow> distinct (subscribers_of s x) \<and> i \<in> set (subscribers_of s x)
     \<and> i < length (ls_heap s) \<and> (\<forall>y. y \<noteq> x \<longrightarrow> i \<notin> set (subscribers_of s y))
     \<and> \<not> sb_closed (ls_heap s ! i) \<and> sb_capacity (ls_heap s ! i) = 256
     \<and> got @ sb_queue (ls_heap s ! i) = drop k (lines_of s x)"

lemma lossless_append:
  assumes l: "lossless x k i s got" and b: "length (lines_of (append_lines now y ls s) x) \<le> k + 256"
    and k: "k \<le> length (lines_of s x)"
  shows "lossless x k i (append_lines now y ls s) got"
proof -
  let ?new = "number_lines now y (int (length (lines_of s y))) ls"
  have s: "subscribers_of (append_lines now y ls s) z = subscribers_of s z" for z
    by (simp add: append_lines_def subscribers_of_def Let_def)
  have h: "ls_heap (append_lines now y ls s)
      = update_subs (send_all ?new) (subscribers_of s y) (ls_heap s)"
    by (simp add: append_lines_def Let_def)
  have hl: "length (ls_heap (append_lines now y ls s)) = length (ls_heap s)" by (simp add: h)
  show ?thesis
  proof (cases "y = x")
    case True
    have at: "ls_heap (append_lines now y ls s) ! i = send_all ?new (ls_heap s ! i)"
      unfolding h using l True by (simp add: lossless_def update_subs_at)
    have q: "got @ sb_queue (ls_heap s ! i) = drop k (lines_of s x)" using l by (simp add: lossless_def)
    then have "length (sb_queue (ls_heap s ! i)) \<le> length (lines_of s x) - k"
      by (metis length_append length_drop le_add2)
    then have "length (sb_queue (ls_heap s ! i)) + length ?new \<le> 256"
      using b k True by (simp add: lines_of_append)
    then have "sb_queue (send_all ?new (ls_heap s ! i)) = sb_queue (ls_heap s ! i) @ ?new"
      using l by (intro send_all_fits) (auto simp: lossless_def)
    then have "got @ sb_queue (send_all ?new (ls_heap s ! i)) = drop k (lines_of s x @ ?new)"
      using q k by (simp add: append_assoc [symmetric] del: append_assoc)
    then show ?thesis
      unfolding lossless_def s at hl using l True by (simp add: lossless_def lines_of_append)
  next
    case False
    have at: "ls_heap (append_lines now y ls s) ! i = ls_heap s ! i"
      unfolding h using l False by (simp add: lossless_def update_subs_other)
    show ?thesis
      unfolding lossless_def s at hl using l False by (simp add: lossless_def lines_of_append)
  qed
qed

lemma lossless_receive:
  assumes l: "lossless x k i s got" and r: "receive i s = Some (a, s')"
  shows "lossless x k i s' (got @ [a]) \<and> lines_of s' x = lines_of s x"
  using assms
  by (auto simp: lossless_def receive_def subscribers_of_def lines_of_def split: if_splits list.splits)

lemma lines_of_mono: "length (lines_of s x) \<le> length (lines_of (append_lines now y ls s) x)"
  by (simp add: lines_of_append)

lemma follow_lines_mono: "follow i steps s got = (s', got') \<Longrightarrow>
    length (lines_of s x) \<le> length (lines_of s' x)"
proof (induction i steps s got rule: follow.induct)
  case (2 i now y ls steps s got)
  then show ?case using lines_of_mono [of s x now y ls] by simp
next
  case (3 i steps s got)
  show ?case
  proof (cases "receive i s")
    case None
    then show ?thesis using 3 by simp
  next
    case (Some p)
    obtain a s1 where p: "p = (a, s1)" by (cases p)
    then have "lines_of s1 x = lines_of s x"
      using Some by (auto simp: receive_def lines_of_def split: if_splits list.splits)
    then show ?thesis using 3(2) [OF Some p [symmetric]] 3(3) Some p by simp
  qed
qed simp

lemma follow_lossless:
  "follow i steps s got = (s', got') \<Longrightarrow> lossless x k i s got \<Longrightarrow> k \<le> length (lines_of s x) \<Longrightarrow>
     length (lines_of s' x) \<le> k + 256 \<Longrightarrow> lossless x k i s' got'"
proof (induction i steps s got rule: follow.induct)
  case (2 i now y ls steps s got)
  have m: "length (lines_of (append_lines now y ls s) x) \<le> length (lines_of s' x)"
    using follow_lines_mono [of i steps "append_lines now y ls s" got s' got'] 2(2) by simp
  have "lossless x k i (append_lines now y ls s) got"
    by (rule lossless_append [OF 2(3) _ 2(4)]) (use m 2(5) in simp)
  then show ?case using 2 lines_of_mono [of s x now y ls] by simp
next
  case (3 i steps s got)
  show ?case
  proof (cases "receive i s")
    case None
    then show ?thesis using 3 by simp
  next
    case (Some p)
    obtain a s1 where p: "p = (a, s1)" by (cases p)
    from lossless_receive [OF 3(4) Some [unfolded p]] 3 Some p show ?thesis by simp
  qed
qed simp

section \<open>Properties\<close>

text \<open>Log lines are numbered consecutively and never lost in memory: an append adds exactly the
  given lines, in order, after the existing ones, with the task's ID and the next numbers and with
  their content and stream unchanged, and leaves the logs of all other tasks alone.\<close>

theorem append_numbers_lines:
  assumes "numbered_at s x" "s' = append_lines now x ls s"
  shows "numbered_at s' x
    \<and> lines_of s' x = lines_of s x @ drop (length (lines_of s x)) (lines_of s' x)
    \<and> map ln_Content (drop (length (lines_of s x)) (lines_of s' x)) = map ln_Content ls
    \<and> map ln_Stream (drop (length (lines_of s x)) (lines_of s' x)) = map ln_Stream ls
    \<and> (\<forall>y. y \<noteq> x \<longrightarrow> lines_of s' y = lines_of s y)"
  using numbered_at_append [OF assms(1), of now x ls]
  by (auto simp: assms(2) lines_of_append number_lines_nth intro!: nth_equalityI)

definition small_line :: "string \<Rightarrow> line" where
  "small_line c = \<lparr> ln_TaskID = [], ln_LineNumber = 0, ln_Timestamp = 0, ln_Content = c,
     ln_Stream = StreamStdout \<rparr>"

theorem append_numbers_lines_witness:
  "numbered_at (append_lines 5 ''t'' [small_line ''a'', small_line ''b''] new_log_store) ''t''"
proof -
  have "numbered_at new_log_store ''t''" by (simp add: numbered_at_def new_log_store_def lines_of_def)
  from append_numbers_lines [OF this refl] show ?thesis by blast
qed

text \<open>Paging is exact: for an offset that is not negative, a page of positive size is the slice of
  the log it names together with the total, and no limit gives the rest, as long as offset plus
  limit stays below \<open>2 ^ 63\<close>.\<close>

theorem pages_exact:
  assumes "0 \<le> offset" "offset + limit < 2 ^ 63" "int (length (lines_of s x)) < 2 ^ 63"
  shows "get_lines x offset limit s = Some
      (if limit > 0 then take (nat limit) (drop (nat offset) (lines_of s x))
       else drop (nat offset) (lines_of s x), int (length (lines_of s x)))"
proof -
  have w: "wrap64 (offset + limit) = offset + limit" if "limit > 0"
    using assms that by (simp add: wrap64_def)
  show ?thesis
  proof (cases "offset \<ge> int (length (lines_of s x))")
    case True
    then have "drop (nat offset) (lines_of s x) = []" by simp
    then show ?thesis using True by (simp add: get_lines_def Let_def)
  next
    case False
    then show ?thesis
      using assms w by (auto simp: get_lines_def Let_def nat_add_distrib nat_le_iff min_def intro!: take_all)
  qed
qed

theorem pages_exact_witness:
  "get_lines ''t'' 1 1 (append_lines 5 ''t'' [small_line ''a'', small_line ''b'', small_line ''c'']
      new_log_store)
   = Some (take 1 (drop 1 (lines_of (append_lines 5 ''t'' [small_line ''a'', small_line ''b'',
        small_line ''c''] new_log_store) ''t'')), 3)"
proof -
  let ?s = "append_lines 5 ''t'' [small_line ''a'', small_line ''b'', small_line ''c''] new_log_store"
  have "length (lines_of ?s ''t'') = 3" by code_simp
  then show ?thesis using pages_exact [of 1 1 ?s "''t''"] by simp
qed

text \<open>A negative offset crashes the master: \<open>Get\<close> panics for every negative offset, whether or not
  the task has logs, and for a limit so large that offset plus limit overflows; \<open>GetLogs\<close> passes both
  on from the request unchecked.\<close>

theorem negative_offset_panics:
  assumes "offset < 0 \<or> 0 < offset \<and> offset < int (length (lines_of s x)) \<and> limit < 2 ^ 63
    \<and> 2 ^ 63 \<le> offset + limit \<and> int (length (lines_of s x)) < 2 ^ 63"
  shows "get_lines x offset limit s = None"
proof (cases "offset < 0")
  case True
  then show ?thesis by (auto simp: get_lines_def Let_def)
next
  case False
  with assms have a: "0 < offset" "offset < int (length (lines_of s x))" "limit < 2 ^ 63"
    "2 ^ 63 \<le> offset + limit" "int (length (lines_of s x)) < 2 ^ 63" by auto
  have "(offset + limit + 2 ^ 63) mod 2 ^ 64 = offset + limit + 2 ^ 63 - 2 ^ 64"
    using a minus_mod_self2 [of "offset + limit + 2 ^ 63" "2 ^ 64"]
      mod_pos_pos_trivial [of "offset + limit + 2 ^ 63 - 2 ^ 64" "2 ^ 64"] by simp
  then have "wrap64 (offset + limit) = offset + limit - 2 ^ 64" by (simp add: wrap64_def)
  then have "wrap64 (offset + limit) < 0" "limit > 0" using a by simp_all
  then show ?thesis using a by (auto simp: get_lines_def Let_def)
qed

theorem negative_offset_panics_witness: "get_lines ''t'' (- 1) 0 new_log_store = None"
  by (rule negative_offset_panics) simp



end
