(* ===== verification/Scm.thy ===== *)
theory Scm
  imports Scm_Types Go_Strings
begin

text \<open>
  The git hosts, \<open>pkg/scm\<close>: the GitHub and GitLab clients (\<open>github.go\<close>, \<open>gitlab.go\<close>), the interface
  they implement (\<open>provider.go\<close>, the locale \<open>scm_client\<close>) and the webhook router (\<open>router.go\<close>).

  The library code is an argument: \<open>json_parse\<close> turns a body into a JSON tree, \<open>hmac\<close> is
  HMAC-SHA256 with a key, and \<open>send\<close> performs an HTTP request and gives the status code and body of
  the response, or nothing when the request could not be made or failed.  Decoding a tree into a payload struct is
  modelled: a missing field or null leaves the zero value, a value of another type is an error, and
  keys match field tags up to ASCII case.  An object that names a field twice is outside the model:
  Go would merge the two values where the model takes one.  A request body that cannot be read is
  \<open>None\<close>.
\<close>

section \<open>JSON\<close>

datatype json =
    JNull
  | JBool bool
  | JNum int
  | JFrac
  | JStr string
  | JArr "json list"
  | JObj "(string \<times> json) list"

definition ascii_lower :: "char \<Rightarrow> char" where
  "ascii_lower c = (if (65 :: nat) \<le> of_char c \<and> (of_char c :: nat) \<le> 90
                    then char_of ((of_char c :: nat) + 32) else c)"

text \<open>The value a field is decoded from; a tag is in lower case. The last matching key counts.\<close>

fun field :: "string \<Rightarrow> (string \<times> json) list \<Rightarrow> json" where
  "field f [] = JNull"
| "field f ((k, v) # kvs) =
     (if map ascii_lower k = map ascii_lower f \<and> field f kvs = JNull then v else field f kvs)"

fun as_object :: "json \<Rightarrow> (string \<times> json) list option" where
  "as_object JNull = Some []"
| "as_object (JObj kvs) = Some kvs"
| "as_object _ = None"

fun as_string :: "json \<Rightarrow> string option" where
  "as_string JNull = Some []"
| "as_string (JStr s) = Some s"
| "as_string _ = None"

fun as_u32 :: "json \<Rightarrow> u32 option" where
  "as_u32 JNull = Some 0"
| "as_u32 (JNum n) = (if 0 \<le> n \<and> n < 2 ^ 32 then Some (word_of_int n) else None)"
| "as_u32 _ = None"

fun as_list :: "json \<Rightarrow> json list option" where
  "as_list JNull = Some []"
| "as_list (JArr js) = Some js"
| "as_list _ = None"

fun all_some :: "('a \<Rightarrow> 'b option) \<Rightarrow> 'a list \<Rightarrow> 'b list option" where
  "all_some f [] = Some []"
| "all_some f (x # xs) =
     (case f x of None \<Rightarrow> None | Some y \<Rightarrow> map_option (Cons y) (all_some f xs))"

definition obj_field :: "string \<Rightarrow> (string \<times> json) list \<Rightarrow> (string \<times> json) list option" where
  "obj_field f kvs = as_object (field f kvs)"

definition str_field :: "string \<Rightarrow> (string \<times> json) list \<Rightarrow> string option" where
  "str_field f kvs = as_string (field f kvs)"

definition strs_field :: "string \<Rightarrow> (string \<times> json) list \<Rightarrow> string list option" where
  "strs_field f kvs = Option.bind (as_list (field f kvs)) (all_some as_string)"

section \<open>Requests\<close>

record http_in =
  hi_header :: "string \<Rightarrow> string"
  hi_body :: "string option"

record http_out =
  ho_method :: string
  ho_url :: string
  ho_headers :: "(string \<times> string) list"
  ho_body :: json

datatype scm_error =
    ReadingBody
  | MissingSignature
  | InvalidSignatureHex
  | SignatureMismatch
  | SecretMismatch
  | UnsupportedEvent string
  | ParsingPayload
  | NotAPRComment
  | IgnoredCommentAction string
  | SendingFailed
  | APIReturned int string
  | UnsupportedProvider provider

section \<open>GitHub\<close>

definition hex_digit :: "char \<Rightarrow> nat option" where
  "hex_digit c =
     (let n = (of_char c :: nat)
      in if 48 \<le> n \<and> n \<le> 57 then Some (n - 48)
         else if 97 \<le> n \<and> n \<le> 102 then Some (n - 87)
         else if 65 \<le> n \<and> n \<le> 70 then Some (n - 55)
         else None)"

fun hex_decode :: "string \<Rightarrow> string option" where
  "hex_decode [] = Some []"
| "hex_decode [c] = None"
| "hex_decode (a # b # cs) =
     (case (hex_digit a, hex_digit b, hex_decode cs) of
        (Some x, Some y, Some s) \<Rightarrow> Some (char_of (16 * x + y) # s)
      | _ \<Rightarrow> None)"

definition verify_github_signature ::
    "(string \<Rightarrow> string \<Rightarrow> string) \<Rightarrow> string \<Rightarrow> string \<Rightarrow> string \<Rightarrow> scm_error option" where
  "verify_github_signature hmac body signature secret =
     (if signature = [] then Some MissingSignature
      else case hex_decode (trim_prefix ''sha256='' signature) of
        None \<Rightarrow> Some InvalidSignatureHex
      | Some decoded \<Rightarrow> if decoded \<noteq> hmac secret body then Some SignatureMismatch else None)"

definition decode_commit :: "json \<Rightarrow> commit option" where
  "decode_commit j = Option.bind (as_object j) (\<lambda>o1.
     Option.bind (str_field ''id'' o1) (\<lambda>i.
     Option.bind (str_field ''message'' o1) (\<lambda>m.
     Option.bind (obj_field ''author'' o1) (\<lambda>a.
     Option.bind (str_field ''name'' a) (\<lambda>n.
     Option.bind (strs_field ''added'' o1) (\<lambda>ad.
     Option.bind (strs_field ''modified'' o1) (\<lambda>mo.
     Option.bind (strs_field ''removed'' o1) (\<lambda>re.
       Some \<lparr> co_SHA = i, co_Message = m, co_Author = n, co_Added = ad, co_Modified = mo,
              co_Removed = re \<rparr>))))))))"

definition gh_decode_push :: "json \<Rightarrow> push_event option" where
  "gh_decode_push j = Option.bind (as_object j) (\<lambda>p.
     Option.bind (str_field ''ref'' p) (\<lambda>ref.
     Option.bind (str_field ''before'' p) (\<lambda>before.
     Option.bind (str_field ''after'' p) (\<lambda>aft.
     Option.bind (obj_field ''pusher'' p) (\<lambda>pu.
     Option.bind (str_field ''name'' pu) (\<lambda>pusher.
     Option.bind (obj_field ''repository'' p) (\<lambda>re.
     Option.bind (str_field ''full_name'' re) (\<lambda>fullname.
     Option.bind (str_field ''clone_url'' re) (\<lambda>url.
     Option.bind (as_list (field ''commits'' p)) (\<lambda>cs.
     Option.bind (all_some decode_commit cs) (\<lambda>commits.
       Some \<lparr> pu_RepoURL = url, pu_RepoFullName = fullname, pu_Ref = ref, pu_BeforeSHA = before,
              pu_AfterSHA = aft, pu_Pusher = pusher, pu_Commits = commits \<rparr>)))))))))))"

definition gh_decode_pr :: "json \<Rightarrow> pull_request_event option" where
  "gh_decode_pr j = Option.bind (as_object j) (\<lambda>p.
     Option.bind (str_field ''action'' p) (\<lambda>action.
     Option.bind (as_u32 (field ''number'' p)) (\<lambda>number.
     Option.bind (obj_field ''pull_request'' p) (\<lambda>pr.
     Option.bind (str_field ''title'' pr) (\<lambda>title.
     Option.bind (obj_field ''head'' pr) (\<lambda>hd'.
     Option.bind (str_field ''sha'' hd') (\<lambda>sha.
     Option.bind (str_field ''ref'' hd') (\<lambda>headref.
     Option.bind (obj_field ''base'' pr) (\<lambda>base.
     Option.bind (str_field ''ref'' base) (\<lambda>baseref.
     Option.bind (obj_field ''user'' pr) (\<lambda>user.
     Option.bind (str_field ''login'' user) (\<lambda>login.
     Option.bind (obj_field ''repository'' p) (\<lambda>re.
     Option.bind (str_field ''full_name'' re) (\<lambda>fullname.
     Option.bind (str_field ''clone_url'' re) (\<lambda>url.
       Some \<lparr> pr_RepoURL = url, pr_RepoFullName = fullname, pr_Action = action, pr_Number = number,
              pr_Title = title, pr_HeadSHA = sha, pr_HeadBranch = headref, pr_BaseBranch = baseref,
              pr_Author = login \<rparr>)))))))))))))))"

text \<open>The payload of a comment: its action, whether it is on a pull request, and the event.\<close>

definition gh_decode_comment :: "json \<Rightarrow> (string \<times> bool \<times> comment_event) option" where
  "gh_decode_comment j = Option.bind (as_object j) (\<lambda>p.
     Option.bind (str_field ''action'' p) (\<lambda>action.
     Option.bind (obj_field ''issue'' p) (\<lambda>issue.
     Option.bind (as_u32 (field ''number'' issue)) (\<lambda>number.
     Option.bind (obj_field ''pull_request'' issue) (\<lambda>pr.
     Option.bind (str_field ''url'' pr) (\<lambda>_.
     Option.bind (obj_field ''comment'' p) (\<lambda>co.
     Option.bind (str_field ''body'' co) (\<lambda>body.
     Option.bind (obj_field ''user'' co) (\<lambda>user.
     Option.bind (str_field ''login'' user) (\<lambda>login.
     Option.bind (obj_field ''repository'' p) (\<lambda>re.
     Option.bind (str_field ''full_name'' re) (\<lambda>fullname.
     Option.bind (str_field ''clone_url'' re) (\<lambda>url.
       Some (action, field ''pull_request'' issue \<noteq> JNull,
             \<lparr> ce_RepoURL = url, ce_RepoFullName = fullname, ce_PRNumber = number, ce_Body = body,
               ce_Author = login, ce_HeadSHA = [] \<rparr>))))))))))))))"

definition blank_event :: "string \<Rightarrow> provider \<Rightarrow> time \<Rightarrow> event" where
  "blank_event i p now = \<lparr> ev_ID = i, ev_Provider = p, ev_ReceivedAt = now, ev_Type = EventUnknown,
     ev_Push = None, ev_PR = None, ev_Comment = None \<rparr>"

definition gh_parse_push :: "json option \<Rightarrow> event \<Rightarrow> scm_error + event" where
  "gh_parse_push body e =
     (case Option.bind body gh_decode_push of
        None \<Rightarrow> Inl ParsingPayload
      | Some p \<Rightarrow> Inr (e\<lparr> ev_Type := EventPush, ev_Push := Some p \<rparr>))"

definition gh_parse_pull_request :: "json option \<Rightarrow> event \<Rightarrow> scm_error + event" where
  "gh_parse_pull_request body e =
     (case Option.bind body gh_decode_pr of
        None \<Rightarrow> Inl ParsingPayload
      | Some p \<Rightarrow> Inr (e\<lparr> ev_Type := EventPullRequest, ev_PR := Some p \<rparr>))"

definition gh_parse_comment :: "json option \<Rightarrow> event \<Rightarrow> scm_error + event" where
  "gh_parse_comment body e =
     (case Option.bind body gh_decode_comment of
        None \<Rightarrow> Inl ParsingPayload
      | Some (action, onPR, c) \<Rightarrow>
          if \<not> onPR then Inl NotAPRComment
          else if action \<noteq> ''created'' then Inl (IgnoredCommentAction action)
          else Inr (e\<lparr> ev_Type := EventComment, ev_Comment := Some c \<rparr>))"

definition github_parse ::
    "(string \<Rightarrow> json option) \<Rightarrow> (string \<Rightarrow> string \<Rightarrow> string) \<Rightarrow> time \<Rightarrow> http_in \<Rightarrow> string
       \<Rightarrow> scm_error + event" where
  "github_parse json_parse hmac now r secret =
     (case hi_body r of
        None \<Rightarrow> Inl ReadingBody
      | Some body \<Rightarrow>
     (case (if secret = [] then None
            else verify_github_signature hmac body (hi_header r ''X-Hub-Signature-256'') secret) of
        Some err \<Rightarrow> Inl err
      | None \<Rightarrow>
          let eventType = hi_header r ''X-GitHub-Event'';
              e = blank_event (hi_header r ''X-GitHub-Delivery'') ProviderGitHub now
          in if eventType = ''push'' then gh_parse_push (json_parse body) e
             else if eventType = ''pull_request'' then gh_parse_pull_request (json_parse body) e
             else if eventType = ''issue_comment'' then gh_parse_comment (json_parse body) e
             else Inl (UnsupportedEvent eventType)))"

fun github_status_state :: "status_state \<Rightarrow> string" where
  "github_status_state StatusPending = ''pending''"
| "github_status_state StatusRunning = ''pending''"
| "github_status_state StatusSuccess = ''success''"
| "github_status_state StatusFailure = ''failure''"
| "github_status_state StatusError = ''error''"

definition api_base :: "string \<Rightarrow> string \<Rightarrow> string" where
  "api_base dflt base = (if base = [] then dflt else base)"

definition github_status_request :: "string \<Rightarrow> string \<Rightarrow> status_report \<Rightarrow> http_out" where
  "github_status_request apiBase token rep = \<lparr> ho_method = ''POST'',
     ho_url = api_base ''https://api.github.com'' apiBase @ ''/repos/'' @ sr_RepoFullName rep
       @ ''/statuses/'' @ sr_CommitSHA rep,
     ho_headers = [(''Authorization'', ''Bearer '' @ token), (''Accept'', ''application/vnd.github+json''),
       (''Content-Type'', ''application/json'')],
     ho_body = JObj ([(''context'', JStr (sr_Context rep)), (''description'', JStr (sr_Description rep)),
       (''state'', JStr (github_status_state (sr_State rep)))]
       @ (if sr_TargetURL rep \<noteq> [] then [(''target_url'', JStr (sr_TargetURL rep))] else [])) \<rparr>"

definition send_request :: "(http_out \<Rightarrow> (int \<times> string) option) \<Rightarrow> http_out \<Rightarrow> scm_error option" where
  "send_request send req =
     (case send req of
        None \<Rightarrow> Some SendingFailed
      | Some (code, body) \<Rightarrow> if code \<ge> 300 then Some (APIReturned code body) else None)"

definition github_report_status ::
    "(http_out \<Rightarrow> (int \<times> string) option) \<Rightarrow> string \<Rightarrow> string \<Rightarrow> status_report \<Rightarrow> scm_error option" where
  "github_report_status send apiBase token rep =
     send_request send (github_status_request apiBase token rep)"

definition github_comment_request :: "string \<Rightarrow> string \<Rightarrow> pr_comment \<Rightarrow> http_out" where
  "github_comment_request apiBase token c = \<lparr> ho_method = ''POST'',
     ho_url = api_base ''https://api.github.com'' apiBase @ ''/repos/'' @ pc_RepoFullName c
       @ ''/issues/'' @ pc_PRNumber c @ ''/comments'',
     ho_headers = [(''Authorization'', ''Bearer '' @ token), (''Accept'', ''application/vnd.github+json''),
       (''Content-Type'', ''application/json'')],
     ho_body = JObj [(''body'', JStr (pc_Body c))] \<rparr>"

definition github_post_pr_comment ::
    "(http_out \<Rightarrow> (int \<times> string) option) \<Rightarrow> string \<Rightarrow> string \<Rightarrow> pr_comment \<Rightarrow> scm_error option" where
  "github_post_pr_comment send apiBase token c = send_request send (github_comment_request apiBase token c)"

section \<open>GitLab\<close>

definition decode_project :: "json \<Rightarrow> (string \<times> string) option" where
  "decode_project j = Option.bind (as_object j) (\<lambda>p.
     Option.bind (str_field ''path_with_namespace'' p) (\<lambda>path.
     Option.bind (str_field ''git_http_url'' p) (\<lambda>url. Some (path, url))))"

definition gl_decode_push :: "json \<Rightarrow> push_event option" where
  "gl_decode_push j = Option.bind (as_object j) (\<lambda>p.
     Option.bind (str_field ''before'' p) (\<lambda>before.
     Option.bind (str_field ''after'' p) (\<lambda>aft.
     Option.bind (str_field ''ref'' p) (\<lambda>ref.
     Option.bind (str_field ''user_name'' p) (\<lambda>user.
     Option.bind (decode_project (field ''project'' p)) (\<lambda>(path, url).
     Option.bind (as_list (field ''commits'' p)) (\<lambda>cs.
     Option.bind (all_some decode_commit cs) (\<lambda>commits.
       Some \<lparr> pu_RepoURL = url, pu_RepoFullName = path, pu_Ref = ref, pu_BeforeSHA = before,
              pu_AfterSHA = aft, pu_Pusher = user, pu_Commits = commits \<rparr>))))))))"

text \<open>GitLab's actions become the canonical ones; any other is passed on.\<close>

definition canonical_action :: "string \<Rightarrow> string" where
  "canonical_action a =
     (if a = ''open'' then ''opened'' else if a = ''update'' then ''synchronize''
      else if a = ''close'' then ''closed'' else if a = ''reopen'' then ''reopened'' else a)"

definition gl_decode_mr :: "json \<Rightarrow> pull_request_event option" where
  "gl_decode_mr j = Option.bind (as_object j) (\<lambda>p.
     Option.bind (obj_field ''object_attributes'' p) (\<lambda>oa.
     Option.bind (str_field ''action'' oa) (\<lambda>action.
     Option.bind (as_u32 (field ''iid'' oa)) (\<lambda>iid.
     Option.bind (str_field ''title'' oa) (\<lambda>title.
     Option.bind (obj_field ''last_commit'' oa) (\<lambda>lc.
     Option.bind (str_field ''id'' lc) (\<lambda>sha.
     Option.bind (str_field ''source_branch'' oa) (\<lambda>src.
     Option.bind (str_field ''target_branch'' oa) (\<lambda>tgt.
     Option.bind (obj_field ''user'' p) (\<lambda>user.
     Option.bind (str_field ''username'' user) (\<lambda>name.
     Option.bind (decode_project (field ''project'' p)) (\<lambda>(path, url).
       Some \<lparr> pr_RepoURL = url, pr_RepoFullName = path, pr_Action = canonical_action action,
              pr_Number = iid, pr_Title = title, pr_HeadSHA = sha, pr_HeadBranch = src,
              pr_BaseBranch = tgt, pr_Author = name \<rparr>))))))))))))"

definition gl_decode_note :: "json \<Rightarrow> (string \<times> bool \<times> comment_event) option" where
  "gl_decode_note j = Option.bind (as_object j) (\<lambda>p.
     Option.bind (obj_field ''object_attributes'' p) (\<lambda>oa.
     Option.bind (str_field ''note'' oa) (\<lambda>note.
     Option.bind (str_field ''noteable_type'' oa) (\<lambda>kind.
     Option.bind (obj_field ''user'' p) (\<lambda>user.
     Option.bind (str_field ''username'' user) (\<lambda>name.
     Option.bind (obj_field ''merge_request'' p) (\<lambda>mr.
     Option.bind (as_u32 (field ''iid'' mr)) (\<lambda>iid.
     Option.bind (obj_field ''last_commit'' mr) (\<lambda>lc.
     Option.bind (str_field ''id'' lc) (\<lambda>sha.
     Option.bind (decode_project (field ''project'' p)) (\<lambda>(path, url).
       Some (kind, field ''merge_request'' p \<noteq> JNull,
             \<lparr> ce_RepoURL = url, ce_RepoFullName = path, ce_PRNumber = iid, ce_Body = note,
               ce_Author = name, ce_HeadSHA = sha \<rparr>))))))))))))"

definition gl_parse_push :: "json option \<Rightarrow> event \<Rightarrow> scm_error + event" where
  "gl_parse_push body e =
     (case Option.bind body gl_decode_push of
        None \<Rightarrow> Inl ParsingPayload
      | Some p \<Rightarrow> Inr (e\<lparr> ev_Type := EventPush, ev_Push := Some p \<rparr>))"

definition gl_parse_merge_request :: "json option \<Rightarrow> event \<Rightarrow> scm_error + event" where
  "gl_parse_merge_request body e =
     (case Option.bind body gl_decode_mr of
        None \<Rightarrow> Inl ParsingPayload
      | Some p \<Rightarrow> Inr (e\<lparr> ev_Type := EventPullRequest, ev_PR := Some p \<rparr>))"

definition gl_parse_note :: "json option \<Rightarrow> event \<Rightarrow> scm_error + event" where
  "gl_parse_note body e =
     (case Option.bind body gl_decode_note of
        None \<Rightarrow> Inl ParsingPayload
      | Some (kind, onMR, c) \<Rightarrow>
          if kind \<noteq> ''MergeRequest'' \<or> \<not> onMR then Inl NotAPRComment
          else Inr (e\<lparr> ev_Type := EventComment, ev_Comment := Some c \<rparr>))"

definition gitlab_parse ::
    "(string \<Rightarrow> json option) \<Rightarrow> time \<Rightarrow> http_in \<Rightarrow> string \<Rightarrow> scm_error + event" where
  "gitlab_parse json_parse now r secret =
     (case hi_body r of
        None \<Rightarrow> Inl ReadingBody
      | Some body \<Rightarrow>
          if secret \<noteq> [] \<and> hi_header r ''X-Gitlab-Token'' \<noteq> secret then Inl SecretMismatch
          else
            let eventType = hi_header r ''X-Gitlab-Event'';
                e = blank_event (hi_header r ''X-Gitlab-Event-UUID'') ProviderGitLab now
            in if eventType = ''Push Hook'' then gl_parse_push (json_parse body) e
               else if eventType = ''Merge Request Hook'' then gl_parse_merge_request (json_parse body) e
               else if eventType = ''Note Hook'' then gl_parse_note (json_parse body) e
               else Inl (UnsupportedEvent eventType))"

fun gitlab_status_state :: "status_state \<Rightarrow> string" where
  "gitlab_status_state StatusPending = ''pending''"
| "gitlab_status_state StatusRunning = ''running''"
| "gitlab_status_state StatusSuccess = ''success''"
| "gitlab_status_state StatusFailure = ''failed''"
| "gitlab_status_state StatusError = ''failed''"

definition gitlab_project_path :: "string \<Rightarrow> string" where
  "gitlab_project_path fullName = replace_all ''/'' ''%2F'' fullName"

definition gitlab_status_request :: "string \<Rightarrow> string \<Rightarrow> status_report \<Rightarrow> http_out" where
  "gitlab_status_request apiBase token rep = \<lparr> ho_method = ''POST'',
     ho_url = api_base ''https://gitlab.com/api/v4'' apiBase @ ''/projects/''
       @ gitlab_project_path (sr_RepoFullName rep) @ ''/statuses/'' @ sr_CommitSHA rep
       @ ''?state='' @ gitlab_status_state (sr_State rep) @ ''&name='' @ sr_Context rep,
     ho_headers = [(''PRIVATE-TOKEN'', token), (''Content-Type'', ''application/json'')],
     ho_body = JObj ((''description'', JStr (sr_Description rep))
       # (if sr_TargetURL rep \<noteq> [] then [(''target_url'', JStr (sr_TargetURL rep))] else [])) \<rparr>"

definition gitlab_report_status ::
    "(http_out \<Rightarrow> (int \<times> string) option) \<Rightarrow> string \<Rightarrow> string \<Rightarrow> status_report \<Rightarrow> scm_error option" where
  "gitlab_report_status send apiBase token rep =
     send_request send (gitlab_status_request apiBase token rep)"

definition gitlab_comment_request :: "string \<Rightarrow> string \<Rightarrow> pr_comment \<Rightarrow> http_out" where
  "gitlab_comment_request apiBase token c = \<lparr> ho_method = ''POST'',
     ho_url = api_base ''https://gitlab.com/api/v4'' apiBase @ ''/projects/''
       @ gitlab_project_path (pc_RepoFullName c) @ ''/merge_requests/'' @ pc_PRNumber c @ ''/notes'',
     ho_headers = [(''PRIVATE-TOKEN'', token), (''Content-Type'', ''application/json'')],
     ho_body = JObj [(''body'', JStr (pc_Body c))] \<rparr>"

definition gitlab_post_pr_comment ::
    "(http_out \<Rightarrow> (int \<times> string) option) \<Rightarrow> string \<Rightarrow> string \<Rightarrow> pr_comment \<Rightarrow> scm_error option" where
  "gitlab_post_pr_comment send apiBase token c = send_request send (gitlab_comment_request apiBase token c)"

section \<open>The interface of a client\<close>

text \<open>An event is well-formed for its type: it carries the payload of its type and no other.\<close>

definition well_formed_event :: "event \<Rightarrow> bool" where
  "well_formed_event e \<longleftrightarrow>
     (ev_Type e = EventPush \<and> ev_Push e \<noteq> None \<and> ev_PR e = None \<and> ev_Comment e = None)
     \<or> (ev_Type e = EventPullRequest \<and> ev_Push e = None \<and> ev_PR e \<noteq> None \<and> ev_Comment e = None)
     \<or> (ev_Type e = EventComment \<and> ev_Push e = None \<and> ev_PR e = None \<and> ev_Comment e \<noteq> None)"

locale scm_client =
  fixes parse_webhook :: "time \<Rightarrow> http_in \<Rightarrow> string \<Rightarrow> scm_error + event"
    and report_status :: "string \<Rightarrow> status_report \<Rightarrow> scm_error option"
    and post_comment :: "string \<Rightarrow> pr_comment \<Rightarrow> scm_error option"
    and the_provider :: provider
    and authentic :: "http_in \<Rightarrow> string \<Rightarrow> bool"
  assumes parsed_form: "parse_webhook now r secret = Inr e \<Longrightarrow> well_formed_event e"
    and parsed_source: "parse_webhook now r secret = Inr e \<Longrightarrow>
      ev_Provider e = the_provider \<and> ev_ReceivedAt e = now"
    and parsed_authentic: "parse_webhook now r secret = Inr e \<Longrightarrow> secret \<noteq> [] \<Longrightarrow> authentic r secret"
begin

text \<open>What a webhook handler may rely on: with a secret set, a request that is not authentic has no
  effect, and an accepted one has exactly one payload.\<close>

lemma forged_rejected: "secret \<noteq> [] \<Longrightarrow> \<not> authentic r secret \<Longrightarrow> \<exists>err. parse_webhook now r secret = Inl err"
  using parsed_authentic by (cases "parse_webhook now r secret") auto

lemma accepted_event: "parse_webhook now r secret = Inr e \<Longrightarrow>
    ev_Provider e = the_provider \<and> ev_Type e \<noteq> EventUnknown
    \<and> (ev_Push e \<noteq> None \<longleftrightarrow> ev_Type e = EventPush) \<and> (ev_PR e \<noteq> None \<longleftrightarrow> ev_Type e = EventPullRequest)
    \<and> (ev_Comment e \<noteq> None \<longleftrightarrow> ev_Type e = EventComment)"
  using parsed_form [of now r secret e] parsed_source [of now r secret e]
  unfolding well_formed_event_def by auto

end

definition github_authentic :: "(string \<Rightarrow> string \<Rightarrow> string) \<Rightarrow> http_in \<Rightarrow> string \<Rightarrow> bool" where
  "github_authentic hmac r secret \<longleftrightarrow> (case hi_body r of None \<Rightarrow> False | Some body \<Rightarrow>
     hi_header r ''X-Hub-Signature-256'' \<noteq> []
     \<and> hex_decode (trim_prefix ''sha256='' (hi_header r ''X-Hub-Signature-256'')) = Some (hmac secret body))"

definition gitlab_authentic :: "http_in \<Rightarrow> string \<Rightarrow> bool" where
  "gitlab_authentic r secret \<longleftrightarrow> hi_header r ''X-Gitlab-Token'' = secret"

lemma blank_event_simps [simp]:
  "ev_Provider (blank_event i p now) = p" "ev_ReceivedAt (blank_event i p now) = now"
  "ev_Push (blank_event i p now) = None" "ev_PR (blank_event i p now) = None"
  "ev_Comment (blank_event i p now) = None"
  by (simp_all add: blank_event_def)

lemma gh_parse_form:
  assumes "github_parse jp hmac now r secret = Inr e"
  shows "well_formed_event e \<and> ev_Provider e = ProviderGitHub \<and> ev_ReceivedAt e = now"
  using assms
  by (auto simp: github_parse_def gh_parse_push_def gh_parse_pull_request_def gh_parse_comment_def
      Let_def well_formed_event_def split: option.splits if_splits prod.splits)

lemma gh_parse_authentic:
  assumes "github_parse jp hmac now r secret = Inr e" "secret \<noteq> []"
  shows "github_authentic hmac r secret"
proof -
  obtain body where b: "hi_body r = Some body"
    and v: "verify_github_signature hmac body (hi_header r ''X-Hub-Signature-256'') secret = None"
    using assms by (auto simp: github_parse_def split: option.splits)
  then show ?thesis
    by (auto simp: github_authentic_def verify_github_signature_def split: option.splits if_splits)
qed

lemma gl_parse_form:
  assumes "gitlab_parse jp now r secret = Inr e"
  shows "well_formed_event e \<and> ev_Provider e = ProviderGitLab \<and> ev_ReceivedAt e = now"
  using assms
  by (auto simp: gitlab_parse_def gl_parse_push_def gl_parse_merge_request_def gl_parse_note_def
      Let_def well_formed_event_def split: option.splits if_splits prod.splits)

lemma gl_parse_authentic:
  "gitlab_parse jp now r secret = Inr e \<Longrightarrow> secret \<noteq> [] \<Longrightarrow> gitlab_authentic r secret"
  by (auto simp: gitlab_parse_def gitlab_authentic_def split: option.splits if_splits)

interpretation github: scm_client "github_parse jp hmac" "github_report_status send base"
    "github_post_pr_comment send base" ProviderGitHub "github_authentic hmac" for jp hmac send base
  using gh_parse_form gh_parse_authentic by unfold_locales blast+

interpretation gitlab: scm_client "gitlab_parse jp" "gitlab_report_status send base"
    "gitlab_post_pr_comment send base" ProviderGitLab gitlab_authentic for jp send base
  using gl_parse_form gl_parse_authentic by unfold_locales blast+

section \<open>The router\<close>

text \<open>The clients a router can hold, by the provider that is the key of its map.\<close>

record scm_env =
  env_json :: "string \<Rightarrow> json option"
  env_hmac :: "string \<Rightarrow> string \<Rightarrow> string"
  env_send :: "http_out \<Rightarrow> (int \<times> string) option"

datatype client = GitHubClient string | GitLabClient string

fun client_provider :: "client \<Rightarrow> provider" where
  "client_provider (GitHubClient base) = ProviderGitHub"
| "client_provider (GitLabClient base) = ProviderGitLab"

fun client_parse :: "scm_env \<Rightarrow> client \<Rightarrow> time \<Rightarrow> http_in \<Rightarrow> string \<Rightarrow> scm_error + event" where
  "client_parse env (GitHubClient base) now r secret = github_parse (env_json env) (env_hmac env) now r secret"
| "client_parse env (GitLabClient base) now r secret = gitlab_parse (env_json env) now r secret"

fun client_report_status :: "scm_env \<Rightarrow> client \<Rightarrow> string \<Rightarrow> status_report \<Rightarrow> scm_error option" where
  "client_report_status env (GitHubClient base) token rep = github_report_status (env_send env) base token rep"
| "client_report_status env (GitLabClient base) token rep = gitlab_report_status (env_send env) base token rep"

fun client_post_comment :: "scm_env \<Rightarrow> client \<Rightarrow> string \<Rightarrow> pr_comment \<Rightarrow> scm_error option" where
  "client_post_comment env (GitHubClient base) token c = github_post_pr_comment (env_send env) base token c"
| "client_post_comment env (GitLabClient base) token c = gitlab_post_pr_comment (env_send env) base token c"

type_synonym router = "(provider, client) gomap"

fun new_router_from :: "client list \<Rightarrow> router \<Rightarrow> router" where
  "new_router_from [] m = m"
| "new_router_from (c # cs) m = new_router_from cs (gput (client_provider c) c m)"

definition new_router :: "client list \<Rightarrow> router" where
  "new_router cs = new_router_from cs []"

definition detect_provider :: "http_in \<Rightarrow> provider" where
  "detect_provider r =
     (if hi_header r ''X-GitHub-Event'' \<noteq> [] then ProviderGitHub
      else if hi_header r ''X-Gitlab-Event'' \<noteq> [] then ProviderGitLab
      else ProviderUnknown)"

definition router_parse ::
    "scm_env \<Rightarrow> router \<Rightarrow> time \<Rightarrow> http_in \<Rightarrow> string \<Rightarrow> scm_error + event" where
  "router_parse env m now r secret =
     (case gget m (detect_provider r) of
        None \<Rightarrow> Inl (UnsupportedProvider (detect_provider r))
      | Some c \<Rightarrow> client_parse env c now r secret)"

definition get_client :: "router \<Rightarrow> provider \<Rightarrow> client option" where
  "get_client m p = gget m p"

end
