(* ===== verification/Scm_Properties.thy ===== *)
theory Scm_Properties
  imports Scm
begin

text \<open>The properties of webhook parsing and of the requests sent to the git hosts.\<close>

section \<open>The router\<close>

definition keyed_router :: "router \<Rightarrow> bool" where
  "keyed_router m \<longleftrightarrow> (\<forall>p c. gget m p = Some c \<longrightarrow> client_provider c = p)"

lemma keyed_new_router: "keyed_router (new_router cs)"
proof -
  have put: "keyed_router m \<Longrightarrow> keyed_router (gput (client_provider c) c m)" for c m
    by (simp add: keyed_router_def)
  have "keyed_router m \<Longrightarrow> keyed_router (new_router_from cs m)" for m
    by (induction cs arbitrary: m) (simp_all add: put)
  moreover have "keyed_router []" by (simp add: keyed_router_def)
  ultimately show ?thesis unfolding new_router_def by blast
qed

lemma keyed_routerD: "keyed_router m \<Longrightarrow> gget m p = Some c \<Longrightarrow> client_provider c = p"
  unfolding keyed_router_def by blast

text \<open>What it takes to be authentic, by provider.\<close>

definition authentic_for :: "scm_env \<Rightarrow> provider \<Rightarrow> http_in \<Rightarrow> string \<Rightarrow> bool" where
  "authentic_for env p r secret =
     (case p of
        ProviderGitHub \<Rightarrow> github_authentic (env_hmac env) r secret
      | ProviderGitLab \<Rightarrow> gitlab_authentic r secret
      | ProviderUnknown \<Rightarrow> False)"

lemma client_parse_sound:
  assumes "client_parse env c now r secret = Inr e"
  shows "well_formed_event e \<and> ev_Provider e = client_provider c \<and> ev_ReceivedAt e = now
    \<and> (secret \<noteq> [] \<longrightarrow> authentic_for env (client_provider c) r secret)"
  using assms github.parsed_form github.parsed_source github.parsed_authentic
    gitlab.parsed_form gitlab.parsed_source gitlab.parsed_authentic
  by (cases c) (auto simp: authentic_for_def)

lemma router_parse_sound:
  assumes "router_parse env (new_router cs) now r secret = Inr e"
  shows "ev_Provider e = detect_provider r \<and> ev_Provider e \<noteq> ProviderUnknown
    \<and> ev_ReceivedAt e = now \<and> well_formed_event e
    \<and> (secret \<noteq> [] \<longrightarrow> authentic_for env (detect_provider r) r secret)"
proof -
  obtain c where c: "gget (new_router cs) (detect_provider r) = Some c"
    and p: "client_parse env c now r secret = Inr e"
    using assms by (auto simp: router_parse_def split: option.splits)
  have k: "client_provider c = detect_provider r"
    by (rule keyed_routerD [OF keyed_new_router c])
  have "client_provider c \<noteq> ProviderUnknown" by (cases c) simp_all
  then show ?thesis using client_parse_sound [OF p] k by simp
qed

text \<open>C11. Webhooks are routed and checked: an event that the router of the master returns comes from
  the client of the provider named by the request's headers, is stamped with it and with the time of
  receipt, carries exactly the payload of its type, and, when a secret is configured, the request
  proved knowledge of it: by the HMAC of the body for GitHub, by the token for GitLab. A request that
  is not authentic yields an error.\<close>

theorem router_accepts_only_authentic:
  assumes "router_parse env (new_router cs) now r secret = res"
  shows "case res of
      Inr e \<Rightarrow> ev_Provider e = detect_provider r \<and> ev_Provider e \<noteq> ProviderUnknown
        \<and> ev_ReceivedAt e = now \<and> well_formed_event e
        \<and> (secret \<noteq> [] \<longrightarrow> authentic_for env (detect_provider r) r secret)
    | Inl err \<Rightarrow> True"
proof (cases res)
  case (Inr e)
  with assms have "router_parse env (new_router cs) now r secret = Inr e" by simp
  from router_parse_sound [OF this] show ?thesis unfolding Inr sum.case .
qed simp

definition push_request :: "string \<Rightarrow> http_in" where
  "push_request token = \<lparr> hi_header = (\<lambda>h. if h = ''X-Gitlab-Event'' then ''Push Hook''
       else if h = ''X-Gitlab-Token'' then token else []), hi_body = Some ''{}'' \<rparr>"

definition small_scm_env :: scm_env where
  "small_scm_env = \<lparr> env_json = (\<lambda>b. if b = ''{}'' then Some (JObj []) else None),
     env_hmac = (\<lambda>k m. k @ m), env_send = (\<lambda>req. Some (201, [])) \<rparr>"

theorem router_accepts_only_authentic_witness:
  "case router_parse small_scm_env (new_router [GitHubClient [], GitLabClient []]) 7 (push_request ''s'') ''s'' of
     Inr e \<Rightarrow> ev_Type e = EventPush \<and> well_formed_event e
   | Inl err \<Rightarrow> False"
proof -
  let ?r = "router_parse small_scm_env (new_router [GitHubClient [], GitLabClient []]) 7 (push_request ''s'') ''s''"
  have "case ?r of Inr e \<Rightarrow> ev_Type e = EventPush | Inl err \<Rightarrow> False" by code_simp
  with router_accepts_only_authentic [OF refl, where env = small_scm_env and now = 7 and
      cs = "[GitHubClient [], GitLabClient []]" and r = "push_request ''s''" and secret = "''s''"]
  show ?thesis by (auto split: sum.splits)
qed

section \<open>Requests to GitLab\<close>

lemma project_path_Cons:
  "gitlab_project_path (c # cs) = (if c = CHR ''/'' then ''%2F'' else [c]) @ gitlab_project_path cs"
  by (simp add: gitlab_project_path_def has_prefix_def)

text \<open>The project path is encoded reversibly: the encoded path has no slash, so it is one segment
  of the URL, and replacing \<open>%2F\<close> back gives the repository name, if that name has no percent sign.\<close>

theorem project_path_roundtrip:
  assumes "CHR ''%'' \<notin> set name"
  shows "CHR ''/'' \<notin> set (gitlab_project_path name)
    \<and> replace_all ''%2F'' ''/'' (gitlab_project_path name) = name"
  using assms
proof (induction name)
  case Nil
  then show ?case by (simp add: gitlab_project_path_def)
next
  case (Cons c cs)
  then have "c \<noteq> CHR ''%''" by auto
  then show ?case using Cons unfolding project_path_Cons by (simp add: has_prefix_def)
qed

theorem project_path_roundtrip_witness:
  "replace_all ''%2F'' ''/'' (gitlab_project_path ''org/team/repo'') = ''org/team/repo''"
  using project_path_roundtrip [of "''org/team/repo''"] by simp

end
