(* ===== verification/Build_Source.thy ===== *)
theory Build_Source
  imports Pipeline_Properties Go_Text
begin

text \<open>
  From a git source to the graph of a build, \<open>cmd/master/grpc_scheduler.go\<close> (\<open>fetchAndBuildGraph\<close>,
  \<open>localRepoHostPath\<close>) and the loop that \<open>SubmitBuild\<close>, the webhook handlers and \<open>VerifyLocal\<close> share:
  every task gets the variables of the build it does not set itself.  The commands of git are the
  record \<open>git_env\<close>: a clone or checkout that succeeds yields the files of the working tree by name.
  The YAML decoder and the orders of range loops are the record \<open>pipeline_env\<close>.
\<close>

section \<open>Environment\<close>

type_synonym files = "(string, string) gomap"

record git_source =
  gs_RepoUrl :: string
  gs_CommitSha :: string
  gs_Branch :: string
  gs_PrNumber :: string

record git_env =
  ge_tmpDir :: "string option"
  ge_clone :: "string list \<Rightarrow> files option"
  ge_head :: "files \<Rightarrow> string"
  ge_checkout :: "string \<Rightarrow> files \<Rightarrow> files option"

record pipeline_env =
  pe_unmarshal :: "string \<Rightarrow> config option"
  pe_script :: string
  pe_keys :: "graph \<Rightarrow> string list"
  pe_keys2 :: "graph \<Rightarrow> string list"
  pe_children :: "graph \<Rightarrow> string \<Rightarrow> string list"

datatype source_error =
    CreatingTempDir
  | CloningRepo
  | CheckingOut string
  | NoPipelineFile
  | ParsingConfig pipeline_error
  | BuildingGraph pipeline_error

section \<open>Fetching the pipeline\<close>

definition clone_args :: "git_source \<Rightarrow> string \<Rightarrow> string list" where
  "clone_args src tmpDir =
     [''clone'', ''--depth=1''] @ (if gs_Branch src \<noteq> [] then [''--branch'', gs_Branch src] else [])
     @ [gs_RepoUrl src, tmpDir]"

text \<open>The commit is checked out unless none was asked for or the head already is that commit.\<close>

definition checkout_commit :: "git_env \<Rightarrow> string \<Rightarrow> files \<Rightarrow> source_error + files" where
  "checkout_commit env sha tree =
     (if sha \<noteq> [] \<and> sha \<noteq> ''HEAD'' then
        let head = trim_space (ge_head env tree)
        in if head \<noteq> sha \<and> \<not> has_prefix sha head
           then case ge_checkout env sha tree of None \<Rightarrow> Inl (CheckingOut sha) | Some tree' \<Rightarrow> Inr tree'
           else Inr tree
      else Inr tree)"

definition pipeline_names :: "string list" where
  "pipeline_names = [''pipeline.yml'', ''pipeline.yaml'']"

definition find_pipeline :: "files \<Rightarrow> string option" where
  "find_pipeline tree = List.find (\<lambda>name. gget tree name \<noteq> None) pipeline_names"

definition build_graph_of :: "pipeline_env \<Rightarrow> config \<Rightarrow> pipeline_error + graph" where
  "build_graph_of pe cfg = build_dag (pe_script pe) (pe_keys pe) (pe_keys2 pe) (pe_children pe) cfg"

definition fetch_and_build_graph :: "git_env \<Rightarrow> pipeline_env \<Rightarrow> git_source \<Rightarrow> source_error + graph" where
  "fetch_and_build_graph env pe src =
     (case ge_tmpDir env of
        None \<Rightarrow> Inl CreatingTempDir
      | Some tmpDir \<Rightarrow>
     (case ge_clone env (clone_args src tmpDir) of
        None \<Rightarrow> Inl CloningRepo
      | Some tree \<Rightarrow>
          on_ok (checkout_commit env (gs_CommitSha src) tree) (\<lambda>tree'.
            case find_pipeline tree' of
              None \<Rightarrow> Inl NoPipelineFile
            | Some name \<Rightarrow>
                on_ok (wrap_error ParsingConfig (parse_file (pe_unmarshal pe) (gget tree') name)) (\<lambda>cfg.
                  wrap_error BuildingGraph (build_graph_of pe cfg)))))"

text \<open>\<open>url_path\<close> is the path \<open>url.Parse\<close> finds in a URL, if it accepts it; \<open>exists\<close> is \<open>os.Stat\<close>.\<close>

definition local_repo_host_path ::
    "(string \<Rightarrow> string option) \<Rightarrow> (string \<Rightarrow> bool) \<Rightarrow> string \<Rightarrow> string option" where
  "local_repo_host_path url_path exists repoURL =
     (if has_prefix ''file://'' repoURL
      then case url_path repoURL of
             None \<Rightarrow> None
           | Some p \<Rightarrow> if p = [] then None else Some (clean_path p)
      else if has_prefix ''/'' repoURL \<and> exists repoURL then Some (clean_path repoURL)
      else None)"

section \<open>The variables of a build\<close>

text \<open>The inner loop, over the variables of the build: one the task already has is left alone.\<close>

fun fill_env :: "(string, string) gomap \<Rightarrow> (string, string) gomap \<Rightarrow> (string, string) gomap" where
  "fill_env [] env = env"
| "fill_env ((k, v) # m) env = fill_env m (if gget env k = None then gput k v env else env)"

text \<open>The outer loop, over \<open>g.Tasks()\<close>; the tasks are shared with the graph.\<close>

fun inject_tasks ::
    "(string, string) gomap \<Rightarrow> task list \<Rightarrow> (string, task) gomap \<Rightarrow> (string, task) gomap" where
  "inject_tasks buildEnv [] ts = ts"
| "inject_tasks buildEnv (t # rest) ts =
     inject_tasks buildEnv rest
       (case gget ts (t_ID t) of
          None \<Rightarrow> ts
        | Some u \<Rightarrow> gput (t_ID t) (u\<lparr> t_Env := fill_env buildEnv (t_Env u) \<rparr>) ts)"

definition inject_env :: "string list \<Rightarrow> (string, string) gomap \<Rightarrow> graph \<Rightarrow> graph" where
  "inject_env ks buildEnv g = g\<lparr> g_tasks := inject_tasks buildEnv (tasks_of ks g) (g_tasks g) \<rparr>"

section \<open>Lemmas\<close>

lemma gget_Cons: "gget ((x, v) # m) k = (if k = x then Some v else gget m k)"
  by (simp add: gget_def)

lemma gget_fill_env:
  "gwf m \<Longrightarrow> gget (fill_env m env) k =
     (case gget env k of Some v \<Rightarrow> Some v | None \<Rightarrow> gget m k)"
proof (induction m env rule: fill_env.induct)
  case (1 env)
  then show ?case by (simp split: option.split)
next
  case (2 x v m env)
  have n: "gwf m" "gget m x = None"
    using 2(2) by (auto simp: gwf_def gkeys_def gget_def map_of_eq_None_iff)
  show ?case using 2(1) [OF n(1)] n(2) by (auto simp: gget_Cons split: option.split)
qed

lemma gget_inject_tasks:
  "distinct (map t_ID rest) \<Longrightarrow> gget (inject_tasks m rest ts) x =
     map_option (\<lambda>u. if x \<in> t_ID ` set rest then u\<lparr> t_Env := fill_env m (t_Env u) \<rparr> else u) (gget ts x)"
proof (induction m rest ts rule: inject_tasks.induct)
  case (1 m ts)
  then show ?case by (simp add: option.map_ident)
next
  case (2 m t rest ts)
  then have d: "distinct (map t_ID rest)" and n: "t_ID t \<notin> t_ID ` set rest" by auto
  show ?case
    using 2(1) [OF d] n by (cases "gget ts (t_ID t)"; cases "gget ts x") auto
qed

lemma gkeys_inject_tasks: "gkeys (inject_tasks m rest ts) = gkeys ts"
  by (induction m rest ts rule: inject_tasks.induct) (auto simp: gkeys_gput_present split: option.split)

lemma map_filter_ids:
  "(\<And>x t. gget ts x = Some t \<Longrightarrow> t_ID t = x) \<Longrightarrow>
     map t_ID (List.map_filter (gget ts) xs) = filter (\<lambda>x. gget ts x \<noteq> None) xs"
  by (induction xs) (auto simp: List.map_filter_simps split: option.split)

lemma inject_env_frame [simp]:
  "g_edges (inject_env ks m g) = g_edges g" "g_deps (inject_env ks m g) = g_deps g"
  "g_order (inject_env ks m g) = g_order g"
  by (simp_all add: inject_env_def)

text \<open>In a validated graph \<open>Tasks\<close> lists every task once, in topological order.\<close>

lemma tasks_of_topological:
  assumes w: "wf_graph g" and t: "topological g (g_order g)"
  shows "map t_ID (tasks_of ks g) = g_order g"
proof -
  have all: "set (g_order g) = {x. gget (g_tasks g) x \<noteq> None}"
    using t by (simp add: topological_def set_gkeys)
  have "map t_ID (tasks_of ks g)
      = filter (\<lambda>x. gget (g_tasks g) x \<noteq> None) (if g_order g = [] then ks else g_order g)"
    unfolding tasks_of_def using wf_task_ID [OF w] by (intro map_filter_ids) blast
  also have "\<dots> = g_order g" using all by (auto simp: filter_id_conv filter_empty_conv)
  finally show ?thesis .
qed

lemma set_map_filter: "set (List.map_filter f xs) = {y. \<exists>x \<in> set xs. f x = Some y}"
  by (induction xs) (auto simp: List.map_filter_simps split: option.split)

lemma set_tasks_of:
  assumes w: "wf_graph g" and t: "topological g (g_order g)"
  shows "set (tasks_of ks g) = {u. gget (g_tasks g) (t_ID u) = Some u}"
proof -
  have all: "x \<in> set (g_order g) \<longleftrightarrow> gget (g_tasks g) x \<noteq> None" for x
    using t by (simp add: topological_def set_gkeys)
  have "u \<in> set (tasks_of ks g)" if u: "gget (g_tasks g) (t_ID u) = Some u" for u
  proof -
    have "t_ID u \<in> set (g_order g)" using all u by blast
    moreover from this have "g_order g \<noteq> []" by auto
    ultimately show ?thesis unfolding tasks_of_def set_map_filter using u by auto
  qed
  moreover have "gget (g_tasks g) (t_ID u) = Some u" if u: "u \<in> set (tasks_of ks g)" for u
  proof -
    obtain x where x: "gget (g_tasks g) x = Some u" using u by (auto simp: tasks_of_def set_map_filter)
    moreover have "t_ID u = x" using wf_task_ID [OF w x] by blast
    ultimately show ?thesis by simp
  qed
  ultimately show ?thesis by blast
qed

text \<open>In a validated graph the variables reach every task and nothing else changes.\<close>

lemma gget_inject_env:
  assumes w: "wf_graph g" and t: "topological g (g_order g)"
  shows "gget (g_tasks (inject_env ks m g)) x =
    map_option (\<lambda>u. u\<lparr> t_Env := fill_env m (t_Env u) \<rparr>) (gget (g_tasks g) x)"
proof -
  note ids = tasks_of_topological [OF w t, of ks]
  then have d: "distinct (map t_ID (tasks_of ks g))" using t by (simp add: topological_def)
  have "t_ID ` set (tasks_of ks g) = set (g_order g)" by (metis ids image_set)
  then have "x \<in> t_ID ` set (tasks_of ks g)" if "gget (g_tasks g) x \<noteq> None"
    using t that by (simp add: topological_def set_gkeys)
  then show ?thesis
    unfolding inject_env_def using gget_inject_tasks [OF d, of m "g_tasks g" x]
    by (cases "gget (g_tasks g) x") auto
qed

lemma wf_inject_env:
  assumes "wf_graph g" "topological g (g_order g)"
  shows "wf_graph (inject_env ks m g)"
proof -
  let ?ts = "g_tasks (inject_env ks m g)"
  have k: "gkeys ?ts = gkeys (g_tasks g)" by (simp add: inject_env_def gkeys_inject_tasks)
  have w: "gwf ?ts" using assms(1) k by (simp add: wf_graph_def gwf_def)
  have n: "gget ?ts x = None \<longleftrightarrow> gget (g_tasks g) x = None" for x
    by (simp add: gget_inject_env [OF assms])
  have "t_ID t = x \<and> x \<noteq> []" if "gget ?ts x = Some t" for x t
    using that wf_task_ID [OF assms(1)] by (auto simp: gget_inject_env [OF assms])
  then have "list_all (\<lambda>(x, t). t_ID t = x \<and> x \<noteq> []) ?ts" by (simp add: list_all_gomap [OF w])
  then show ?thesis
    using assms(1) w by (simp add: wf_graph_def wf_edges_iff n)
qed

lemma all_pending_inject_env:
  assumes "wf_graph g" "topological g (g_order g)" "all_pending g"
  shows "all_pending (inject_env ks m g)"
  using assms(3) wf_tasks [OF wf_inject_env [OF assms(1,2)]] wf_tasks [OF assms(1)]
  by (auto simp: all_pending_def list_all_gomap gget_inject_env [OF assms(1,2)])

end
