(* ===== verification/Webhook.thy ===== *)
theory Webhook
  imports Build_Source Scm_Properties Secrets Scheduler_Runs
begin

text \<open>
  The webhook handler of the master, \<open>cmd/master/webhook.go\<close>: the request is parsed and checked by the
  router, a push or a pull request becomes a build, and the git host is told that it is queued.  A
  handler returns the scheduler, the calls it makes to git hosts (their errors are only logged) and
  its reply; \<open>NoReply\<close> is a panic.  \<open>generateID\<close> draws random bytes: the new ID is the field
  \<open>ie_newID\<close>.  Metrics and logging are left out, and of an error text the part that comes from an
  underlying error.
\<close>

section \<open>State and environment\<close>

record webhook_handler =
  wh_router :: router
  wh_defaultSecret :: string
  wh_secretStore :: secret_store
  wh_publicURL :: string

record intake_env =
  ie_git :: git_env
  ie_pipeline :: pipeline_env
  ie_scm :: scm_env
  ie_newID :: string
  ie_now :: time
  ie_keys :: "graph \<Rightarrow> string list"

datatype scm_call =
    StatusCall client string status_report
  | CommentCall client string pr_comment

datatype reply_body = NoBody | ErrorText string | BuildIDBody string

datatype reply = Reply nat reply_body | NoReply

section \<open>Helpers\<close>

definition branch_name :: "string \<Rightarrow> string" where
  "branch_name ref = trim_prefix ''refs/heads/'' ref"

definition token_name :: "provider \<Rightarrow> string option" where
  "token_name p = (case p of ProviderGitHub \<Rightarrow> Some ''GITHUB_TOKEN'' | ProviderGitLab \<Rightarrow> Some ''GITLAB_TOKEN''
     | ProviderUnknown \<Rightarrow> None)"

definition lookup_token :: "secret_store \<Rightarrow> provider \<Rightarrow> string \<Rightarrow> string" where
  "lookup_token st p repoFullName =
     (case token_name p of
        None \<Rightarrow> []
      | Some name \<Rightarrow>
          (case secret_get repoFullName name st of
             Inr tok \<Rightarrow> tok
           | Inl _ \<Rightarrow> (case secret_get ''global'' name st of Inr tok \<Rightarrow> tok | Inl _ \<Rightarrow> [])))"

definition target_url :: "string \<Rightarrow> string \<Rightarrow> string" where
  "target_url publicURL buildID =
     (if publicURL \<noteq> [] then publicURL @ ''/logs?build_id='' @ buildID else [])"

text \<open>The status call the master makes for a build, if the build has what it takes.\<close>

definition build_status ::
    "router \<Rightarrow> string \<Rightarrow> build \<Rightarrow> status_state \<Rightarrow> string \<Rightarrow> string \<Rightarrow> scm_call list" where
  "build_status m publicURL b state ctxt descr =
     (if b_SCMToken b = [] \<or> b_CommitSHA b = [] \<or> b_RepoFullName b = [] then []
      else case get_client m (b_SCMProvider b) of
        None \<Rightarrow> []
      | Some c \<Rightarrow> [StatusCall c (b_SCMToken b) \<lparr> sr_Provider = b_SCMProvider b,
          sr_RepoFullName = b_RepoFullName b, sr_CommitSHA = b_CommitSHA b, sr_State = state,
          sr_Context = ctxt, sr_Description = descr, sr_TargetURL = target_url publicURL (b_ID b) \<rparr>])"

definition report_status :: "webhook_handler \<Rightarrow> build \<Rightarrow> status_state \<Rightarrow> string \<Rightarrow> scm_call list" where
  "report_status h b state descr =
     build_status (wh_router h) (wh_publicURL h) b state ''ci/build'' descr"

section \<open>Handlers\<close>

text \<open>What the two handlers have in common from the loading of the pipeline on.\<close>

definition accept_build ::
    "intake_env \<Rightarrow> webhook_handler \<Rightarrow> git_source \<Rightarrow> (string, string) gomap \<Rightarrow> (graph \<Rightarrow> build)
       \<Rightarrow> scheduler \<Rightarrow> scheduler \<times> scm_call list \<times> reply" where
  "accept_build env h src buildEnv mk s =
     (case fetch_and_build_graph (ie_git env) (ie_pipeline env) src of
        Inl _ \<Rightarrow> (s, [], Reply 500 (ErrorText ''failed to load pipeline: ''))
      | Inr g0 \<Rightarrow>
          let g = inject_env (ie_keys env g0) buildEnv g0; b = mk g
          in case submit_build (ie_keys env g) (ie_keys env g) (ie_now env) b s of
               Inl _ \<Rightarrow> (s, [], Reply 500 (ErrorText []))
             | Inr s' \<Rightarrow> (s', report_status h b StatusPending ''Build queued'',
                          Reply 202 (BuildIDBody (ie_newID env))))"

definition push_build :: "intake_env \<Rightarrow> webhook_handler \<Rightarrow> provider \<Rightarrow> push_event \<Rightarrow> graph \<Rightarrow> build" where
  "push_build env h p push g = \<lparr> b_ID = ie_newID env, b_Graph = g, b_RepoURL = pu_RepoURL push,
     b_RepoFullName = pu_RepoFullName push, b_SCMProvider = p,
     b_SCMToken = lookup_token (wh_secretStore h) p (pu_RepoFullName push),
     b_CommitSHA = pu_AfterSHA push, b_Branch = branch_name (pu_Ref push), b_PRNumber = [],
     b_TriggeredBy = ''webhook:'' @ pu_Pusher push, b_CreatedAt = 0, b_StartedAt = 0, b_FinishedAt = 0 \<rparr>"

definition handle_push ::
    "intake_env \<Rightarrow> webhook_handler \<Rightarrow> provider \<Rightarrow> push_event \<Rightarrow> scheduler
       \<Rightarrow> scheduler \<times> scm_call list \<times> reply" where
  "handle_push env h p push s =
     (let branch = branch_name (pu_Ref push)
      in accept_build env h
           \<lparr> gs_RepoUrl = pu_RepoURL push, gs_CommitSha = pu_AfterSHA push, gs_Branch = branch,
             gs_PrNumber = [] \<rparr>
           [(''REPO_URL'', pu_RepoURL push), (''BRANCH'', branch), (''COMMIT_SHA'', pu_AfterSHA push)]
           (push_build env h p push) s)"

definition pr_build :: "intake_env \<Rightarrow> webhook_handler \<Rightarrow> provider \<Rightarrow> pull_request_event \<Rightarrow> graph \<Rightarrow> build" where
  "pr_build env h p pr g = \<lparr> b_ID = ie_newID env, b_Graph = g, b_RepoURL = pr_RepoURL pr,
     b_RepoFullName = pr_RepoFullName pr, b_SCMProvider = p,
     b_SCMToken = lookup_token (wh_secretStore h) p (pr_RepoFullName pr),
     b_CommitSHA = pr_HeadSHA pr, b_Branch = pr_HeadBranch pr,
     b_PRNumber = decimal (unat (pr_Number pr)),
     b_TriggeredBy = ''webhook:'' @ pr_Author pr, b_CreatedAt = 0, b_StartedAt = 0, b_FinishedAt = 0 \<rparr>"

definition handle_pr ::
    "intake_env \<Rightarrow> webhook_handler \<Rightarrow> provider \<Rightarrow> pull_request_event \<Rightarrow> scheduler
       \<Rightarrow> scheduler \<times> scm_call list \<times> reply" where
  "handle_pr env h p pr s =
     (if pr_Action pr \<noteq> ''opened'' \<and> pr_Action pr \<noteq> ''synchronize'' \<and> pr_Action pr \<noteq> ''reopened''
      then (s, [], Reply 200 NoBody)
      else accept_build env h
             \<lparr> gs_RepoUrl = pr_RepoURL pr, gs_CommitSha = pr_HeadSHA pr, gs_Branch = pr_HeadBranch pr,
               gs_PrNumber = [] \<rparr>
             [(''REPO_URL'', pr_RepoURL pr), (''BRANCH'', pr_HeadBranch pr),
              (''COMMIT_SHA'', pr_HeadSHA pr), (''PR_NUMBER'', decimal (unat (pr_Number pr)))]
             (pr_build env h p pr) s)"

text \<open>Both branches of the switch, the retry command and the rest, only answer.\<close>

definition handle_comment :: "comment_event \<Rightarrow> scheduler \<Rightarrow> scheduler \<times> scm_call list \<times> reply" where
  "handle_comment c s =
     (if ce_Body c = ''/retry'' then (s, [], Reply 200 NoBody) else (s, [], Reply 200 NoBody))"

definition serve_http ::
    "intake_env \<Rightarrow> webhook_handler \<Rightarrow> string \<Rightarrow> http_in \<Rightarrow> scheduler
       \<Rightarrow> scheduler \<times> scm_call list \<times> reply" where
  "serve_http env h meth r s =
     (if meth \<noteq> ''POST'' then (s, [], Reply 405 (ErrorText ''method not allowed''))
      else case router_parse (ie_scm env) (wh_router h) (ie_now env) r (wh_defaultSecret h) of
        Inl _ \<Rightarrow> (s, [], Reply 400 (ErrorText []))
      | Inr e \<Rightarrow>
          (case ev_Type e of
             EventPush \<Rightarrow> (case ev_Push e of
                 None \<Rightarrow> (s, [], NoReply)
               | Some push \<Rightarrow> handle_push env h (ev_Provider e) push s)
           | EventPullRequest \<Rightarrow> (case ev_PR e of
                 None \<Rightarrow> (s, [], NoReply)
               | Some pr \<Rightarrow> handle_pr env h (ev_Provider e) pr s)
           | EventComment \<Rightarrow> (case ev_Comment e of
                 None \<Rightarrow> (s, [], NoReply)
               | Some c \<Rightarrow> handle_comment c s)
           | EventUnknown \<Rightarrow> (s, [], Reply 400 (ErrorText ''unsupported event type''))))"

section \<open>What an accepted build is\<close>

text \<open>The orders the environment uses are those of range loops.\<close>

definition pipeline_orders_ok :: "pipeline_env \<Rightarrow> bool" where
  "pipeline_orders_ok pe \<longleftrightarrow> (\<forall>h. wf_graph h \<longrightarrow>
     range_order (g_tasks h) (pe_keys pe h) \<and> child_order h (pe_children pe h))"

text \<open>The configuration a graph was built from, and the variables its tasks got.\<close>

definition built_from :: "graph \<Rightarrow> config \<Rightarrow> (string, string) gomap \<Rightarrow> bool" where
  "built_from g cfg buildEnv \<longleftrightarrow> wf_graph g \<and> all_pending g \<and> topological g (g_order g)
     \<and> (\<forall>tc \<in> set (cf_Tasks cfg).
          gget (g_tasks g) (tc_ID tc) = Some ((config_to_task tc (cf_Defaults cfg))\<lparr>
            t_Env := fill_env buildEnv (t_Env (config_to_task tc (cf_Defaults cfg))) \<rparr>)
          \<and> set (parents g (tc_ID tc)) = set (tc_DependsOn tc))"

lemma built_from_inject:
  assumes "build_graph_of pe cfg = Inr g" "pipeline_orders_ok pe"
  shows "built_from (inject_env ks m g) cfg m"
proof -
  have "wf_graph g \<and> all_pending g \<and> topological g (g_order g)
    \<and> (\<forall>tc \<in> set (cf_Tasks cfg).
         gget (g_tasks g) (tc_ID tc) = Some (config_to_task tc (cf_Defaults cfg))
         \<and> set (parents g (tc_ID tc)) = set (tc_DependsOn tc))"
    using assms unfolding build_graph_of_def pipeline_orders_ok_def by (intro build_dag_spec) auto
  then have w: "wf_graph g" "all_pending g" "topological g (g_order g)"
    and c: "\<And>tc. tc \<in> set (cf_Tasks cfg) \<Longrightarrow>
      gget (g_tasks g) (tc_ID tc) = Some (config_to_task tc (cf_Defaults cfg))
      \<and> set (parents g (tc_ID tc)) = set (tc_DependsOn tc)" by blast+
  have "gkeys (g_tasks (inject_env ks m g)) = gkeys (g_tasks g)"
    by (simp add: inject_env_def gkeys_inject_tasks)
  then have "topological (inject_env ks m g) (g_order g)" using w(3) by (simp add: topological_def)
  then show ?thesis
    using c wf_inject_env [OF w(1,3)] all_pending_inject_env [OF w(1,3,2)]
    by (auto simp: built_from_def gget_inject_env [OF w(1,3)])
qed

text \<open>The file the configuration comes from is in the working tree of the clone or of a checkout of
  the commit.\<close>

definition fetched_config :: "intake_env \<Rightarrow> git_source \<Rightarrow> config \<Rightarrow> bool" where
  "fetched_config env src cfg \<longleftrightarrow> (\<exists>dir tree tree' name data.
     ge_tmpDir (ie_git env) = Some dir \<and> ge_clone (ie_git env) (clone_args src dir) = Some tree
     \<and> checkout_commit (ie_git env) (gs_CommitSha src) tree = Inr tree'
     \<and> name \<in> set pipeline_names \<and> gget tree' name = Some data
     \<and> parse (pe_unmarshal (ie_pipeline env)) data = Inr cfg)"

lemma fetch_config:
  assumes "fetch_and_build_graph (ie_git env) (ie_pipeline env) src = Inr g"
  shows "\<exists>cfg. fetched_config env src cfg \<and> build_graph_of (ie_pipeline env) cfg = Inr g"
proof -
  from assms obtain dir tree tree' name cfg where
    "ge_tmpDir (ie_git env) = Some dir" "ge_clone (ie_git env) (clone_args src dir) = Some tree"
    "checkout_commit (ie_git env) (gs_CommitSha src) tree = Inr tree'" "find_pipeline tree' = Some name"
    "parse_file (pe_unmarshal (ie_pipeline env)) (gget tree') name = Inr cfg"
    "build_graph_of (ie_pipeline env) cfg = Inr g"
    by (auto simp: fetch_and_build_graph_def split: option.splits)
  then show ?thesis
    unfolding fetched_config_def
    by (auto simp: parse_file_def find_pipeline_def find_Some_iff split: option.splits) (metis nth_mem)
qed

text \<open>Accepting a build submits one new build and nothing else; otherwise nothing changes.\<close>

lemma accept_build_spec:
  assumes "accept_build env h src m mk s = (s', calls, r)" "pipeline_orders_ok (ie_pipeline env)"
    and "\<And>g. b_ID (mk g) = ie_newID env \<and> b_Graph (mk g) = g"
  shows "(s' = s \<and> calls = [] \<and> (\<exists>t. r = Reply 500 (ErrorText t)))
    \<or> (\<exists>cfg b. fetched_config env src cfg \<and> built_from (b_Graph b) cfg m
        \<and> b = mk (b_Graph b) \<and> gget (s_builds s) (ie_newID env) = None
        \<and> s_builds s' = gput (ie_newID env) (b\<lparr> b_CreatedAt := ie_now env \<rparr>) (s_builds s)
        \<and> sched_step s s' \<and> calls = report_status h b StatusPending ''Build queued''
        \<and> r = Reply 202 (BuildIDBody (ie_newID env)))"
proof (cases "fetch_and_build_graph (ie_git env) (ie_pipeline env) src")
  case (Inl e)
  then have "s' = s" "calls = []" "r = Reply 500 (ErrorText ''failed to load pipeline: '')"
    using assms(1) by (simp_all add: accept_build_def)
  then show ?thesis by blast
next
  case (Inr g0)
  then obtain cfg where c: "fetched_config env src cfg" "build_graph_of (ie_pipeline env) cfg = Inr g0"
    using fetch_config by blast
  let ?g = "inject_env (ie_keys env g0) m g0"
  have g: "b_Graph (mk ?g) = ?g" "b_ID (mk ?g) = ie_newID env" using assms(3) by simp_all
  note bf = built_from_inject [OF c(2) assms(2)]
  show ?thesis
  proof (cases "submit_build (ie_keys env ?g) (ie_keys env ?g) (ie_now env) (mk ?g) s")
    case (Inl e)
    then have "s' = s" "calls = []" "r = Reply 500 (ErrorText [])"
      using assms(1) Inr by (simp_all add: accept_build_def Let_def)
    then show ?thesis by blast
  next
    case s1: (Inr s1)
    then have s': "s' = s1" "r = Reply 202 (BuildIDBody (ie_newID env))"
      "calls = report_status h (mk ?g) StatusPending ''Build queued''"
      using assms(1) Inr by (auto simp: accept_build_def Let_def)
    have "sched_step s s1"
      by (rule sched_step.submit [OF s1]) (use bf [of "ie_keys env g0" m] in \<open>simp_all add: g built_from_def\<close>)
    moreover have "gget (s_builds s) (ie_newID env) = None"
      "s_builds s1 = gput (ie_newID env) ((mk ?g)\<lparr> b_CreatedAt := ie_now env \<rparr>) (s_builds s)"
      using s1 by (auto simp: submit_build_def put_build_def Let_def g split: if_splits)
    ultimately show ?thesis
      using bf [of "ie_keys env g0" m] c(1) s' g(1) by (intro disjI2 exI [of _ cfg] exI [of _ "mk ?g"]) simp
  qed
qed

section \<open>What a webhook can do\<close>

text \<open>The variables and the source of the commit a webhook build gets, read off the build.\<close>

definition webhook_vars :: "build \<Rightarrow> (string, string) gomap" where
  "webhook_vars b = [(''REPO_URL'', b_RepoURL b), (''BRANCH'', b_Branch b), (''COMMIT_SHA'', b_CommitSHA b)]
     @ (if b_PRNumber b = [] then [] else [(''PR_NUMBER'', b_PRNumber b)])"

definition webhook_source :: "build \<Rightarrow> git_source" where
  "webhook_source b = \<lparr> gs_RepoUrl = b_RepoURL b, gs_CommitSha = b_CommitSHA b,
     gs_Branch = b_Branch b, gs_PrNumber = [] \<rparr>"

text \<open>One build was added, for the configuration of the commit, and the git host was told.\<close>

definition queued_by ::
    "intake_env \<Rightarrow> webhook_handler \<Rightarrow> provider \<Rightarrow> scheduler \<Rightarrow> scheduler \<Rightarrow> scm_call list \<Rightarrow> bool" where
  "queued_by env h p s s' calls \<longleftrightarrow> (\<exists>cfg b.
     fetched_config env (webhook_source b) cfg \<and> built_from (b_Graph b) cfg (webhook_vars b)
     \<and> b_ID b = ie_newID env \<and> b_SCMProvider b = p \<and> gget (s_builds s) (b_ID b) = None
     \<and> s_builds s' = gput (b_ID b) (b\<lparr> b_CreatedAt := ie_now env \<rparr>) (s_builds s)
     \<and> sched_step s s' \<and> calls = report_status h b StatusPending ''Build queued'')"

definition intake_outcome ::
    "intake_env \<Rightarrow> webhook_handler \<Rightarrow> provider \<Rightarrow> scheduler \<Rightarrow> scheduler \<times> scm_call list \<times> reply \<Rightarrow> bool" where
  "intake_outcome env h p s out \<longleftrightarrow>
     (case out of (s', calls, r) \<Rightarrow> (s' = s \<and> calls = [] \<and> (\<exists>c t. r = Reply c t \<and> c \<noteq> 202))
        \<or> (queued_by env h p s s' calls \<and> r = Reply 202 (BuildIDBody (ie_newID env))))"

lemma intake_unchanged: "c \<noteq> 202 \<Longrightarrow> intake_outcome env h p s (s, [], Reply c t)"
  by (simp add: intake_outcome_def)

lemma intake_accept:
  assumes "pipeline_orders_ok (ie_pipeline env)"
    and "\<And>g. b_ID (mk g) = ie_newID env \<and> b_Graph (mk g) = g \<and> b_SCMProvider (mk g) = p"
    and "\<And>g. webhook_source (mk g) = src" "\<And>g. webhook_vars (mk g) = m"
  shows "intake_outcome env h p s (accept_build env h src m mk s)"
proof -
  obtain s' calls r where e: "accept_build env h src m mk s = (s', calls, r)"
    using prod_cases3 by blast
  from accept_build_spec [OF e assms(1)] assms(2)
  consider "s' = s" "calls = []" "\<exists>t. r = Reply 500 (ErrorText t)"
    | cfg b where "fetched_config env src cfg" "built_from (b_Graph b) cfg m" "b = mk (b_Graph b)"
        "gget (s_builds s) (ie_newID env) = None"
        "s_builds s' = gput (ie_newID env) (b\<lparr> b_CreatedAt := ie_now env \<rparr>) (s_builds s)" "sched_step s s'"
        "calls = report_status h b StatusPending ''Build queued''" "r = Reply 202 (BuildIDBody (ie_newID env))"
    by blast
  then show ?thesis
  proof cases
    case 1
    then show ?thesis by (auto simp: e intake_outcome_def)
  next
    case 2
    have "b_ID b = ie_newID env" "b_SCMProvider b = p" using assms(2) 2(3) by metis+
    moreover have "webhook_source b = src" "webhook_vars b = m" using assms(3,4) 2(3) by metis+
    ultimately have "queued_by env h p s s' calls" unfolding queued_by_def using 2 by metis
    then show ?thesis using 2(8) by (simp add: e intake_outcome_def)
  qed
qed

lemma intake_push: "pipeline_orders_ok (ie_pipeline env) \<Longrightarrow>
    intake_outcome env h p s (handle_push env h p push s)"
  unfolding handle_push_def Let_def
  by (rule intake_accept) (simp_all add: push_build_def webhook_source_def webhook_vars_def)

lemma intake_pr: "pipeline_orders_ok (ie_pipeline env) \<Longrightarrow>
    intake_outcome env h p s (handle_pr env h p pr s)"
  by (auto simp: handle_pr_def pr_build_def webhook_source_def webhook_vars_def
      intro!: intake_unchanged intake_accept)

lemma intake_serve:
  assumes "wh_router h = new_router cs" "pipeline_orders_ok (ie_pipeline env)"
  shows "intake_outcome env h (detect_provider r) s (serve_http env h meth r s)
    \<and> (fst (serve_http env h meth r s) \<noteq> s \<longrightarrow> meth = ''POST''
        \<and> (wh_defaultSecret h \<noteq> [] \<longrightarrow>
            authentic_for (ie_scm env) (detect_provider r) r (wh_defaultSecret h)))"
proof (cases "meth = ''POST''")
  case False
  then show ?thesis by (simp add: serve_http_def intake_unchanged)
next
  case post: True
  show ?thesis
  proof (cases "router_parse (ie_scm env) (wh_router h) (ie_now env) r (wh_defaultSecret h)")
    case (Inl e)
    then show ?thesis using post by (simp add: serve_http_def intake_unchanged)
  next
    case (Inr e)
    note p = router_parse_sound [OF Inr [unfolded assms(1)]]
    have "intake_outcome env h (detect_provider r) s (serve_http env h meth r s)"
      using p post Inr intake_push [OF assms(2)] intake_pr [OF assms(2)]
      by (auto simp: serve_http_def well_formed_event_def handle_comment_def intake_unchanged)
    then show ?thesis using p post by blast
  qed
qed


definition small_pipeline_env :: pipeline_env where
  "small_pipeline_env = \<lparr> pe_unmarshal = (\<lambda>_. Some small_config), pe_script = [],
     pe_keys = keys_of, pe_keys2 = keys_of, pe_children = children \<rparr>"

definition small_git_env :: "files \<Rightarrow> git_env" where
  "small_git_env tree = \<lparr> ge_tmpDir = Some ''/tmp/x'', ge_clone = (\<lambda>_. Some tree),
     ge_head = (\<lambda>_. []), ge_checkout = (\<lambda>_ _. None) \<rparr>"

definition small_intake :: intake_env where
  "small_intake = \<lparr> ie_git = small_git_env [(''pipeline.yaml'', ''tasks'')], ie_pipeline = small_pipeline_env,
     ie_scm = small_scm_env, ie_newID = ''b7'', ie_now = 7, ie_keys = keys_of \<rparr>"

definition small_hook :: webhook_handler where
  "small_hook = \<lparr> wh_router = new_router [GitHubClient [], GitLabClient []], wh_defaultSecret = ''s'',
     wh_secretStore = [], wh_publicURL = [] \<rparr>"

lemma small_orders_ok: "pipeline_orders_ok small_pipeline_env"
  unfolding pipeline_orders_ok_def small_pipeline_env_def
  by (auto simp: keys_of_def wf_tasks child_order_children)

definition small_intake_result :: "string \<Rightarrow> scheduler \<times> scm_call list \<times> reply" where
  "small_intake_result token =
     serve_http small_intake small_hook ''POST'' (push_request token) (new_scheduler (new_registry 30))"


end
