(* ===== verification/Audit_Trail.thy ===== *)
theory Audit_Trail
  imports Scheduler
begin

text \<open>
  The audit trail, \<open>cmd/master/audit.go\<close>.  The master gives the auditor the very store the scheduler
  writes to, so here an audit entry goes to the store in the scheduler's state.  The store's error is
  only logged; without a store nothing happens.
\<close>

fun store_AppendAudit :: "time \<Rightarrow> audit_entry \<Rightarrow> any_store \<Rightarrow> any_store" where
  "store_AppendAudit now e NoStore = NoStore"
| "store_AppendAudit now e (MemBacked m) = MemBacked (mem_AppendAudit now e m)"
| "store_AppendAudit now e (SqliteBacked s) = SqliteBacked (sql_AppendAudit now e s)"

fun store_ListAudit :: "int \<Rightarrow> any_store \<Rightarrow> audit_entry list option" where
  "store_ListAudit limit NoStore = None"
| "store_ListAudit limit (MemBacked m) = Some (mem_ListAudit limit m)"
| "store_ListAudit limit (SqliteBacked s) = Some (sql_ListAudit limit s)"

definition audit_log ::
    "time \<Rightarrow> string \<Rightarrow> string \<Rightarrow> string \<Rightarrow> string \<Rightarrow> any_store \<Rightarrow> any_store" where
  "audit_log now actor action resource detail st =
     store_AppendAudit now \<lparr> au_ID = 0, au_TS = 0, au_Actor = actor, au_Action = action,
       au_Resource = resource, au_Detail = detail \<rparr> st"

definition audit_BuildSubmit :: "time \<Rightarrow> string \<Rightarrow> string \<Rightarrow> string \<Rightarrow> any_store \<Rightarrow> any_store" where
  "audit_BuildSubmit now actor buildID repo = audit_log now actor ''build.submit'' buildID repo"

definition audit_BuildCancel :: "time \<Rightarrow> string \<Rightarrow> string \<Rightarrow> any_store \<Rightarrow> any_store" where
  "audit_BuildCancel now actor buildID = audit_log now actor ''build.cancel'' buildID []"

definition audit_BuildRetry :: "time \<Rightarrow> string \<Rightarrow> string \<Rightarrow> any_store \<Rightarrow> any_store" where
  "audit_BuildRetry now actor buildID = audit_log now actor ''build.retry'' buildID []"

definition audit_SecretPut :: "time \<Rightarrow> string \<Rightarrow> string \<Rightarrow> string \<Rightarrow> any_store \<Rightarrow> any_store" where
  "audit_SecretPut now actor scope name = audit_log now actor ''secret.put'' (scope @ ''/'' @ name) []"

definition audit_SecretDelete :: "time \<Rightarrow> string \<Rightarrow> string \<Rightarrow> string \<Rightarrow> any_store \<Rightarrow> any_store" where
  "audit_SecretDelete now actor scope name = audit_log now actor ''secret.delete'' (scope @ ''/'' @ name) []"

definition audit_PipelinePin :: "time \<Rightarrow> string \<Rightarrow> string \<Rightarrow> string \<Rightarrow> any_store \<Rightarrow> any_store" where
  "audit_PipelinePin now actor projectID digest = audit_log now actor ''pipeline.pin'' projectID digest"

definition audit_PipelineUnpin :: "time \<Rightarrow> string \<Rightarrow> string \<Rightarrow> any_store \<Rightarrow> any_store" where
  "audit_PipelineUnpin now actor projectID = audit_log now actor ''pipeline.unpin'' projectID []"

text \<open>An audit entry leaves every build of the history alone.\<close>

lemma audit_log_get [simp]: "store_GetBuild x (audit_log now a ac r d st) = store_GetBuild x st"
  by (cases st)
    (simp_all add: audit_log_def mem_AppendAudit_def mem_GetBuild_def sql_AppendAudit_def sql_GetBuild_def
      split: option.split)

lemmas audit_defs = audit_BuildSubmit_def audit_BuildCancel_def audit_BuildRetry_def
  audit_SecretPut_def audit_SecretDelete_def audit_PipelinePin_def audit_PipelineUnpin_def

end
