(* ===== verification/Proto.thy ===== *)
theory Proto
  imports Scheduler Log_Store
begin

text \<open>
  What the master's services share, \<open>cmd/master/grpc_scheduler.go\<close>, \<open>grpc_worker.go\<close>,
  \<open>grpc_logs.go\<close>: the messages of the protocol as far as the handlers read and write them (an optional
  message is an option), the status codes, and the converters between the protocol's enumerations and
  the program's.  A status text is modelled up to the text of an underlying error.  The \<open>int32\<close> of the
  protocol is a word, read as a signed number.
\<close>

section \<open>Status\<close>

datatype rpc_code = InvalidArgument | NotFound | AlreadyExists | FailedPrecondition | Internal
  | Unimplemented

datatype rpc_status = RpcStatus rpc_code string

section \<open>Enumerations\<close>

datatype pb_task_state =
    TASK_STATE_UNSPECIFIED
  | TASK_STATE_PENDING
  | TASK_STATE_SCHEDULED
  | TASK_STATE_RUNNING
  | TASK_STATE_PASSED
  | TASK_STATE_FAILED
  | TASK_STATE_SKIPPED
  | TASK_STATE_CANCELLED
  | TASK_STATE_TIMED_OUT

datatype pb_build_state =
    BUILD_STATE_UNSPECIFIED
  | BUILD_STATE_QUEUED
  | BUILD_STATE_RUNNING
  | BUILD_STATE_PASSED
  | BUILD_STATE_FAILED
  | BUILD_STATE_CANCELLED

datatype pb_log_stream =
    LOG_STREAM_UNSPECIFIED
  | LOG_STREAM_STDOUT
  | LOG_STREAM_STDERR
  | LOG_STREAM_SYSTEM

fun task_state_to_proto :: "task_state \<Rightarrow> pb_task_state" where
  "task_state_to_proto TaskPending = TASK_STATE_PENDING"
| "task_state_to_proto TaskReady = TASK_STATE_PENDING"
| "task_state_to_proto TaskScheduled = TASK_STATE_SCHEDULED"
| "task_state_to_proto TaskRunning = TASK_STATE_RUNNING"
| "task_state_to_proto TaskPassed = TASK_STATE_PASSED"
| "task_state_to_proto TaskFailed = TASK_STATE_FAILED"
| "task_state_to_proto TaskSkipped = TASK_STATE_SKIPPED"
| "task_state_to_proto TaskCancelled = TASK_STATE_CANCELLED"
| "task_state_to_proto TaskTimedOut = TASK_STATE_TIMED_OUT"

fun proto_to_task_state :: "pb_task_state \<Rightarrow> task_state" where
  "proto_to_task_state TASK_STATE_PASSED = TaskPassed"
| "proto_to_task_state TASK_STATE_FAILED = TaskFailed"
| "proto_to_task_state TASK_STATE_SKIPPED = TaskSkipped"
| "proto_to_task_state TASK_STATE_CANCELLED = TaskCancelled"
| "proto_to_task_state TASK_STATE_TIMED_OUT = TaskTimedOut"
| "proto_to_task_state _ = TaskPending"

fun log_stream_to_proto :: "stream \<Rightarrow> pb_log_stream" where
  "log_stream_to_proto StreamStdout = LOG_STREAM_STDOUT"
| "log_stream_to_proto StreamStderr = LOG_STREAM_STDERR"
| "log_stream_to_proto StreamSystem = LOG_STREAM_SYSTEM"

fun proto_to_log_stream :: "pb_log_stream \<Rightarrow> stream" where
  "proto_to_log_stream LOG_STREAM_STDOUT = StreamStdout"
| "proto_to_log_stream LOG_STREAM_STDERR = StreamStderr"
| "proto_to_log_stream LOG_STREAM_SYSTEM = StreamSystem"
| "proto_to_log_stream _ = StreamStdout"

text \<open>A final state survives the wire; everything a worker can report is final or reads as pending.\<close>

lemma proto_task_state: "is_terminal s \<Longrightarrow> proto_to_task_state (task_state_to_proto s) = s"
  by (cases s) simp_all

lemma reported_state: "is_terminal (proto_to_task_state p) \<or> proto_to_task_state p = TaskPending"
  by (cases p) simp_all

lemma proto_log_stream: "proto_to_log_stream (log_stream_to_proto s) = s"
  by (cases s) simp_all

section \<open>Builds and tasks\<close>

record pb_git_source =
  ps_RepoUrl :: string
  ps_CommitSha :: string
  ps_Branch :: string
  ps_PrNumber :: string

record pb_resources =
  pr_CpuMillicores :: u32
  pr_MemoryMb :: u32
  pr_DiskMb :: u32
  pr_TimeoutSeconds :: u32

record pb_task_result =
  px_TaskId :: string
  px_State :: pb_task_state
  px_ExitCode :: u32
  px_StartedAt :: "time option"
  px_FinishedAt :: "time option"
  px_Message :: string

record pb_task =
  pt_TaskId :: string
  pt_Name :: string
  pt_State :: pb_task_state
  pt_ContainerImage :: string
  pt_Commands :: "string list"
  pt_Resources :: pb_resources
  pt_DependsOn :: "string list"
  pt_Result :: "pb_task_result option"

record pb_build =
  pb_BuildId :: string
  pb_TriggeredBy :: string
  pb_Source :: "pb_git_source option"
  pb_CreatedAt :: "time option"
  pb_StartedAt :: "time option"
  pb_FinishedAt :: "time option"
  pb_State :: pb_build_state
  pb_Tasks :: "pb_task list"

definition pb_time :: "time \<Rightarrow> time option" where
  "pb_time t = (if is_zero_time t then None else Some t)"

definition task_to_proto :: "task \<Rightarrow> graph \<Rightarrow> pb_task" where
  "task_to_proto t g = \<lparr> pt_TaskId = t_ID t, pt_Name = t_Name t,
     pt_State = task_state_to_proto (t_State t), pt_ContainerImage = t_ContainerImage t,
     pt_Commands = t_Commands t,
     pt_Resources = \<lparr> pr_CpuMillicores = t_CPUMillicores t, pr_MemoryMb = t_MemoryMB t,
       pr_DiskMb = t_DiskMB t, pr_TimeoutSeconds = t_TimeoutSeconds t \<rparr>,
     pt_DependsOn = dependencies g (t_ID t),
     pt_Result = (if is_terminal (t_State t)
       then Some \<lparr> px_TaskId = t_ID t, px_State = task_state_to_proto (t_State t),
         px_ExitCode = word_of_int (t_ExitCode t), px_StartedAt = pb_time (t_StartedAt t),
         px_FinishedAt = pb_time (t_FinishedAt t), px_Message = [] \<rparr>
       else None) \<rparr>"

definition build_state_to_proto :: "string list \<Rightarrow> graph \<Rightarrow> pb_build_state" where
  "build_state_to_proto ks g =
     (if is_complete g then if is_passed g then BUILD_STATE_PASSED else BUILD_STATE_FAILED
      else if list_ex (\<lambda>t. t_State t = TaskRunning \<or> t_State t = TaskScheduled) (tasks_of ks g)
      then BUILD_STATE_RUNNING else BUILD_STATE_QUEUED)"

definition build_to_proto :: "string list \<Rightarrow> build \<Rightarrow> pb_build" where
  "build_to_proto ks b = \<lparr> pb_BuildId = b_ID b, pb_TriggeredBy = b_TriggeredBy b,
     pb_Source = (if b_RepoURL b \<noteq> []
       then Some \<lparr> ps_RepoUrl = b_RepoURL b, ps_CommitSha = b_CommitSHA b, ps_Branch = b_Branch b,
         ps_PrNumber = b_PRNumber b \<rparr>
       else None),
     pb_CreatedAt = pb_time (b_CreatedAt b), pb_StartedAt = pb_time (b_StartedAt b),
     pb_FinishedAt = pb_time (b_FinishedAt b), pb_State = build_state_to_proto ks (b_Graph b),
     pb_Tasks = map (\<lambda>t. task_to_proto t (b_Graph b)) (tasks_of ks (b_Graph b)) \<rparr>"

section \<open>Log lines\<close>

record pb_log_line =
  pl_TaskId :: string
  pl_LineNumber :: int
  pl_Timestamp :: "time option"
  pl_Content :: string
  pl_Stream :: pb_log_stream

definition log_line_to_proto :: "line \<Rightarrow> pb_log_line" where
  "log_line_to_proto l = \<lparr> pl_TaskId = ln_TaskID l, pl_LineNumber = ln_LineNumber l,
     pl_Timestamp = Some (ln_Timestamp l), pl_Content = ln_Content l,
     pl_Stream = log_stream_to_proto (ln_Stream l) \<rparr>"

end
