(* ===== verification/Scheduler_Service.thy ===== *)
theory Scheduler_Service
  imports Webhook Audit_Trail Proto
begin

text \<open>
  The scheduler service, \<open>cmd/master/grpc_scheduler.go\<close>.  A handler takes and returns the scheduler;
  it answers with a status or a response, and a panic is \<open>None\<close>.  The audit trail goes to the store
  of the scheduler's state.  The environment is that of the webhook handlers, with the two functions
  \<open>localRepoHostPath\<close> calls; the metrics are left out.
\<close>

section \<open>Submission\<close>

record submit_request =
  sq_Source :: "git_source option"
  sq_TriggeredBy :: string

record host_env =
  he_url_path :: "string \<Rightarrow> string option"
  he_exists :: "string \<Rightarrow> bool"

definition grpc_build_env :: "host_env \<Rightarrow> git_source \<Rightarrow> (string, string) gomap" where
  "grpc_build_env he src =
     [(''BRANCH'', gs_Branch src), (''COMMIT_SHA'', gs_CommitSha src), (''PR_NUMBER'', gs_PrNumber src)]
     @ (case local_repo_host_path (he_url_path he) (he_exists he) (gs_RepoUrl src) of
          Some localRepoPath \<Rightarrow>
            [(''REPO_URL'', ''/relay-local-repo''), (''RELAY_LOCAL_REPO_PATH'', localRepoPath)]
        | None \<Rightarrow> [(''REPO_URL'', gs_RepoUrl src)])"

definition grpc_build :: "string \<Rightarrow> git_source \<Rightarrow> string \<Rightarrow> graph \<Rightarrow> build" where
  "grpc_build buildID src triggeredBy g = \<lparr> b_ID = buildID, b_Graph = g, b_RepoURL = gs_RepoUrl src,
     b_RepoFullName = [], b_SCMProvider = ProviderUnknown, b_SCMToken = [],
     b_CommitSHA = gs_CommitSha src, b_Branch = gs_Branch src, b_PRNumber = gs_PrNumber src,
     b_TriggeredBy = triggeredBy, b_CreatedAt = 0, b_StartedAt = 0, b_FinishedAt = 0 \<rparr>"

definition audited :: "(any_store \<Rightarrow> any_store) \<Rightarrow> scheduler \<Rightarrow> scheduler" where
  "audited f s = s\<lparr> s_store := f (s_store s) \<rparr>"

definition grpc_submit_build ::
    "intake_env \<Rightarrow> host_env \<Rightarrow> submit_request \<Rightarrow> scheduler \<Rightarrow> scheduler \<times> (rpc_status + string)" where
  "grpc_submit_build env he req s =
     (case sq_Source req of
        None \<Rightarrow> (s, Inl (RpcStatus InvalidArgument ''source is required''))
      | Some src \<Rightarrow>
     (case fetch_and_build_graph (ie_git env) (ie_pipeline env) src of
        Inl _ \<Rightarrow> (s, Inl (RpcStatus Internal ''loading pipeline: ''))
      | Inr g0 \<Rightarrow>
          let buildID = ie_newID env;
              g = inject_env (ie_keys env g0) (grpc_build_env he src) g0;
              b = grpc_build buildID src (sq_TriggeredBy req) g
          in case submit_build (ie_keys env g) (ie_keys env g) (ie_now env) b s of
               Inl _ \<Rightarrow> (s, Inl (RpcStatus AlreadyExists []))
             | Inr s' \<Rightarrow>
                 (audited (audit_BuildSubmit (ie_now env) (sq_TriggeredBy req) buildID (gs_RepoUrl src)) s',
                  Inr buildID)))"

section \<open>Cancellation\<close>

definition grpc_cancel_build ::
    "router \<Rightarrow> (graph \<Rightarrow> string list) \<Rightarrow> time \<Rightarrow> string option \<Rightarrow> scheduler
       \<Rightarrow> scheduler \<times> scm_call list \<times> (rpc_status + unit)" where
  "grpc_cancel_build m keys now buildId s =
     (case buildId of
        None \<Rightarrow> (s, [], Inl (RpcStatus InvalidArgument ''build_id is required''))
      | Some x \<Rightarrow>
     (case cancel_build (keys (build_graph s x)) now x s of
        Inl _ \<Rightarrow> (s, [], Inl (RpcStatus NotFound []))
      | Inr s' \<Rightarrow>
          (audited (audit_BuildCancel now ''api'' x) s',
           (case get_build x s of
              None \<Rightarrow> []
            | Some b \<Rightarrow> build_status m [] b StatusError ''ci/build'' ''Build cancelled''),
           Inr ())))"

section \<open>Queries\<close>

definition grpc_get_build ::
    "(graph \<Rightarrow> string list) \<Rightarrow> string option \<Rightarrow> scheduler \<Rightarrow> rpc_status + pb_build" where
  "grpc_get_build keys buildId s =
     (case buildId of
        None \<Rightarrow> Inl (RpcStatus InvalidArgument ''build_id is required'')
      | Some x \<Rightarrow>
     (case get_build x s of
        None \<Rightarrow> Inl (RpcStatus NotFound (''build not found: '' @ x))
      | Some b \<Rightarrow> Inr (build_to_proto (keys (b_Graph b)) b)))"

text \<open>A negative limit is a negative capacity for \<open>make\<close>, which panics.\<close>

definition grpc_list_builds ::
    "(graph \<Rightarrow> string list) \<Rightarrow> string list \<Rightarrow> int \<Rightarrow> scheduler \<Rightarrow> pb_build list option" where
  "grpc_list_builds keys ks reqLimit s =
     (let builds = list_builds ks s;
          limit = (if reqLimit = 0 \<or> reqLimit > int (length builds) then int (length builds) else reqLimit)
      in if limit < 0 then None
         else Some (map (\<lambda>b. build_to_proto (keys (b_Graph b)) b) (take (nat limit) builds)))"

record pb_build_event =
  ev_BuildId :: string
  ev_TaskId :: string
  ev_TaskName :: string
  ev_Current :: pb_task_state

definition task_event :: "string \<Rightarrow> task \<Rightarrow> pb_build_event" where
  "task_event buildID t = \<lparr> ev_BuildId = buildID, ev_TaskId = t_ID t, ev_TaskName = t_Name t,
     ev_Current = task_state_to_proto (t_State t) \<rparr>"

text \<open>What was sent before the first failure of the stream, and whether one occurred.\<close>

fun send_events :: "('e \<Rightarrow> bool) \<Rightarrow> 'e list \<Rightarrow> 'e list \<times> bool" where
  "send_events accepts [] = ([], True)"
| "send_events accepts (e # es) =
     (if accepts e then case send_events accepts es of (sent, ok) \<Rightarrow> (e # sent, ok) else ([], False))"

definition grpc_watch_build ::
    "(pb_build_event \<Rightarrow> bool) \<Rightarrow> (graph \<Rightarrow> string list) \<Rightarrow> string option \<Rightarrow> scheduler
       \<Rightarrow> rpc_status + (pb_build_event list \<times> bool)" where
  "grpc_watch_build accepts keys buildId s =
     (case buildId of
        None \<Rightarrow> Inl (RpcStatus InvalidArgument ''build_id is required'')
      | Some x \<Rightarrow>
     (case get_build x s of
        None \<Rightarrow> Inl (RpcStatus NotFound (''build not found: '' @ x))
      | Some b \<Rightarrow>
          Inr (send_events accepts (map (task_event x) (tasks_of (keys (b_Graph b)) (b_Graph b))))))"

section \<open>Every handler is a run of the scheduler\<close>

lemma builds_audited [simp]: "s_builds (audited f s) = s_builds s"
  by (simp add: audited_def)

lemma step_step: "sched_step s s1 \<Longrightarrow> sched_step s1 s2 \<Longrightarrow> sched_step\<^sup>*\<^sup>* s s2"
  by (rule rtranclp.rtrancl_into_rtrancl [OF r_into_rtranclp])

lemma step_audited: "sched_step s (audited f s)"
  unfolding audited_def by (rule sched_step.history)

lemma send_all_events: "(\<And>e. e \<in> set es \<Longrightarrow> accepts e) \<Longrightarrow> send_events accepts es = (es, True)"
  by (induction es) simp_all

definition grpc_graph :: "intake_env \<Rightarrow> host_env \<Rightarrow> git_source \<Rightarrow> graph \<Rightarrow> graph" where
  "grpc_graph env he src g0 = inject_env (ie_keys env g0) (grpc_build_env he src) g0"

lemma submit_build_adds:
  assumes "submit_build ks ks' now b s = Inr s'"
  shows "gget (s_builds s) (b_ID b) = None"
    and "s_builds s' = gput (b_ID b) (b\<lparr> b_CreatedAt := now \<rparr>) (s_builds s)"
  using assms by (auto simp: submit_build_def put_build_def Let_def split: if_splits)

lemma grpc_submit_cases:
  assumes "grpc_submit_build env he req s = (s', out)"
  obtains (failed) e where "out = Inl e" "s' = s"
  | (accepted) src g0 s1 where "out = Inr (ie_newID env)" "sq_Source req = Some src"
      "fetch_and_build_graph (ie_git env) (ie_pipeline env) src = Inr g0"
      "submit_build (ie_keys env (grpc_graph env he src g0)) (ie_keys env (grpc_graph env he src g0))
         (ie_now env) (grpc_build (ie_newID env) src (sq_TriggeredBy req) (grpc_graph env he src g0)) s = Inr s1"
      "s' = audited (audit_BuildSubmit (ie_now env) (sq_TriggeredBy req) (ie_newID env) (gs_RepoUrl src)) s1"
proof (cases "sq_Source req")
  case None
  then show ?thesis using assms failed by (auto simp: grpc_submit_build_def)
next
  case src: (Some src)
  show ?thesis
  proof (cases "fetch_and_build_graph (ie_git env) (ie_pipeline env) src")
    case (Inl e)
    then show ?thesis using assms failed src by (auto simp: grpc_submit_build_def)
  next
    case (Inr g0)
    then show ?thesis using assms src failed accepted [OF _ src Inr]
      by (cases "submit_build (ie_keys env (grpc_graph env he src g0)) (ie_keys env (grpc_graph env he src g0))
        (ie_now env) (grpc_build (ie_newID env) src (sq_TriggeredBy req) (grpc_graph env he src g0)) s")
        (auto simp: grpc_submit_build_def grpc_graph_def Let_def)
  qed
qed

text \<open>The submission of a build: the state is unchanged, or has one more build.\<close>

lemma grpc_submit_spec:
  assumes "grpc_submit_build env he req s = (s', out)" "pipeline_orders_ok (ie_pipeline env)"
  shows "case out of
      Inl e \<Rightarrow> s' = s
    | Inr x \<Rightarrow> x = ie_newID env \<and> gget (s_builds s) x = None \<and> sched_step\<^sup>*\<^sup>* s s'
        \<and> (\<exists>src cfg b. sq_Source req = Some src \<and> fetched_config env src cfg
            \<and> built_from (b_Graph b) cfg (grpc_build_env he src)
            \<and> b = grpc_build x src (sq_TriggeredBy req) (b_Graph b)
            \<and> s_builds s' = gput x (b\<lparr> b_CreatedAt := ie_now env \<rparr>) (s_builds s))"
  using assms(1)
proof (cases rule: grpc_submit_cases)
  case (failed e)
  then show ?thesis by simp
next
  case (accepted src g0 s1)
  let ?g = "grpc_graph env he src g0" and ?x = "ie_newID env"
  let ?b = "grpc_build ?x src (sq_TriggeredBy req) ?g"
  obtain cfg where c: "fetched_config env src cfg" "build_graph_of (ie_pipeline env) cfg = Inr g0"
    using fetch_config [OF accepted(3)] by blast
  have bf: "built_from ?g cfg (grpc_build_env he src)"
    unfolding grpc_graph_def by (rule built_from_inject [OF c(2) assms(2)])
  have g: "b_Graph ?b = ?g" "b_ID ?b = ?x" by (simp_all add: grpc_build_def)
  have "wf_graph (b_Graph ?b)" "all_pending (b_Graph ?b)"
    unfolding g using bf by (auto simp only: built_from_def)
  then have "sched_step s s1" by (rule sched_step.submit [OF accepted(4)])
  then have st: "sched_step\<^sup>*\<^sup>* s s'" unfolding accepted(5) by (rule step_step [OF _ step_audited])
  have new: "gget (s_builds s) ?x = None"
    "s_builds s1 = gput ?x (?b\<lparr> b_CreatedAt := ie_now env \<rparr>) (s_builds s)"
    using submit_build_adds [OF accepted(4)] by (simp_all only: g)
  have "s_builds s' = gput ?x (?b\<lparr> b_CreatedAt := ie_now env \<rparr>) (s_builds s)"
    unfolding accepted(5) builds_audited by (rule new(2))
  moreover have "built_from (b_Graph ?b) cfg (grpc_build_env he src)" unfolding g by (rule bf)
  moreover have "?b = grpc_build ?x src (sq_TriggeredBy req) (b_Graph ?b)" by (simp only: g)
  ultimately have "\<exists>b. built_from (b_Graph b) cfg (grpc_build_env he src)
      \<and> b = grpc_build ?x src (sq_TriggeredBy req) (b_Graph b)
      \<and> s_builds s' = gput ?x (b\<lparr> b_CreatedAt := ie_now env \<rparr>) (s_builds s)" by blast
  then show ?thesis unfolding accepted(1) sum.case using st accepted(2) c(1) new(1) by blast
qed

lemma grpc_cancel_steps:
  "grpc_cancel_build m keys now x s = (s', calls, out) \<Longrightarrow> sched_step\<^sup>*\<^sup>* s s'"
  unfolding grpc_cancel_build_def
  by (auto split: option.splits sum.splits intro: step_step [OF sched_step.abandon step_audited])

section \<open>Properties\<close>

text \<open>A message that lists every task of the pipeline, in an order with dependencies first.\<close>

definition lists_pipeline :: "pb_build \<Rightarrow> config \<Rightarrow> bool" where
  "lists_pipeline pb cfg \<longleftrightarrow>
     parents_first (\<lambda>x. concat (map pt_DependsOn (filter (\<lambda>t. pt_TaskId t = x) (pb_Tasks pb)))) []
       (map pt_TaskId (pb_Tasks pb))
     \<and> (\<forall>t \<in> set (pb_Tasks pb). pt_State t = TASK_STATE_PENDING \<and> pt_Result t = None)
     \<and> (\<forall>tc \<in> set (cf_Tasks cfg). \<exists>t \<in> set (pb_Tasks pb).
          pt_TaskId t = tc_ID tc \<and> set (pt_DependsOn t) = set (tc_DependsOn tc))"

lemma parents_first_cong:
  "(\<And>x. x \<in> set xs \<Longrightarrow> set (f x) = set (g x)) \<Longrightarrow> parents_first f seen xs = parents_first g seen xs"
  by (induction xs arbitrary: seen) simp_all

lemma task_to_proto_fields:
  "pt_TaskId (task_to_proto t g) = t_ID t" "pt_DependsOn (task_to_proto t g) = parents g (t_ID t)"
  by (simp_all add: task_to_proto_def dependencies_def)

lemma proto_tasks:
  assumes w: "wf_graph g" and t: "topological g (g_order g)"
  shows "map pt_TaskId (map (\<lambda>t. task_to_proto t g) (tasks_of ks g)) = g_order g"
    and "x \<in> set (g_order g) \<Longrightarrow>
      set (concat (map pt_DependsOn (filter (\<lambda>t. pt_TaskId t = x)
        (map (\<lambda>t. task_to_proto t g) (tasks_of ks g))))) = set (parents g x)"
proof -
  note i = task_to_proto_fields
  show o: "map pt_TaskId (map (\<lambda>t. task_to_proto t g) (tasks_of ks g)) = g_order g"
    using tasks_of_topological [OF w t, of ks] by (simp add: i comp_def)
  assume "x \<in> set (g_order g)"
  then have "x \<in> t_ID ` set (tasks_of ks g)" using tasks_of_topological [OF w t, of ks] by (metis image_set)
  then show "set (concat (map pt_DependsOn (filter (\<lambda>t. pt_TaskId t = x)
      (map (\<lambda>t. task_to_proto t g) (tasks_of ks g))))) = set (parents g x)"
    by (auto simp: i)
qed

lemma built_lists_pipeline:
  assumes "built_from (b_Graph b) cfg m"
  shows "lists_pipeline (build_to_proto ks b) cfg"
proof -
  let ?g = "b_Graph b"
  have w: "wf_graph ?g" and p: "all_pending ?g" and t: "topological ?g (g_order ?g)"
    and c: "\<And>tc. tc \<in> set (cf_Tasks cfg) \<Longrightarrow> gget (g_tasks ?g) (tc_ID tc) \<noteq> None
      \<and> set (parents ?g (tc_ID tc)) = set (tc_DependsOn tc)"
    using assms by (auto simp: built_from_def)
  have tasks: "pb_Tasks (build_to_proto ks b) = map (\<lambda>t. task_to_proto t ?g) (tasks_of ks ?g)"
    by (simp add: build_to_proto_def)
  have "parents_first (parents ?g) [] (g_order ?g)" using t by (simp add: topological_def)
  then have "parents_first (\<lambda>x. concat (map pt_DependsOn (filter (\<lambda>t. pt_TaskId t = x)
      (map (\<lambda>t. task_to_proto t ?g) (tasks_of ks ?g))))) [] (g_order ?g)"
    by (rule iffD2 [OF parents_first_cong [OF proto_tasks(2) [OF w t]], rotated])
  moreover have "t_State u = TaskPending" if "u \<in> set (tasks_of ks ?g)" for u
    using that p w by (auto simp: set_tasks_of [OF w t] all_pending_def list_all_gomap wf_tasks)
  then have "\<forall>t \<in> set (map (\<lambda>t. task_to_proto t ?g) (tasks_of ks ?g)).
      pt_State t = TASK_STATE_PENDING \<and> pt_Result t = None"
    by (simp add: task_to_proto_def)
  moreover have "\<exists>t \<in> set (map (\<lambda>t. task_to_proto t ?g) (tasks_of ks ?g)).
      pt_TaskId t = tc_ID tc \<and> set (pt_DependsOn t) = set (tc_DependsOn tc)"
    if "tc \<in> set (cf_Tasks cfg)" for tc
  proof -
    note ct = c [OF that]
    then obtain u where u: "gget (g_tasks ?g) (tc_ID tc) = Some u" by blast
    then have "t_ID u = tc_ID tc" using wf_task_ID [OF w] by blast
    then have "u \<in> set (tasks_of ks ?g)" "t_ID u = tc_ID tc" using u by (simp_all add: set_tasks_of [OF w t])
    then show ?thesis using ct
      by (intro bexI [of _ "task_to_proto u ?g"]) (simp_all add: task_to_proto_fields)
  qed
  ultimately show ?thesis
    unfolding lists_pipeline_def tasks proto_tasks(1) [OF w t] by blast
qed

text \<open>C36. What was submitted can be read back: after a successful \<open>SubmitBuild\<close>, \<open>GetBuild\<close> with the
  ID it returned answers with the build of the requester, with the requested source, and lists every
  task of the pipeline file of that source, each pending, without a result, with the dependencies the
  file gives it and after the tasks it depends on. The ID was not in use before.\<close>

theorem submitted_build_readable:
  assumes "grpc_submit_build env he req s = (s', Inr x)" "pipeline_orders_ok (ie_pipeline env)"
  shows "gget (s_builds s) x = None \<and> sched_step\<^sup>*\<^sup>* s s'
    \<and> (\<exists>src cfg pb. sq_Source req = Some src \<and> fetched_config env src cfg
        \<and> grpc_get_build keys (Some x) s' = Inr pb
        \<and> pb_BuildId pb = x \<and> pb_TriggeredBy pb = sq_TriggeredBy req \<and> lists_pipeline pb cfg
        \<and> (gs_RepoUrl src \<noteq> [] \<longrightarrow> pb_Source pb = Some \<lparr> ps_RepoUrl = gs_RepoUrl src,
             ps_CommitSha = gs_CommitSha src, ps_Branch = gs_Branch src, ps_PrNumber = gs_PrNumber src \<rparr>))"
proof -
  from grpc_submit_spec [OF assms] obtain src cfg b where
    new: "gget (s_builds s) x = None" "sched_step\<^sup>*\<^sup>* s s'" and src: "sq_Source req = Some src"
    and f: "fetched_config env src cfg" "built_from (b_Graph b) cfg (grpc_build_env he src)"
    and b: "b = grpc_build x src (sq_TriggeredBy req) (b_Graph b)"
    and s': "s_builds s' = gput x (b\<lparr> b_CreatedAt := ie_now env \<rparr>) (s_builds s)"
    by auto
  let ?b = "b\<lparr> b_CreatedAt := ie_now env \<rparr>"
  have g: "grpc_get_build keys (Some x) s' = Inr (build_to_proto (keys (b_Graph b)) ?b)"
    by (simp add: grpc_get_build_def get_build_def s')
  have "b_ID b = x" "b_TriggeredBy b = sq_TriggeredBy req" "b_RepoURL b = gs_RepoUrl src"
    "b_CommitSHA b = gs_CommitSha src" "b_Branch b = gs_Branch src" "b_PRNumber b = gs_PrNumber src"
    by (subst b, simp add: grpc_build_def)+
  then have "pb_BuildId (build_to_proto ks ?b) = x \<and> pb_TriggeredBy (build_to_proto ks ?b) = sq_TriggeredBy req
      \<and> (gs_RepoUrl src \<noteq> [] \<longrightarrow> pb_Source (build_to_proto ks ?b) = Some \<lparr> ps_RepoUrl = gs_RepoUrl src,
             ps_CommitSha = gs_CommitSha src, ps_Branch = gs_Branch src, ps_PrNumber = gs_PrNumber src \<rparr>)" for ks
    by (simp add: build_to_proto_def)
  moreover have "lists_pipeline (build_to_proto (keys (b_Graph b)) ?b) cfg"
    using f(2) by (intro built_lists_pipeline) simp
  ultimately show ?thesis using new src f(1) g by blast
qed

definition small_request :: submit_request where
  "small_request = \<lparr> sq_Source = Some \<lparr> gs_RepoUrl = ''u'', gs_CommitSha = [], gs_Branch = [], gs_PrNumber = [] \<rparr>,
     sq_TriggeredBy = ''me'' \<rparr>"

definition small_host_env :: host_env where
  "small_host_env = \<lparr> he_url_path = (\<lambda>_. None), he_exists = (\<lambda>_. False) \<rparr>"

definition small_submit :: "scheduler \<times> (rpc_status + string)" where
  "small_submit = grpc_submit_build small_intake small_host_env small_request (new_scheduler (new_registry 30))"

theorem submitted_build_readable_witness:
  "\<exists>pb. grpc_get_build keys_of (Some ''b7'') (fst small_submit) = Inr pb
     \<and> ''test'' \<in> pt_TaskId ` set (pb_Tasks pb) \<and> pb_TriggeredBy pb = ''me''"
proof -
  have "snd small_submit = Inr ''b7''" by code_simp
  then have e: "small_submit = (fst small_submit, Inr ''b7'')" by (metis prod.collapse)
  have o: "pipeline_orders_ok (ie_pipeline small_intake)" using small_orders_ok by (simp add: small_intake_def)
  obtain pb where "grpc_get_build keys_of (Some ''b7'') (fst small_submit) = Inr pb"
    "pb_TriggeredBy pb = ''me''"
    using submitted_build_readable [OF e [unfolded small_submit_def] o, of keys_of]
    by (auto simp: small_request_def small_submit_def)
  moreover have "(case grpc_get_build keys_of (Some ''b7'') (fst small_submit) of
      Inl _ \<Rightarrow> False | Inr pb \<Rightarrow> ''test'' \<in> pt_TaskId ` set (pb_Tasks pb))" by code_simp
  ultimately show ?thesis by auto
qed

end
