(* ===== verification/Api.thy ===== *)
theory Api
  imports Scheduler_Service Scheduler_Properties Auth
begin

text \<open>
  The REST interface for the web page, \<open>cmd/master/api.go\<close>: the wrapper that answers preflight
  requests and checks the token, and the four handlers.  A reply is a status and the value that is
  encoded as JSON; the CORS headers, which are constants, are left out.  \<open>sort.Slice\<close> is the argument
  \<open>srt\<close>: it may order equal elements either way.
\<close>

section \<open>The shapes of the replies\<close>

record build_summary =
  bs_ID :: string
  bs_State :: string
  bs_RepoFullName :: string
  bs_RepoURL :: string
  bs_Branch :: string
  bs_CommitSHA :: string
  bs_PRNumber :: string
  bs_TriggeredBy :: string
  bs_CreatedAt :: time
  bs_StartedAt :: "time option"
  bs_FinishedAt :: "time option"
  bs_TaskCount :: nat
  bs_TasksPassed :: nat
  bs_TasksFailed :: nat
  bs_TasksRunning :: nat

record task_view =
  tv_ID :: string
  tv_Name :: string
  tv_State :: string
  tv_ExitCode :: int
  tv_Error :: string
  tv_DependsOn :: "string list"
  tv_StartedAt :: "time option"
  tv_FinishedAt :: "time option"

record worker_summary =
  ws_ID :: string
  ws_State :: string
  ws_RunningTasks :: u32
  ws_MaxTasks :: u32
  ws_LastHeartbeat :: "time option"
  ws_Labels :: "(string, string) gomap"

datatype api_body =
    BuildsBody "build_summary list"
  | DetailBody build_summary "task_view list"
  | WorkersBody "worker_summary list"
  | AuditBody "audit_entry list"
  | ErrorBody string
  | NoContent

record api_request =
  ar_Method :: string
  ar_Path :: string
  ar_Authorization :: string

section \<open>Helpers\<close>

definition time_or_nil :: "time \<Rightarrow> time option" where
  "time_or_nil t = (if is_zero_time t then None else Some t)"

definition build_state_string :: "string list \<Rightarrow> graph \<Rightarrow> string" where
  "build_state_string ks g =
     (if is_complete g then
        if is_passed g then ''passed''
        else if list_ex (\<lambda>t. t_State t = TaskCancelled) (tasks_of ks g) then ''cancelled''
        else ''failed''
      else if list_ex (\<lambda>t. t_State t = TaskRunning \<or> t_State t = TaskScheduled) (tasks_of ks g)
      then ''running'' else ''queued'')"

definition count_states :: "task_state list \<Rightarrow> task list \<Rightarrow> nat" where
  "count_states sts ts = length (filter (\<lambda>t. t_State t \<in> set sts) ts)"

definition summarize :: "string list \<Rightarrow> build \<Rightarrow> build_summary" where
  "summarize ks b =
     (let ts = tasks_of ks (b_Graph b)
      in \<lparr> bs_ID = b_ID b, bs_State = build_state_string ks (b_Graph b),
           bs_RepoFullName = b_RepoFullName b, bs_RepoURL = b_RepoURL b, bs_Branch = b_Branch b,
           bs_CommitSHA = b_CommitSHA b, bs_PRNumber = b_PRNumber b, bs_TriggeredBy = b_TriggeredBy b,
           bs_CreatedAt = b_CreatedAt b, bs_StartedAt = time_or_nil (b_StartedAt b),
           bs_FinishedAt = time_or_nil (b_FinishedAt b), bs_TaskCount = length ts,
           bs_TasksPassed = count_states [TaskPassed] ts,
           bs_TasksFailed = count_states [TaskFailed, TaskTimedOut] ts,
           bs_TasksRunning = count_states [TaskRunning, TaskScheduled] ts \<rparr>)"

definition api_detail :: "string list \<Rightarrow> build \<Rightarrow> api_body" where
  "api_detail ks b = DetailBody (summarize ks b)
     (map (\<lambda>t. \<lparr> tv_ID = t_ID t, tv_Name = t_Name t, tv_State = task_state_string (t_State t),
        tv_ExitCode = t_ExitCode t, tv_Error = t_ErrorMessage t,
        tv_DependsOn = dependencies (b_Graph b) (t_ID t), tv_StartedAt = time_or_nil (t_StartedAt t),
        tv_FinishedAt = time_or_nil (t_FinishedAt t) \<rparr>) (tasks_of ks (b_Graph b)))"

definition count_record_states :: "string list \<Rightarrow> task_record list \<Rightarrow> nat" where
  "count_record_states sts ts = length (filter (\<lambda>t. tr_State t \<in> set sts) ts)"

definition summarize_record :: "build_record \<Rightarrow> build_summary" where
  "summarize_record r = \<lparr> bs_ID = br_ID r, bs_State = br_State r,
     bs_RepoFullName = br_RepoFullName r, bs_RepoURL = br_RepoURL r, bs_Branch = br_Branch r,
     bs_CommitSHA = br_CommitSHA r, bs_PRNumber = br_PRNumber r, bs_TriggeredBy = br_TriggeredBy r,
     bs_CreatedAt = br_CreatedAt r, bs_StartedAt = time_or_nil (br_StartedAt r),
     bs_FinishedAt = time_or_nil (br_FinishedAt r), bs_TaskCount = length (br_Tasks r),
     bs_TasksPassed = count_record_states [''passed''] (br_Tasks r),
     bs_TasksFailed = count_record_states [''failed'', ''timed_out''] (br_Tasks r),
     bs_TasksRunning = count_record_states [''running'', ''scheduled''] (br_Tasks r) \<rparr>"

definition detail_from_record :: "build_record \<Rightarrow> api_body" where
  "detail_from_record r = DetailBody (summarize_record r)
     (map (\<lambda>t. \<lparr> tv_ID = tr_ID t, tv_Name = tr_Name t, tv_State = tr_State t,
        tv_ExitCode = tr_ExitCode t, tv_Error = tr_ErrorMessage t, tv_DependsOn = [],
        tv_StartedAt = time_or_nil (tr_StartedAt t), tv_FinishedAt = time_or_nil (tr_FinishedAt t) \<rparr>)
      (br_Tasks r))"

section \<open>Handlers\<close>

text \<open>\<open>apiToken\<close> is the configured token; the handler runs only behind the check.\<close>

definition with_cors :: "string \<Rightarrow> (api_request \<Rightarrow> nat \<times> api_body) \<Rightarrow> api_request \<Rightarrow> nat \<times> api_body" where
  "with_cors apiToken h r =
     (if ar_Method r = ''OPTIONS'' then (204, NoContent)
      else if apiToken \<noteq> [] \<and>
         trim_prefix ''bearer '' (trim_prefix ''Bearer '' (ar_Authorization r)) \<noteq> apiToken
      then (401, ErrorBody ''invalid or missing token'')
      else h r)"

definition method_not_allowed :: "nat \<times> api_body" where
  "method_not_allowed = (405, ErrorBody ''method not allowed'')"

text \<open>\<open>keys\<close> and \<open>ks\<close>, \<open>ks'\<close> are the orders of the loops over the graphs, the builds and the history.\<close>

definition handle_builds ::
    "(build_summary list \<Rightarrow> build_summary list) \<Rightarrow> (graph \<Rightarrow> string list) \<Rightarrow> string list \<Rightarrow> string list
       \<Rightarrow> scheduler \<Rightarrow> api_request \<Rightarrow> nat \<times> api_body" where
  "handle_builds srt keys ks ks' s r =
     (if ar_Method r \<noteq> ''GET'' then method_not_allowed
      else
        let activeBuilds = list_builds ks s;
            seen = map b_ID activeBuilds;
            out = map (\<lambda>b. summarize (keys (b_Graph b)) b) activeBuilds
              @ map summarize_record (filter (\<lambda>rec. br_ID rec \<notin> set seen) (store_list_builds ks' 500 s))
        in (200, BuildsBody (srt out)))"

definition handle_build_detail ::
    "(graph \<Rightarrow> string list) \<Rightarrow> scheduler \<Rightarrow> api_request \<Rightarrow> nat \<times> api_body" where
  "handle_build_detail keys s r =
     (if ar_Method r \<noteq> ''GET'' then method_not_allowed
      else
        let rest = trim_suffix ''/'' (trim_prefix ''/api/v1/builds/'' (ar_Path r))
        in if rest = [] then (400, ErrorBody ''build id required'')
           else if CHR ''/'' \<in> set rest then (404, ErrorBody ''not found'')
           else case get_build rest s of
             Some b \<Rightarrow> (200, api_detail (keys (b_Graph b)) b)
           | None \<Rightarrow> (case store_get_build rest s of
               None \<Rightarrow> (404, ErrorBody ''build not found'')
             | Some rec \<Rightarrow> (200, detail_from_record rec)))"

definition handle_audit :: "scheduler \<Rightarrow> api_request \<Rightarrow> nat \<times> api_body" where
  "handle_audit s r =
     (if ar_Method r \<noteq> ''GET'' then method_not_allowed
      else case store_ListAudit 200 (s_store s) of
        None \<Rightarrow> (200, AuditBody [])
      | Some entries \<Rightarrow> (200, AuditBody entries))"

definition worker_summary_of :: "info \<Rightarrow> worker_summary" where
  "worker_summary_of i = \<lparr> ws_ID = wi_ID i, ws_State = worker_state_string (wi_State i),
     ws_RunningTasks = wi_RunningTasks i, ws_MaxTasks = wi_MaxTasks i,
     ws_LastHeartbeat = time_or_nil (wi_LastHeartbeat i), ws_Labels = wi_Labels i \<rparr>"

definition handle_workers :: "string list \<Rightarrow> registry \<Rightarrow> api_request \<Rightarrow> nat \<times> api_body" where
  "handle_workers ks r req =
     (if ar_Method req \<noteq> ''GET'' then method_not_allowed
      else (200, WorkersBody (map worker_summary_of (all_workers ks r))))"

section \<open>Properties\<close>

text \<open>The API and the gRPC services accept the same authorization values.\<close>

lemma with_cors_exact:
  assumes "apiToken \<noteq> []" "ar_Method r \<noteq> ''OPTIONS''"
  shows "with_cors apiToken h r =
    (if strip_bearer (ar_Authorization r) = apiToken then h r
     else (401, ErrorBody ''invalid or missing token''))"
  using assms by (simp add: with_cors_def strip_bearer_def)

definition newest_first :: "(build_summary list \<Rightarrow> build_summary list) \<Rightarrow> bool" where
  "newest_first srt \<longleftrightarrow> (\<forall>xs. mset (srt xs) = mset xs \<and> sorted_wrt (\<ge>) (map bs_CreatedAt (srt xs)))"

lemma newest_first_sort: "newest_first (sort_key (\<lambda>b. - bs_CreatedAt b))"
  unfolding newest_first_def
proof (intro allI conjI)
  fix xs :: "build_summary list"
  let ?ys = "sort_key (\<lambda>b. - bs_CreatedAt b) xs"
  show "mset ?ys = mset xs" by simp
  have "sorted_wrt (\<lambda>a b. - bs_CreatedAt a \<le> - bs_CreatedAt b) ?ys"
    using sorted_sort_key [of "\<lambda>b. - bs_CreatedAt b" xs] by (simp add: sorted_wrt_map)
  then show "sorted_wrt (\<ge>) (map bs_CreatedAt ?ys)" by (simp add: sorted_wrt_map)
qed

lemma map_filter_keyed:
  assumes "keyed_builds s"
  shows "map b_ID (list_builds ks s) = filter (\<lambda>x. gget (s_builds s) x \<noteq> None) ks"
proof (induction ks)
  case (Cons x xs)
  then show ?case
    using keyed_buildsD [OF assms, of x]
    by (cases "gget (s_builds s) x") (simp_all add: list_builds_def List.map_filter_simps)
qed (simp add: list_builds_def List.map_filter_simps)

lemma summary_IDs [simp]: "bs_ID (summarize ks b) = b_ID b" "bs_ID (summarize_record r) = br_ID r"
  by (simp_all add: summarize_def summarize_record_def Let_def)


definition list_request :: api_request where
  "list_request = \<lparr> ar_Method = ''GET'', ar_Path = ''/api/v1/builds'', ar_Authorization = [] \<rparr>"


end
