(* ===== verification/Dispatcher.thy ===== *)
theory Dispatcher
  imports Scheduler
begin

text \<open>
  The dispatcher, \<open>cmd/master/dispatcher.go\<close>: the client it keeps for each worker, here the address
  it dialled, and the assignment of a task.  Whether the TLS configuration gives an option and
  whether an address can be dialled is \<open>dial_env\<close>; the worker's answer to \<open>AssignTask\<close> is its last
  field.  The assignment callback of the scheduler (\<open>e_assign\<close>) is \<open>dispatch\<close> succeeding.
\<close>

record dispatcher =
  di_clients :: "(string, string) gomap"

record assign_request =
  aq_TaskId :: string
  aq_BuildId :: string
  aq_TaskName :: string
  aq_ContainerImage :: string
  aq_Commands :: "string list"
  aq_Env :: "(string, string) gomap"
  aq_SecretRefs :: "string list"
  aq_CacheMounts :: "cache_mount list"
  aq_CpuMillicores :: u32
  aq_MemoryMb :: u32
  aq_DiskMb :: u32
  aq_TimeoutSeconds :: u32

datatype assign_answer = RpcFailed | Answered bool string

record dial_env =
  de_tls_ok :: bool
  de_dial_ok :: "string \<Rightarrow> bool"
  de_assign :: "string \<Rightarrow> assign_request \<Rightarrow> assign_answer"

datatype dispatch_error =
    NotInRegistry string
  | NoAddrLabel string
  | TLSConfigError string
  | DialError string string
  | ConnectingToWorker string dispatch_error
  | AssigningTask string
  | WorkerRejected string string

definition new_dispatcher :: dispatcher where
  "new_dispatcher = \<lparr> di_clients = [] \<rparr>"

text \<open>An address that is only a port means the local host.\<close>

definition worker_addr :: "info \<Rightarrow> string option" where
  "worker_addr i =
     (case (case gget (wi_Labels i) ''addr'' of None \<Rightarrow> [] | Some a \<Rightarrow> a) of
        [] \<Rightarrow> None
      | c # cs \<Rightarrow> Some (if c = CHR '':'' then ''localhost'' @ c # cs else c # cs))"

definition get_worker_client ::
    "dial_env \<Rightarrow> string \<Rightarrow> registry \<Rightarrow> dispatcher \<Rightarrow> dispatcher \<times> (dispatch_error + string)" where
  "get_worker_client env workerID r d =
     (case gget (di_clients d) workerID of
        Some c \<Rightarrow> (d, Inr c)
      | None \<Rightarrow>
     (case get_worker workerID r of
        None \<Rightarrow> (d, Inl (NotInRegistry workerID))
      | Some i \<Rightarrow>
     (case worker_addr i of
        None \<Rightarrow> (d, Inl (NoAddrLabel workerID))
      | Some addr \<Rightarrow>
          if \<not> de_tls_ok env then (d, Inl (TLSConfigError workerID))
          else if \<not> de_dial_ok env addr then (d, Inl (DialError workerID addr))
          else (d\<lparr> di_clients := gput workerID addr (di_clients d) \<rparr>, Inr addr))))"

definition assign_request_of :: "task_assignment \<Rightarrow> assign_request" where
  "assign_request_of a = (let t = as_Task a in
     \<lparr> aq_TaskId = t_ID t, aq_BuildId = as_BuildID a, aq_TaskName = t_Name t,
       aq_ContainerImage = t_ContainerImage t, aq_Commands = t_Commands t, aq_Env = t_Env t,
       aq_SecretRefs = t_SecretRefs t, aq_CacheMounts = t_CacheMounts t,
       aq_CpuMillicores = t_CPUMillicores t, aq_MemoryMb = t_MemoryMB t, aq_DiskMb = t_DiskMB t,
       aq_TimeoutSeconds = t_TimeoutSeconds t \<rparr>)"

definition dispatch ::
    "dial_env \<Rightarrow> task_assignment \<Rightarrow> registry \<Rightarrow> dispatcher \<Rightarrow> dispatcher \<times> dispatch_error option" where
  "dispatch env a r d =
     (case get_worker_client env (as_WorkerID a) r d of
        (d', Inl e) \<Rightarrow> (d', Some (ConnectingToWorker (as_WorkerID a) e))
      | (d', Inr c) \<Rightarrow>
          (d', case de_assign env c (assign_request_of a) of
                 RpcFailed \<Rightarrow> Some (AssigningTask (as_WorkerID a))
               | Answered True _ \<Rightarrow> None
               | Answered False reason \<Rightarrow> Some (WorkerRejected (as_WorkerID a) reason)))"

definition close_dispatcher :: "dispatcher \<Rightarrow> dispatcher" where
  "close_dispatcher d = d\<lparr> di_clients := [] \<rparr>"

section \<open>Properties\<close>

lemma get_worker_client_cached:
  "get_worker_client env w r d = (d', Inr c) \<Longrightarrow> gget (di_clients d') w = Some c"
  by (auto simp: get_worker_client_def split: option.splits if_splits)

lemma get_worker_client_keeps:
  "get_worker_client env w r d = (d', out) \<Longrightarrow> gget (di_clients d) x = Some c \<Longrightarrow>
    gget (di_clients d') x = Some c"
  by (auto simp: get_worker_client_def split: option.splits if_splits)

text \<open>A connection outlives its worker: once a task has reached a worker, later tasks for that
  worker go to the same address, whatever has been registered or removed since. A worker that comes
  back under its ID at another address is not reached until the master restarts.\<close>

theorem dispatch_uses_first_address:
  assumes "dispatch env a r d = (d1, None)" "as_WorkerID a' = as_WorkerID a"
  shows "\<exists>addr. gget (di_clients d1) (as_WorkerID a) = Some addr
    \<and> (\<forall>env' r'. dispatch env' a' r' d1 =
        (d1, case de_assign env' addr (assign_request_of a') of
               RpcFailed \<Rightarrow> Some (AssigningTask (as_WorkerID a))
             | Answered True _ \<Rightarrow> None
             | Answered False reason \<Rightarrow> Some (WorkerRejected (as_WorkerID a) reason)))"
proof -
  obtain addr where c: "get_worker_client env (as_WorkerID a) r d = (d1, Inr addr)"
    using assms(1) by (auto simp: dispatch_def split: prod.splits sum.splits)
  show ?thesis
    unfolding dispatch_def get_worker_client_def assms(2) using get_worker_client_cached [OF c]
    by (intro exI [of _ addr]) simp
qed

definition small_dial :: dial_env where
  "small_dial = \<lparr> de_tls_ok = True, de_dial_ok = (\<lambda>a. True), de_assign = (\<lambda>a r. Answered (a = ''localhost:9091'') a) \<rparr>"

definition small_assignment :: task_assignment where
  "small_assignment = \<lparr> as_Task = zero_task, as_WorkerID = ''w'', as_BuildID = ''b1'' \<rparr>"

definition registered_at :: "string \<Rightarrow> registry" where
  "registered_at addr = put_worker ''w'' \<lparr> wi_ID = ''w'', wi_Platforms = [], wi_Labels = [(''addr'', addr)],
     wi_TotalCPU = 0, wi_AvailableCPU = 0, wi_TotalMemoryMB = 0, wi_AvailableMemoryMB = 0, wi_TotalDiskMB = 0,
     wi_AvailableDiskMB = 0, wi_RunningTasks = 0, wi_MaxTasks = 1, wi_LastHeartbeat = 1, wi_RegisteredAt = 1,
     wi_State = WorkerActive \<rparr> (new_registry 30)"

theorem dispatch_uses_first_address_witness:
  "snd (dispatch small_dial small_assignment (registered_at '':9091'') new_dispatcher) = None
   \<and> snd (dispatch small_dial small_assignment (registered_at ''new:9091'')
        (fst (dispatch small_dial small_assignment (registered_at '':9091'') new_dispatcher))) = None
   \<and> snd (dispatch small_dial small_assignment (registered_at ''new:9091'') new_dispatcher) \<noteq> None"
proof -
  let ?d = "dispatch small_dial small_assignment (registered_at '':9091'') new_dispatcher"
  have n: "snd ?d = None" by code_simp
  then have e: "?d = (fst ?d, None)" by (metis prod.collapse)
  have a: "gget (di_clients (fst ?d)) (as_WorkerID small_assignment) = Some ''localhost:9091''" by code_simp
  have "de_assign small_dial ''localhost:9091'' (assign_request_of small_assignment) = Answered True ''localhost:9091''"
    by code_simp
  then have "snd (dispatch small_dial small_assignment (registered_at ''new:9091'') (fst ?d)) = None"
    using dispatch_uses_first_address [OF e refl] a by auto
  moreover have "snd (dispatch small_dial small_assignment (registered_at ''new:9091'') new_dispatcher) \<noteq> None"
    by code_simp
  ultimately show ?thesis using n by simp
qed

end
