(* ===== verification/Build_Comment.thy ===== *)
theory Build_Comment
  imports Proto
begin

text \<open>
  The summary comment on a pull request, \<open>buildPRComment\<close> and its helpers of
  \<open>cmd/master/grpc_worker.go\<close>.  Text is a list of bytes: a character outside ASCII is written by its
  bytes in UTF-8.  A duration is printed as package \<open>time\<close> prints it.
\<close>

section \<open>Durations\<close>

definition second :: int where
  "second = 1000000000"

text \<open>\<open>Duration.Round\<close> to a multiple of \<open>m\<close>: half away from zero, saturating.\<close>

definition round_duration :: "int \<Rightarrow> int \<Rightarrow> int" where
  "round_duration m d =
     (let r = \<bar>d\<bar> mod m
      in if d < 0 then if 2 * r < m then d + r else max (- (2 ^ 63)) (d - m + r)
         else if 2 * r < m then d - r else min max_duration (d + m - r))"

definition round_second :: "int \<Rightarrow> int" where
  "round_second d = round_duration second d"

text \<open>The digits after the point, without the zeros at the end; no point when there are none.\<close>

definition zero_pad :: "nat \<Rightarrow> string \<Rightarrow> string" where
  "zero_pad n s = replicate (n - length s) (CHR ''0'') @ s"

definition fraction :: "nat \<Rightarrow> string" where
  "fraction f = (if f = 0 then []
     else CHR ''.'' # rev (dropWhile (\<lambda>c. c = CHR ''0'') (rev (zero_pad 9 (decimal f)))))"

text \<open>\<open>Duration.String\<close> for a rounded duration, which is zero or at least a second long.\<close>

definition duration_string :: "int \<Rightarrow> string" where
  "duration_string d =
     (let u = nat \<bar>d\<bar>; secs = u div 1000000000; mins = secs div 60; hours = mins div 60;
          sec = decimal (secs mod 60) @ fraction (u mod 1000000000) @ ''s'';
          body = (if u = 0 then ''0s''
                  else if mins = 0 then sec
                  else if hours = 0 then decimal mins @ ''m'' @ sec
                  else decimal hours @ ''h'' @ decimal (mins mod 60) @ ''m'' @ sec)
      in if d < 0 then CHR ''-'' # body else body)"

section \<open>Log excerpts\<close>

definition nl :: string where
  "nl = [CHR 0x0A]"

definition fence :: string where
  "fence = [CHR 0x60, CHR 0x60, CHR 0x60]"

definition log_get :: "string \<Rightarrow> int \<Rightarrow> int \<Rightarrow> log_store \<Rightarrow> line list" where
  "log_get x offset limit logs = (case get_lines x offset limit logs of None \<Rightarrow> [] | Some (ls, _) \<Rightarrow> ls)"

definition content_lines :: "string list \<Rightarrow> string" where
  "content_lines cs = concat (map (\<lambda>c. c @ nl) cs)"

definition task_log_snippet :: "log_store option \<Rightarrow> string \<Rightarrow> int \<Rightarrow> string" where
  "task_log_snippet logs taskID n =
     (case logs of
        None \<Rightarrow> []
      | Some ls \<Rightarrow>
          let total = line_count taskID ls;
              offset = (if total - n < 0 then 0 else total - n);
              lines = log_get taskID offset n ls
          in if lines = [] then []
             else ''<details><summary>last log lines</summary>'' @ nl @ nl @ fence @ nl
               @ content_lines (map ln_Content lines) @ fence @ nl @ ''</details>'')"

text \<open>The last line with the verdict, searched from the end; and the lines from the first heading on.\<close>

definition review_verdict :: "string list \<Rightarrow> string" where
  "review_verdict cs =
     (case List.find (\<lambda>c. contains c ''Ready to merge?'') (rev cs) of None \<Rightarrow> [] | Some c \<Rightarrow> trim_space c)"

fun review_lines :: "bool \<Rightarrow> string list \<Rightarrow> string list" where
  "review_lines inReview [] = []"
| "review_lines inReview (c # cs) =
     (let inReview' = (inReview \<or> has_prefix ''##'' c)
      in if inReview' \<and> \<not> has_prefix ''[SYS]'' c \<and> \<not> has_prefix ''[ERR]'' c
         then c # review_lines inReview' cs else review_lines inReview' cs)"

definition code_review_full :: "log_store option \<Rightarrow> string \<Rightarrow> string" where
  "code_review_full logs taskID =
     (case logs of
        None \<Rightarrow> []
      | Some ls \<Rightarrow>
          let lines = log_get taskID 0 (line_count taskID ls) ls;
              cs = map ln_Content lines;
              verdict = review_verdict cs;
              review = review_lines False cs
          in if lines = [] then []
             else if review = [] then
               (if verdict \<noteq> [] then [CHR 0x60] @ verdict @ [CHR 0x60] else [])
             else
               let summary = (if verdict \<noteq> [] then verdict else ''View review'')
               in ''<details><summary>'' @ summary @ ''</summary>'' @ nl @ nl @ content_lines review
                  @ nl @ ''</details>'')"

section \<open>The comment\<close>

fun task_state_icon :: "task_state \<Rightarrow> string" where
  "task_state_icon TaskPassed = [CHR 0xE2, CHR 0x9C, CHR 0x85]"
| "task_state_icon TaskFailed = [CHR 0xE2, CHR 0x9D, CHR 0x8C]"
| "task_state_icon TaskSkipped = [CHR 0xE2, CHR 0x8F, CHR 0xAD, CHR 0xEF, CHR 0xB8, CHR 0x8F]"
| "task_state_icon TaskCancelled = [CHR 0xF0, CHR 0x9F, CHR 0x9A, CHR 0xAB]"
| "task_state_icon TaskTimedOut = [CHR 0xE2, CHR 0x8F, CHR 0xB1, CHR 0xEF, CHR 0xB8, CHR 0x8F]"
| "task_state_icon _ = [CHR 0xE2, CHR 0x8F, CHR 0xB3]"

definition em_dash :: string where
  "em_dash = [CHR 0xE2, CHR 0x80, CHR 0x94]"

definition middle_dot :: string where
  "middle_dot = [CHR 0xC2, CHR 0xB7]"

definition backquoted :: "string \<Rightarrow> string" where
  "backquoted s = [CHR 0x60] @ s @ [CHR 0x60]"

definition task_details :: "log_store option \<Rightarrow> task \<Rightarrow> string" where
  "task_details logs t =
     (if t_ID t = ''review-pr'' \<and> t_State t \<noteq> TaskSkipped then code_review_full logs (t_ID t)
      else if t_State t = TaskFailed \<or> t_State t = TaskTimedOut then task_log_snippet logs (t_ID t) 10
      else [])"

definition comment_row :: "log_store option \<Rightarrow> task \<Rightarrow> string" where
  "comment_row logs t =
     (let dur = (if \<not> is_zero_time (t_StartedAt t) \<and> \<not> is_zero_time (t_FinishedAt t)
                 then duration_string (round_second (time_sub (t_FinishedAt t) (t_StartedAt t))) else [])
      in ''| '' @ t_Name t @ '' | '' @ task_state_icon (t_State t) @ '' '' @ task_state_string (t_State t)
         @ '' | '' @ dur @ '' | '' @ task_details logs t @ '' |'' @ nl)"

definition build_pr_comment ::
    "log_store option \<Rightarrow> string list \<Rightarrow> bool \<Rightarrow> build \<Rightarrow> string \<Rightarrow> string" where
  "build_pr_comment logs ks passed b logsURL =
     (if passed then ''## '' @ task_state_icon TaskPassed @ '' Relay CI '' @ em_dash @ '' Build Passed''
      else ''## '' @ task_state_icon TaskFailed @ '' Relay CI '' @ em_dash @ '' Build Failed'') @ nl @ nl
     @ ''**Build:** '' @ backquoted (b_ID b)
     @ (if b_Branch b \<noteq> [] then '' '' @ middle_dot @ '' **Branch:** '' @ backquoted (b_Branch b) else [])
     @ (if logsURL \<noteq> [] then '' '' @ middle_dot @ '' [View Logs]('' @ logsURL @ '')'' else [])
     @ nl @ nl
     @ ''| Task | Result | Duration | Details |'' @ nl @ ''|---|---|---|---|'' @ nl
     @ concat (map (comment_row logs) (tasks_of ks (b_Graph b)))
     @ nl @ ''---'' @ nl @ ''*Posted by [Relay CI](https://github.com/ci-system/ci)*''"

section \<open>Lemmas\<close>

text \<open>The paging never panics here, so the excerpts show what they say.\<close>

lemma get_lines_plain:
  assumes "0 \<le> offset" "int (length (lines_of logs x)) < 2 ^ 62" "0 \<le> limit" "limit < 2 ^ 62"
  shows "get_lines x offset limit logs \<noteq> None"
proof -
  let ?t = "int (length (lines_of logs x))"
  have "wrap64 (offset + limit) = offset + limit" if "offset < ?t"
    using assms that by (simp add: wrap64_def)
  then show ?thesis using assms by (auto simp: get_lines_def Let_def)
qed

lemma log_get_tail:
  assumes "n > 0" "int (length (lines_of logs x)) < 2 ^ 62" "int n < 2 ^ 62"
  shows "log_get x (if line_count x logs - int n < 0 then 0 else line_count x logs - int n) (int n) logs
    = drop (length (lines_of logs x) - n) (lines_of logs x)"
proof -
  let ?ls = "lines_of logs x"
  let ?o = "if int (length ?ls) - int n < 0 then 0 else int (length ?ls) - int n"
  have o: "nat ?o = length ?ls - n" "0 \<le> ?o" by auto
  have w: "wrap64 (?o + int n) = ?o + int n" using assms by (auto simp: wrap64_def)
  show ?thesis
  proof (cases "?o \<ge> int (length ?ls)")
    case True
    then show ?thesis using assms(1) by (auto simp: log_get_def get_lines_def line_count_def Let_def)
  next
    case False
    have "\<not> (?o + int n < int (length ?ls))" by auto
    then have "get_lines x ?o (int n) logs =
        Some (take (nat (int (length ?ls)) - nat ?o) (drop (nat ?o) ?ls), int (length ?ls))"
      using False w o(2) by (simp add: get_lines_def Let_def del: nat_int)
    then show ?thesis unfolding log_get_def line_count_def using o(1) by (auto split: if_splits)
  qed
qed

text \<open>In the review nothing of the infrastructure is left, and it starts at a heading.\<close>

lemma review_lines_spec:
  "review_lines False cs =
     filter (\<lambda>c. \<not> has_prefix ''[SYS]'' c \<and> \<not> has_prefix ''[ERR]'' c) (dropWhile (\<lambda>c. \<not> has_prefix ''##'' c) cs)"
proof -
  have "review_lines True cs = filter (\<lambda>c. \<not> has_prefix ''[SYS]'' c \<and> \<not> has_prefix ''[ERR]'' c) cs" for cs
    by (induction cs) simp_all
  then show ?thesis by (induction cs) simp_all
qed

end
