(* ===== verification/Worker_Service.thy ===== *)
theory Worker_Service
  imports Scheduler_Service Scheduler_Properties Dispatcher Build_Comment
begin

text \<open>
  The worker service, \<open>cmd/master/grpc_worker.go\<close>: registration, heartbeats and results.  The
  goroutines that \<open>ReportTaskResult\<close> starts are returned as values of \<open>job\<close>; \<open>run_job\<close> is what one of
  them does later, with the scheduler and the dispatcher it then finds.  The stream of heartbeats is
  the list of messages received; dereferencing an absent capacity is a panic.
\<close>

section \<open>Registration and heartbeats\<close>

record pb_capacity =
  pc_TotalCpuMillicores :: u32
  pc_AvailableCpuMillicores :: u32
  pc_TotalMemoryMb :: u32
  pc_AvailableMemoryMb :: u32
  pc_TotalDiskMb :: u32
  pc_AvailableDiskMb :: u32
  pc_MaxTasks :: u32
  pc_RunningTasks :: u32

record register_request =
  rq_WorkerId :: "string option"
  rq_Capacity :: "pb_capacity option"
  rq_SupportedPlatforms :: "string list"
  rq_Labels :: "(string, string) gomap"

definition set_registry :: "registry \<Rightarrow> scheduler \<Rightarrow> scheduler" where
  "set_registry r s = s\<lparr> s_registry := r \<rparr>"

definition info_of_request :: "string \<Rightarrow> pb_capacity \<Rightarrow> register_request \<Rightarrow> info" where
  "info_of_request x c req = \<lparr> wi_ID = x, wi_Platforms = rq_SupportedPlatforms req,
     wi_Labels = rq_Labels req, wi_TotalCPU = pc_TotalCpuMillicores c,
     wi_AvailableCPU = pc_AvailableCpuMillicores c, wi_TotalMemoryMB = pc_TotalMemoryMb c,
     wi_AvailableMemoryMB = pc_AvailableMemoryMb c, wi_TotalDiskMB = pc_TotalDiskMb c,
     wi_AvailableDiskMB = pc_AvailableDiskMb c, wi_RunningTasks = pc_RunningTasks c,
     wi_MaxTasks = pc_MaxTasks c, wi_LastHeartbeat = 0, wi_RegisteredAt = 0, wi_State = WorkerActive \<rparr>"

definition rpc_register :: "time \<Rightarrow> register_request \<Rightarrow> scheduler \<Rightarrow> scheduler \<times> (rpc_status + bool)" where
  "rpc_register now req s =
     (case rq_WorkerId req of
        None \<Rightarrow> (s, Inl (RpcStatus InvalidArgument ''worker_id is required''))
      | Some x \<Rightarrow>
     (if x = [] then (s, Inl (RpcStatus InvalidArgument ''worker_id is required''))
      else case rq_Capacity req of
        None \<Rightarrow> (s, Inl (RpcStatus InvalidArgument ''capacity is required''))
      | Some c \<Rightarrow>
          (case register now (info_of_request x c req) (s_registry s) of
             Inl _ \<Rightarrow> (s, Inl (RpcStatus AlreadyExists []))
           | Inr r \<Rightarrow> (set_registry r s, Inr True))))"

record heartbeat_request =
  hr_WorkerId :: "string option"
  hr_Capacity :: "pb_capacity option"
  hr_now :: time

text \<open>What \<open>stream.Recv\<close> returns, in order; the end of the list is the end of the stream.\<close>

datatype heartbeat_message = Received heartbeat_request | ReceiveError

datatype stream_end = StreamDone | StreamError | StreamPanic

fun rpc_heartbeat ::
    "(string \<Rightarrow> bool) \<Rightarrow> heartbeat_message list \<Rightarrow> scheduler \<Rightarrow> scheduler \<times> stream_end" where
  "rpc_heartbeat send_ok [] s = (s, StreamDone)"
| "rpc_heartbeat send_ok (ReceiveError # ms) s = (s, StreamError)"
| "rpc_heartbeat send_ok (Received req # ms) s =
     (case hr_WorkerId req of
        None \<Rightarrow> rpc_heartbeat send_ok ms s
      | Some x \<Rightarrow>
     (case hr_Capacity req of
        None \<Rightarrow> (s, StreamPanic)
      | Some c \<Rightarrow>
     (case heartbeat (hr_now req) x \<lparr> cap_AvailableCPU = pc_AvailableCpuMillicores c,
             cap_AvailableMemoryMB = pc_AvailableMemoryMb c, cap_AvailableDiskMB = pc_AvailableDiskMb c,
             cap_RunningTasks = pc_RunningTasks c \<rparr> (s_registry s) of
        Inl _ \<Rightarrow> rpc_heartbeat send_ok ms s
      | Inr r \<Rightarrow>
          if send_ok x then rpc_heartbeat send_ok ms (set_registry r s)
          else (set_registry r s, StreamError))))"

section \<open>Reports to the git host\<close>

record worker_server =
  wv_router :: router
  wv_publicURL :: string
  wv_logs :: "log_store option"

definition report_task_status ::
    "worker_server \<Rightarrow> string \<Rightarrow> string \<Rightarrow> status_state \<Rightarrow> string \<Rightarrow> scheduler \<Rightarrow> scm_call list" where
  "report_task_status srv buildID taskName state descr s =
     (case get_build buildID s of
        None \<Rightarrow> []
      | Some b \<Rightarrow>
          if b_SCMToken b = [] \<or> b_CommitSHA b = [] \<or> b_RepoFullName b = [] then []
          else case get_client (wv_router srv) (b_SCMProvider b) of
            None \<Rightarrow> []
          | Some c \<Rightarrow> [StatusCall c (b_SCMToken b) \<lparr> sr_Provider = b_SCMProvider b,
              sr_RepoFullName = b_RepoFullName b, sr_CommitSHA = b_CommitSHA b, sr_State = state,
              sr_Context = ''ci/'' @ taskName, sr_Description = descr,
              sr_TargetURL = target_url (wv_publicURL srv) buildID \<rparr>])"

definition report_build_completion ::
    "worker_server \<Rightarrow> (graph \<Rightarrow> string list) \<Rightarrow> build_completion \<Rightarrow> scm_call list" where
  "report_build_completion srv keys c =
     (case bc_Build c of
        None \<Rightarrow> []
      | Some b \<Rightarrow>
          if b_SCMToken b = [] \<or> b_CommitSHA b = [] \<or> b_RepoFullName b = [] then []
          else case get_client (wv_router srv) (b_SCMProvider b) of
            None \<Rightarrow> []
          | Some cl \<Rightarrow>
              let (state, descr) = (if bc_Passed c then (StatusSuccess, ''Build passed'')
                                    else (StatusFailure, ''Build failed''));
                  targetURL = target_url (wv_publicURL srv) (b_ID b)
              in StatusCall cl (b_SCMToken b) \<lparr> sr_Provider = b_SCMProvider b,
                   sr_RepoFullName = b_RepoFullName b, sr_CommitSHA = b_CommitSHA b, sr_State = state,
                   sr_Context = ''ci/build'', sr_Description = descr, sr_TargetURL = targetURL \<rparr>
                 # (if b_PRNumber b \<noteq> []
                    then [CommentCall cl (b_SCMToken b) \<lparr> pc_RepoFullName = b_RepoFullName b,
                      pc_PRNumber = b_PRNumber b,
                      pc_Body = build_pr_comment (wv_logs srv) (keys (b_Graph b)) (bc_Passed c) b targetURL \<rparr>]
                    else []))"

section \<open>Cleaning up\<close>

text \<open>The loop over the workers of the build; the addresses asked to clean up are returned.\<close>

fun cleanup_workers :: "dial_env \<Rightarrow> registry \<Rightarrow> string list \<Rightarrow> dispatcher \<Rightarrow> dispatcher \<times> string list" where
  "cleanup_workers env r [] d = (d, [])"
| "cleanup_workers env r (w # ws) d =
     (case get_worker_client env w r d of
        (d', Inl _) \<Rightarrow> cleanup_workers env r ws d'
      | (d', Inr addr) \<Rightarrow> (case cleanup_workers env r ws d' of (d'', addrs) \<Rightarrow> (d'', addr # addrs)))"

text \<open>Without a dispatcher nothing is done, and the workers of the build are not forgotten.\<close>

definition cleanup_build_volumes ::
    "dial_env \<Rightarrow> string \<Rightarrow> scheduler \<Rightarrow> dispatcher option \<Rightarrow> scheduler \<times> dispatcher option \<times> string list" where
  "cleanup_build_volumes env buildID s disp =
     (case disp of
        None \<Rightarrow> (s, None, [])
      | Some d \<Rightarrow>
          (case build_workers buildID s of
             (s', ws) \<Rightarrow>
               (case cleanup_workers env (s_registry s') ws d of (d', addrs) \<Rightarrow> (s', Some d', addrs))))"

section \<open>Results\<close>

record pb_result =
  px_Task :: "string option"
  px_Reported :: pb_task_state
  px_Exit :: u32
  px_ErrorMessage :: string

datatype job =
    TaskStatusJob string string status_state string
  | CompletionJob build_completion
  | CleanupJob string

definition task_name_of :: "string \<Rightarrow> string \<Rightarrow> scheduler \<Rightarrow> string" where
  "task_name_of buildID taskID s =
     (case get_build buildID s of
        None \<Rightarrow> taskID
      | Some b \<Rightarrow> (case get_task (b_Graph b) taskID of
          None \<Rightarrow> taskID | Some t \<Rightarrow> if t_Name t \<noteq> [] then t_Name t else taskID))"

fun task_status_jobs :: "string \<Rightarrow> string \<Rightarrow> task_state \<Rightarrow> job list" where
  "task_status_jobs b n TaskPassed = [TaskStatusJob b n StatusSuccess ''Passed'']"
| "task_status_jobs b n TaskFailed = [TaskStatusJob b n StatusFailure ''Failed'']"
| "task_status_jobs b n TaskTimedOut = [TaskStatusJob b n StatusFailure ''Timed out'']"
| "task_status_jobs b n TaskCancelled = [TaskStatusJob b n StatusError ''Cancelled'']"
| "task_status_jobs b n _ = []"

definition report_of :: "string \<Rightarrow> string \<Rightarrow> pb_result \<Rightarrow> task_result_report" where
  "report_of buildID taskID res = \<lparr> rr_BuildID = buildID, rr_TaskID = taskID,
     rr_State = proto_to_task_state (px_Reported res), rr_ExitCode = sint (px_Exit res),
     rr_Error = px_ErrorMessage res \<rparr>"

text \<open>\<open>kids g x\<close> is the order in which the loops of \<open>Complete\<close> visit the children of \<open>x\<close>.\<close>

definition rpc_report_result ::
    "(graph \<Rightarrow> string \<Rightarrow> string list) \<Rightarrow> time \<Rightarrow> time \<Rightarrow> pb_result option \<Rightarrow> scheduler
       \<Rightarrow> scheduler \<times> job list \<times> (rpc_status + unit)" where
  "rpc_report_result kids now now' result s =
     (case result of
        None \<Rightarrow> (s, [], Inl (RpcStatus InvalidArgument ''result with task_id is required''))
      | Some res \<Rightarrow>
     (case px_Task res of
        None \<Rightarrow> (s, [], Inl (RpcStatus InvalidArgument ''result with task_id is required''))
      | Some taskID \<Rightarrow>
     (case find_build_by_task taskID s of
        None \<Rightarrow> (s, [], Inl (RpcStatus NotFound (''no build found for task '')))
      | Some buildID \<Rightarrow>
     (case handle_task_result (kids (build_graph s buildID)) (kids (build_graph s buildID) taskID) now now'
             (report_of buildID taskID res) s of
        (s', Inl _) \<Rightarrow> (s', [], Inl (RpcStatus Internal ''handling task result: ''))
      | (s', Inr completion) \<Rightarrow>
          (s',
           task_status_jobs buildID (task_name_of buildID taskID s') (proto_to_task_state (px_Reported res))
             @ (if bc_BuildID completion \<noteq> []
                then [CompletionJob completion, CleanupJob (bc_BuildID completion)] else []),
           Inr ())))))"

definition run_job ::
    "worker_server \<Rightarrow> (graph \<Rightarrow> string list) \<Rightarrow> dial_env \<Rightarrow> job \<Rightarrow> scheduler \<Rightarrow> dispatcher option
       \<Rightarrow> scheduler \<times> dispatcher option \<times> scm_call list \<times> string list" where
  "run_job srv keys env j s disp =
     (case j of
        TaskStatusJob buildID taskName state descr \<Rightarrow>
          (s, disp, report_task_status srv buildID taskName state descr s, [])
      | CompletionJob c \<Rightarrow> (s, disp, report_build_completion srv keys c, [])
      | CleanupJob buildID \<Rightarrow>
          (case cleanup_build_volumes env buildID s disp of (s', disp', addrs) \<Rightarrow> (s', disp', [], addrs)))"

section \<open>Every handler is a run of the scheduler\<close>

lemma step_set_registry: "sched_step s (set_registry r s)"
  unfolding set_registry_def by (rule sched_step.registry)

lemma rpc_register_steps: "rpc_register now req s = (s', out) \<Longrightarrow> sched_step\<^sup>*\<^sup>* s s'"
  by (auto simp: rpc_register_def step_set_registry split: option.splits if_splits sum.splits)

lemma rpc_heartbeat_steps: "rpc_heartbeat send_ok ms s = (s', e) \<Longrightarrow> sched_step\<^sup>*\<^sup>* s s'"
proof (induction ms arbitrary: s)
  case (Cons m ms)
  have step: "sched_step\<^sup>*\<^sup>* s s'" if "rpc_heartbeat send_ok ms (set_registry r s) = (s', e)" for r
    using step_set_registry Cons.IH [OF that] by (rule converse_rtranclp_into_rtranclp)
  show ?case
  proof (cases m)
    case (Received req)
    then show ?thesis
      using Cons.prems by (auto split: option.splits sum.splits if_splits intro: Cons.IH step step_set_registry)
  qed (use Cons.prems in simp)
qed simp

definition kids_ok :: "(graph \<Rightarrow> string \<Rightarrow> string list) \<Rightarrow> bool" where
  "kids_ok kids \<longleftrightarrow> (\<forall>g. wf_graph g \<longrightarrow> child_order g (kids g)
     \<and> (\<forall>x. distinct (kids g x) \<and> set (kids g x) = set (children g x)))"

lemma kids_ok_children: "kids_ok children"
  by (simp add: kids_ok_def child_order_children wf_distinct_children)

lemma kids_okD: "kids_ok kids \<Longrightarrow> wf_graph g \<Longrightarrow>
    child_order g (kids g) \<and> distinct (kids g x) \<and> set (kids g x) = set (children g x)"
  by (simp add: kids_ok_def)

lemma sched_reach_wf:
  assumes "sched_reach s" "gget (s_builds s) x = Some b"
  shows "wf_graph (b_Graph b)"
  using sched_reach_fresh [OF assms] graph_run_wf by (auto simp: from_fresh_def)

lemma reportable_proto: "reportable (proto_to_task_state p)"
  unfolding reportable_def by (rule reported_state)

lemma report_fields [simp]:
  "rr_BuildID (report_of b x res) = b" "rr_TaskID (report_of b x res) = x"
  "rr_State (report_of b x res) = proto_to_task_state (px_Reported res)"
  by (simp_all add: report_of_def)

lemma report_orders:
  assumes "sched_reach s" "kids_ok kids" "gget (s_builds s) bid = Some b"
  shows "child_order (b_Graph b) (kids (build_graph s bid)) \<and> distinct (kids (build_graph s bid) x)
    \<and> set (kids (build_graph s bid) x) = set (children (b_Graph b) x)"
  using kids_okD [OF assms(2) sched_reach_wf [OF assms(1,3)]] assms(3) by (simp add: build_graph_def)

lemma rpc_report_result_steps:
  assumes "rpc_report_result kids now now' result s = (s', jobs, out)" "sched_reach s" "kids_ok kids"
  shows "sched_step\<^sup>*\<^sup>* s s'"
proof -
  have step: "sched_step s s1"
    if h: "handle_task_result (kids (build_graph s b)) (kids (build_graph s b) x) now now' (report_of b x res) s
      = (s1, r)" for b x res s1 r
    by (rule sched_step.result [OF _ _ h])
      (use report_orders [OF assms(2,3)] in \<open>simp_all add: reportable_proto\<close>)
  show ?thesis
    using assms(1) unfolding rpc_report_result_def
    by (auto split: option.splits prod.splits sum.splits dest: step)
qed

lemma run_job_steps: "run_job srv keys env j s disp = (s', disp', calls, addrs) \<Longrightarrow> sched_step\<^sup>*\<^sup>* s s'"
  using sched_step.workers [of s]
  by (auto simp: run_job_def cleanup_build_volumes_def build_workers_def
      split: job.splits option.splits prod.splits)

section \<open>Properties\<close>

lemma not_in_status_jobs [simp]:
  "CleanupJob z \<notin> set (task_status_jobs b n st)" "CompletionJob c \<notin> set (task_status_jobs b n st)"
  by (cases st; simp)+

lemma report_outcome:
  assumes "sched_reach s" "px_Task res = Some x" "find_build_by_task x s = Some bid"
    and "gget (s_builds s) bid = Some b" "bid \<noteq> []" "gget (g_tasks (b_Graph b)) x = Some t"
    and "is_terminal (proto_to_task_state (px_Reported res))"
    and "rpc_report_result kids now now' (Some res) s = (s', jobs, out)"
  shows "case out of
      Inl e \<Rightarrow> e = RpcStatus Internal ''handling task result: '' \<and> jobs = [] \<and> s_builds s' = s_builds s
        \<and> \<not> can_transition_to t (proto_to_task_state (px_Reported res))
    | Inr u \<Rightarrow> (\<exists>b'. gget (s_builds s') bid = Some b'
        \<and> state_in (g_tasks (b_Graph b')) x = Some (proto_to_task_state (px_Reported res))
        \<and> (CleanupJob bid \<in> set jobs \<longleftrightarrow> is_complete (b_Graph b'))
        \<and> (\<forall>c. CompletionJob c \<in> set jobs \<longleftrightarrow> is_complete (b_Graph b') \<and>
              c = \<lparr> bc_BuildID = bid, bc_Passed = is_passed (b_Graph b'), bc_Build = Some b' \<rparr>))"
proof -
  let ?rep = "report_of bid x res" and ?g = "build_graph s bid"
  obtain s1 r where h: "handle_task_result (kids ?g) (kids ?g x) now now' ?rep s = (s1, r)"
    by (cases "handle_task_result (kids ?g) (kids ?g x) now now' ?rep s")
  have key: "b_ID b = bid" using keyed_buildsD [OF sched_reach_keyed [OF assms(1)] assms(4)] .
  have n: "b_ID b \<noteq> []" using key assms(5) by simp
  note o = conjunct2 [OF handle_result_outcome [of s ?rep b t "kids ?g" "kids ?g x" now now' s1 r,
    unfolded report_fields, OF assms(4) key n assms(6,7) h]]
  show ?thesis
  proof (cases r)
    case (Inl e)
    then show ?thesis using assms(2,3,8) h o by (auto simp: rpc_report_result_def)
  next
    case (Inr c)
    then obtain b' where b': "gget (s_builds s1) bid = Some b'"
      "state_in (g_tasks (b_Graph b')) x = Some (proto_to_task_state (px_Reported res))"
      "bc_BuildID c \<noteq> [] \<longleftrightarrow> is_complete (b_Graph b')"
      "is_complete (b_Graph b') \<longrightarrow> c = \<lparr> bc_BuildID = bid, bc_Passed = is_passed (b_Graph b'), bc_Build = Some b' \<rparr>"
      using o key by auto
    have r: "s' = s1" "out = Inr ()"
      "jobs = task_status_jobs bid (task_name_of bid x s1) (proto_to_task_state (px_Reported res))
        @ (if bc_BuildID c \<noteq> [] then [CompletionJob c, CleanupJob (bc_BuildID c)] else [])"
      using assms(2,3,8) h Inr by (auto simp: rpc_report_result_def)
    show ?thesis unfolding r sum.case using b' assms(5) by auto
  qed
qed

text \<open>C14. What a worker's report does: for a final state of a task of a known build, either the report
  is refused with an internal error, no build changes and nothing is started, because the task is in
  no state that may end so; or the task is in the reported state, and the end of the build is
  announced, with the verdict of the graph, and the cleaning up of its volumes started, exactly when
  every task of the build is in a final state.\<close>

theorem task_report_outcome:
  assumes "sched_reach s" "px_Task res = Some x" "find_build_by_task x s = Some bid"
    and "gget (s_builds s) bid = Some b" "bid \<noteq> []" "gget (g_tasks (b_Graph b)) x = Some t"
    and "is_terminal (proto_to_task_state (px_Reported res))"
    and "rpc_report_result kids now now' (Some res) s = (s', jobs, out)"
  shows "case out of
      Inl e \<Rightarrow> e = RpcStatus Internal ''handling task result: '' \<and> jobs = [] \<and> s_builds s' = s_builds s
        \<and> \<not> can_transition_to t (proto_to_task_state (px_Reported res))
    | Inr u \<Rightarrow> (\<exists>b'. gget (s_builds s') bid = Some b'
        \<and> state_in (g_tasks (b_Graph b')) x = Some (proto_to_task_state (px_Reported res))
        \<and> (CleanupJob bid \<in> set jobs \<longleftrightarrow> is_complete (b_Graph b'))
        \<and> (\<forall>c. CompletionJob c \<in> set jobs \<longleftrightarrow> is_complete (b_Graph b') \<and>
              c = \<lparr> bc_BuildID = bid, bc_Passed = is_passed (b_Graph b'), bc_Build = Some b' \<rparr>))"
  using assms by (rule report_outcome)

text \<open>A report that is not final takes the task's reservation away: a worker that reports a task
  as running, pending or scheduled gets an internal error and no build changes, but the capacity
  reserved for the task is given back and the task is no longer known to run on the worker.\<close>

theorem unfinished_report_frees_worker:
  assumes "px_Task res = Some x" "find_build_by_task x s = Some bid"
    and "gget (s_builds s) bid = Some b" "gget (g_tasks (b_Graph b)) x = Some t"
    and "gget (s_taskWorker s) x = Some w" "\<not> is_terminal (proto_to_task_state (px_Reported res))"
  shows "\<exists>s'. rpc_report_result kids now now' (Some res) s
      = (s', [], Inl (RpcStatus Internal ''handling task result: ''))
    \<and> s_builds s' = s_builds s \<and> gget (s_taskWorker s') x = None
    \<and> s_registry s' = release_capacity w (task_demand t) (s_registry s)"
proof -
  have p: "proto_to_task_state (px_Reported res) = TaskPending" using assms(6) reported_state by blast
  obtain e where e: "complete (kids (b_Graph b)) (kids (b_Graph b) x) now x TaskPending
      (rr_ExitCode (report_of bid x res)) (rr_Error (report_of bid x res)) (b_Graph b) = Inl e"
    using complete_pending by (metis sum.exhaust)
  have "build_graph s bid = b_Graph b" using assms(3) by (simp add: build_graph_def)
  then have "handle_task_result (kids (build_graph s bid)) (kids (build_graph s bid) x) now now' (report_of bid x res) s
      = (release_task x t s, Inl (CompletingTask x e))"
    using assms(3,4) e by (simp add: handle_task_result_def get_task_def p Let_def)
  then show ?thesis
    using assms(1,2,5) by (simp add: rpc_report_result_def release_task_def)
qed

definition running_build :: scheduler where
  "running_build = fst (schedule (small_env True) [''b1''] one_build)"

definition small_result :: "pb_task_state \<Rightarrow> pb_result" where
  "small_result st = \<lparr> px_Task = Some ''clone'', px_Reported = st, px_Exit = 0, px_ErrorMessage = [] \<rparr>"

definition small_report :: "pb_task_state \<Rightarrow> scheduler \<times> job list \<times> (rpc_status + unit)" where
  "small_report st = rpc_report_result children 7 8 (Some (small_result st)) running_build"

definition running_b1 :: build where
  "running_b1 = (case gget (s_builds running_build) ''b1'' of Some b \<Rightarrow> b)"

definition running_clone :: task where
  "running_clone = (case gget (g_tasks (b_Graph running_b1)) ''clone'' of Some t \<Rightarrow> t)"

lemma running_build_facts:
  "find_build_by_task ''clone'' running_build = Some ''b1''"
  "gget (s_builds running_build) ''b1'' = Some running_b1"
  "gget (g_tasks (b_Graph running_b1)) ''clone'' = Some running_clone"
  "gget (s_taskWorker running_build) ''clone'' = Some ''w''"
  by code_simp+

theorem task_report_outcome_witness:
  "\<exists>b'. gget (s_builds (fst (small_report TASK_STATE_PASSED))) ''b1'' = Some b'
     \<and> state_in (g_tasks (b_Graph b')) ''clone'' = Some TaskPassed \<and> is_complete (b_Graph b')
     \<and> CleanupJob ''b1'' \<in> set (fst (snd (small_report TASK_STATE_PASSED)))"
proof -
  have o: "snd (snd (small_report TASK_STATE_PASSED)) = Inr ()" by code_simp
  then have e: "rpc_report_result children 7 8 (Some (small_result TASK_STATE_PASSED)) running_build
      = (fst (small_report TASK_STATE_PASSED), fst (snd (small_report TASK_STATE_PASSED)), Inr ())"
    unfolding small_report_def by (metis prod.collapse)
  have r: "sched_reach running_build" unfolding running_build_def by (rule one_build_cycle)
  have j: "CleanupJob ''b1'' \<in> set (fst (snd (small_report TASK_STATE_PASSED)))" by code_simp
  show ?thesis
    using task_report_outcome [OF r _ running_build_facts(1,2) _ running_build_facts(3) _ e] j
    by (auto simp: small_result_def)
qed

theorem unfinished_report_frees_worker_witness:
  "s_builds (fst (small_report TASK_STATE_RUNNING)) = s_builds running_build
   \<and> gget (s_taskWorker (fst (small_report TASK_STATE_RUNNING))) ''clone'' = None
   \<and> s_registry (fst (small_report TASK_STATE_RUNNING))
       = release_capacity ''w'' (task_demand running_clone) (s_registry running_build)"
  using unfinished_report_frees_worker [of "small_result TASK_STATE_RUNNING", OF _ running_build_facts,
      of children 7 8]
  by (auto simp: small_result_def small_report_def)

end
