(* ===== verification/Log_Service.thy ===== *)
theory Log_Service
  imports Log_Properties Proto
begin

text \<open>
  The log services, \<open>cmd/master/grpc_logs.go\<close> and \<open>http_logs.go\<close>: workers push lines, readers follow a
  task's log or fetch a page.  A stream is the list of the messages received; a panic of the store is
  \<open>None\<close> or \<open>StreamPanicked\<close>.  Following is a loop over a channel: \<open>follow_next\<close> is one turn of it.
\<close>

section \<open>Pushing\<close>

record pushed_line =
  pu_Content :: string
  pu_Stream :: pb_log_stream
  pu_Timestamp :: "time option"

record push_log_request =
  pq_TaskId :: "string option"
  pq_Lines :: "pushed_line list"
  pq_now :: time

datatype push_message = PushReceived push_log_request | PushError

definition line_of_pushed :: "pushed_line \<Rightarrow> line" where
  "line_of_pushed l = \<lparr> ln_TaskID = [], ln_LineNumber = 0,
     ln_Timestamp = (case pu_Timestamp l of None \<Rightarrow> 0 | Some t \<Rightarrow> t), ln_Content = pu_Content l,
     ln_Stream = proto_to_log_stream (pu_Stream l) \<rparr>"

text \<open>The flag says that the stream ended as it should.\<close>

fun push_logs :: "push_message list \<Rightarrow> log_store \<Rightarrow> log_store \<times> bool" where
  "push_logs [] s = (s, True)"
| "push_logs (PushError # ms) s = (s, False)"
| "push_logs (PushReceived req # ms) s =
     (case pq_TaskId req of
        None \<Rightarrow> push_logs ms s
      | Some x \<Rightarrow> push_logs ms (append_lines (pq_now req) x (map line_of_pushed (pq_Lines req)) s))"

section \<open>Reading\<close>

record log_request =
  lq_BuildId :: "string option"
  lq_TaskId :: "string option"
  lq_Follow :: bool
  lq_From :: int
  lq_Limit :: int

definition requested_task :: "log_request \<Rightarrow> string" where
  "requested_task req = (case lq_TaskId req of None \<Rightarrow> [] | Some x \<Rightarrow> x)"

fun send_lines :: "(pb_log_line \<Rightarrow> bool) \<Rightarrow> line list \<Rightarrow> pb_log_line list \<times> bool" where
  "send_lines accepts [] = ([], True)"
| "send_lines accepts (l # ls) =
     (if accepts (log_line_to_proto l)
      then case send_lines accepts ls of (sent, ok) \<Rightarrow> (log_line_to_proto l # sent, ok)
      else ([], False))"

datatype stream_result =
    StreamStatus rpc_status
  | SentBatch "pb_log_line list" bool
  | Following log_store nat
  | StreamPanicked

definition stream_logs :: "(pb_log_line \<Rightarrow> bool) \<Rightarrow> log_request \<Rightarrow> log_store \<Rightarrow> stream_result" where
  "stream_logs accepts req s =
     (case lq_BuildId req of
        None \<Rightarrow> StreamStatus (RpcStatus InvalidArgument ''build_id is required'')
      | Some _ \<Rightarrow>
          let x = requested_task req
          in if x = [] then StreamStatus (RpcStatus InvalidArgument ''task_id is required for streaming'')
             else if lq_Follow req \<and> \<not> is_log_complete x s then
               (case subscribe x (lq_From req) s of
                  None \<Rightarrow> StreamPanicked
                | Some (Inl _) \<Rightarrow> StreamStatus (RpcStatus FailedPrecondition [])
                | Some (Inr (s', i)) \<Rightarrow> Following s' i)
             else
               (case get_lines x (lq_From req) 0 s of
                  None \<Rightarrow> StreamPanicked
                | Some (ls, _) \<Rightarrow> (case send_lines accepts ls of (sent, ok) \<Rightarrow> SentBatch sent ok)))"

text \<open>One turn of the loop over the channel of subscription \<open>i\<close>.\<close>

datatype follow_turn = Forwarded pb_log_line log_store | SendFailed log_store | Ended | Blocked

definition follow_next :: "(pb_log_line \<Rightarrow> bool) \<Rightarrow> nat \<Rightarrow> log_store \<Rightarrow> follow_turn" where
  "follow_next accepts i s =
     (case receive i s of
        Some (l, s') \<Rightarrow>
          if accepts (log_line_to_proto l) then Forwarded (log_line_to_proto l) s'
          else SendFailed (s'\<lparr> ls_heap := update_subs close_subscriber [i] (ls_heap s') \<rparr>)
      | None \<Rightarrow> if sb_closed (ls_heap s ! i) then Ended else Blocked)"

definition get_logs :: "log_request \<Rightarrow> log_store \<Rightarrow> (rpc_status + (pb_log_line list \<times> int)) option" where
  "get_logs req s =
     (case lq_BuildId req of
        None \<Rightarrow> Some (Inl (RpcStatus InvalidArgument ''build_id is required''))
      | Some _ \<Rightarrow>
          let x = requested_task req
          in if x = [] then Some (Inl (RpcStatus InvalidArgument ''task_id is required''))
             else map_option (\<lambda>(ls, total). Inr (map log_line_to_proto ls, total))
                    (get_lines x (lq_From req) (lq_Limit req) s))"

section \<open>The HTTP endpoint\<close>

record http_log_line =
  hl_Line :: int
  hl_Content :: string
  hl_Stream :: string

datatype http_logs =
    MethodNotAllowed
  | Usage
  | LogPage string int "http_log_line list"

fun http_stream_name :: "stream \<Rightarrow> string" where
  "http_stream_name StreamStderr = ''stderr''"
| "http_stream_name StreamSystem = ''system''"
| "http_stream_name StreamStdout = ''stdout''"

text \<open>The variable \<open>n\<close> of the code is declared and never assigned.\<close>

definition query_number :: "(string \<Rightarrow> int option) \<Rightarrow> string \<Rightarrow> int" where
  "query_number int64 v =
     (let n = 0 in if v \<noteq> [] then (case int64 v of Some _ \<Rightarrow> n | None \<Rightarrow> 0) else 0)"

definition handle_logs_http ::
    "(string \<Rightarrow> int option) \<Rightarrow> string \<Rightarrow> (string \<Rightarrow> string) \<Rightarrow> log_store \<Rightarrow> http_logs option" where
  "handle_logs_http int64 meth query s =
     (if meth \<noteq> ''GET'' then Some MethodNotAllowed
      else
        let taskID = query ''task_id''
        in if taskID = [] then Some Usage
           else map_option (\<lambda>(ls, total). LogPage taskID total
                  (map (\<lambda>l. \<lparr> hl_Line = ln_LineNumber l, hl_Content = ln_Content l,
                          hl_Stream = http_stream_name (ln_Stream l) \<rparr>) ls))
                (get_lines taskID (query_number int64 (query ''offset'')) (query_number int64 (query ''limit'')) s))"

section \<open>Properties\<close>

text \<open>The lines of a task among the messages received before the stream broke off.\<close>

fun pushed_for :: "string \<Rightarrow> push_message list \<Rightarrow> pushed_line list" where
  "pushed_for x [] = []"
| "pushed_for x (PushError # ms) = []"
| "pushed_for x (PushReceived req # ms) =
     (if pq_TaskId req = Some x then pq_Lines req @ pushed_for x ms else pushed_for x ms)"

lemma content_append:
  "map (\<lambda>l. (ln_Content l, ln_Stream l)) (lines_of (append_lines now y ls s) x)
     = map (\<lambda>l. (ln_Content l, ln_Stream l)) (lines_of s x)
       @ (if x = y then map (\<lambda>l. (ln_Content l, ln_Stream l)) ls else [])"
proof -
  have "map (\<lambda>l. (ln_Content l, ln_Stream l)) (number_lines now y n ls)
      = map (\<lambda>l. (ln_Content l, ln_Stream l)) ls" for n
    by (induction now y n ls rule: number_lines.induct) simp_all
  then show ?thesis by (simp add: lines_of_append)
qed

lemma push_logs_lines:
  assumes "push_logs ms s = (s', ok)"
  shows "map (\<lambda>l. (ln_Content l, ln_Stream l)) (lines_of s' x)
      = map (\<lambda>l. (ln_Content l, ln_Stream l)) (lines_of s x)
        @ map (\<lambda>l. (pu_Content l, proto_to_log_stream (pu_Stream l))) (pushed_for x ms)"
    and "numbered_at s x \<Longrightarrow> numbered_at s' x"
proof -
  have "map (\<lambda>l. (ln_Content l, ln_Stream l)) (lines_of s' x)
      = map (\<lambda>l. (ln_Content l, ln_Stream l)) (lines_of s x)
        @ map (\<lambda>l. (pu_Content l, proto_to_log_stream (pu_Stream l))) (pushed_for x ms)
    \<and> (numbered_at s x \<longrightarrow> numbered_at s' x)"
    using assms
  proof (induction ms s rule: push_logs.induct)
    case (3 req ms s)
    have c: "map (\<lambda>l. (ln_Content l, ln_Stream l)) (map line_of_pushed ls)
        = map (\<lambda>l. (pu_Content l, proto_to_log_stream (pu_Stream l))) ls" for ls
      by (simp add: line_of_pushed_def)
    show ?case
    proof (cases "pq_TaskId req")
      case None
      then show ?thesis using 3 by simp
    next
      case (Some y)
      then show ?thesis using 3(2) [OF Some] 3(3)
        by (auto simp: content_append c numbered_at_append simp del: map_map)
    qed
  qed simp_all
  then show "map (\<lambda>l. (ln_Content l, ln_Stream l)) (lines_of s' x)
      = map (\<lambda>l. (ln_Content l, ln_Stream l)) (lines_of s x)
        @ map (\<lambda>l. (pu_Content l, proto_to_log_stream (pu_Stream l))) (pushed_for x ms)"
    and "numbered_at s x \<Longrightarrow> numbered_at s' x" by blast+
qed

lemma pushes_readable:
  assumes "push_logs ms s = (s', ok)" "numbered_at s x" "x \<noteq> []"
    and "lq_BuildId req \<noteq> None" "lq_TaskId req = Some x" "lq_From req = 0" "lq_Limit req = 0"
  shows "\<exists>ls. get_logs req s' = Some (Inr (ls, int (length ls)))
    \<and> map pl_Content ls = map ln_Content (lines_of s x) @ map pu_Content (pushed_for x ms)
    \<and> map (proto_to_log_stream \<circ> pl_Stream) ls
        = map ln_Stream (lines_of s x) @ map (proto_to_log_stream \<circ> pu_Stream) (pushed_for x ms)
    \<and> map pl_LineNumber ls = map int [0 ..< length ls] \<and> (\<forall>l \<in> set ls. pl_TaskId l = x)"
proof -
  let ?ls = "lines_of s' x"
  note c = push_logs_lines(1) [OF assms(1), of x]
  have n: "numbered_at s' x" using push_logs_lines(2) [OF assms(1,2)] .
  have "get_lines x 0 0 s' = Some (?ls, int (length ?ls))"
    by (cases "?ls") (simp_all add: get_lines_def Let_def)
  then have "get_logs req s' = Some (Inr (map log_line_to_proto ?ls, int (length ?ls)))"
    using assms(3-7) by (auto simp: get_logs_def requested_task_def)
  moreover have "map ln_Content ?ls = map ln_Content (lines_of s x) @ map pu_Content (pushed_for x ms)"
    "map ln_Stream ?ls = map ln_Stream (lines_of s x)
       @ map (\<lambda>l. proto_to_log_stream (pu_Stream l)) (pushed_for x ms)"
    using arg_cong [OF c, of "map fst"] arg_cong [OF c, of "map snd"] by (simp_all add: comp_def)
  moreover have "map ln_LineNumber ?ls = map int [0 ..< length ?ls]"
    using n by (intro nth_equalityI) (simp_all add: numbered_at_def)
  moreover have "ln_TaskID l = x" if "l \<in> set ?ls" for l
    using that n by (auto simp: numbered_at_def in_set_conv_nth)
  ultimately show ?thesis
    by (intro exI [of _ "map log_line_to_proto ?ls"])
      (simp add: log_line_to_proto_def comp_def proto_log_stream)
qed

text \<open>C18. What a worker pushes is what a reader gets: after any sequence of pushed messages, for any
  tasks and even if the stream breaks off, \<open>GetLogs\<close> without offset and limit answers with the lines
  the task had, followed by exactly the lines pushed for it, in order, with their text and stream
  (an unspecified stream reads as standard output), numbered from 0 and labelled with the task, and with their number as the total.\<close>

theorem pushed_logs_readable:
  assumes "push_logs ms s = (s', ok)" "numbered_at s x" "x \<noteq> []"
    and "lq_BuildId req \<noteq> None" "lq_TaskId req = Some x" "lq_From req = 0" "lq_Limit req = 0"
  shows "\<exists>ls. get_logs req s' = Some (Inr (ls, int (length ls)))
    \<and> map pl_Content ls = map ln_Content (lines_of s x) @ map pu_Content (pushed_for x ms)
    \<and> map (proto_to_log_stream \<circ> pl_Stream) ls
        = map ln_Stream (lines_of s x) @ map (proto_to_log_stream \<circ> pu_Stream) (pushed_for x ms)
    \<and> map pl_LineNumber ls = map int [0 ..< length ls] \<and> (\<forall>l \<in> set ls. pl_TaskId l = x)"
  using assms by (rule pushes_readable)

definition small_push :: "push_message list" where
  "small_push = [PushReceived \<lparr> pq_TaskId = Some ''t'',
       pq_Lines = [\<lparr> pu_Content = ''a'', pu_Stream = LOG_STREAM_STDERR, pu_Timestamp = None \<rparr>], pq_now = 5 \<rparr>,
     PushReceived \<lparr> pq_TaskId = Some ''u'', pq_Lines = [], pq_now = 6 \<rparr>, PushError]"

definition small_log_request :: log_request where
  "small_log_request = \<lparr> lq_BuildId = Some ''b'', lq_TaskId = Some ''t'', lq_Follow = False, lq_From = 0, lq_Limit = 0 \<rparr>"

theorem pushed_logs_readable_witness:
  "\<exists>ls. get_logs small_log_request (fst (push_logs small_push new_log_store)) = Some (Inr (ls, 1))
     \<and> map pl_Content ls = [''a''] \<and> map pl_LineNumber ls = [0]"
proof -
  have e: "push_logs small_push new_log_store
      = (fst (push_logs small_push new_log_store), snd (push_logs small_push new_log_store))" by simp
  have n: "lines_of new_log_store ''t'' = []" by (simp add: new_log_store_def lines_of_def)
  then have "numbered_at new_log_store ''t''" by (simp add: numbered_at_def)
  from pushed_logs_readable [OF e this, of small_log_request] n
  obtain ls where g: "get_logs small_log_request (fst (push_logs small_push new_log_store))
      = Some (Inr (ls, int (length ls)))" "map pl_LineNumber ls = map int [0 ..< length ls]"
    and c: "map pl_Content ls = map pu_Content (pushed_for ''t'' small_push)"
    by (auto simp: small_log_request_def)
  have c': "map pl_Content ls = [''a'']" unfolding c by (simp add: small_push_def)
  then have "length ls = 1" by (metis One_nat_def length_map length_Cons list.size(3))
  then show ?thesis using g c' by auto
qed

text \<open>The page parameters of \<open>GET /logs\<close> have no effect: the answer is the same for every offset and
  every limit, and it is the whole log.\<close>

theorem http_paging_ignored:
  "handle_logs_http int64 meth query s
     = handle_logs_http int64 meth (query(''offset'' := u, ''limit'' := v)) s
   \<and> (meth = ''GET'' \<and> query ''task_id'' \<noteq> [] \<longrightarrow>
       (\<exists>ls. handle_logs_http int64 meth query s
            = Some (LogPage (query ''task_id'') (int (length (lines_of s (query ''task_id'')))) ls)
          \<and> map hl_Content ls = map ln_Content (lines_of s (query ''task_id''))))"
proof -
  have q: "query_number int64 w = 0" for w by (simp add: query_number_def split: option.split)
  have "get_lines x 0 0 s = Some (lines_of s x, int (length (lines_of s x)))" for x
    by (cases "lines_of s x") (simp_all add: get_lines_def Let_def)
  then show ?thesis by (simp add: handle_logs_http_def q Let_def comp_def)
qed

theorem http_paging_ignored_witness:
  "handle_logs_http (\<lambda>_. Some 1) ''GET'' (\<lambda>k. if k = ''task_id'' then ''t'' else ''1'')
       (append_lines 5 ''t'' [small_line ''a'', small_line ''b''] new_log_store)
   = handle_logs_http (\<lambda>_. Some 1) ''GET'' ((\<lambda>k. if k = ''task_id'' then ''t'' else ''1'')(''offset'' := [], ''limit'' := []))
       (append_lines 5 ''t'' [small_line ''a'', small_line ''b''] new_log_store)"
  by (rule conjunct1 [OF http_paging_ignored])

end
