(* ===== verification/Secrets_Service.thy ===== *)
theory Secrets_Service
  imports Secrets Proto
begin

text \<open>
  The secrets service, \<open>cmd/master/secrets_server.go\<close>, and the file of secrets the master loads when it
  starts, \<open>loadSecretsFile\<close> of \<open>main.go\<close>.  The service is specified by a map from scope and name to
  value (\<open>secrets_map\<close>): every operation is an operation on that map.
\<close>

section \<open>The service\<close>

text \<open>An unset or blank scope means the global one.\<close>

definition effective_scope :: "string \<Rightarrow> string" where
  "effective_scope scope = (if trim_space scope = [] then ''global'' else trim_space scope)"

definition rpc_get_secrets ::
    "string list \<Rightarrow> secret_store \<Rightarrow> rpc_status + (string, string) gomap" where
  "rpc_get_secrets names st =
     (case secret_get_multiple ''global'' names st of
        Inl _ \<Rightarrow> Inl (RpcStatus NotFound [])
      | Inr vals \<Rightarrow> Inr vals)"

definition rpc_put_secret ::
    "time \<Rightarrow> string \<Rightarrow> string \<Rightarrow> string \<Rightarrow> secret_store \<Rightarrow> secret_store \<times> (rpc_status + unit)" where
  "rpc_put_secret now scope name val st =
     (case secret_put now (effective_scope scope) name val ''cli'' st of
        Inl _ \<Rightarrow> (st, Inl (RpcStatus InvalidArgument []))
      | Inr st' \<Rightarrow> (st', Inr ()))"

definition rpc_delete_secret ::
    "string \<Rightarrow> string \<Rightarrow> secret_store \<Rightarrow> secret_store \<times> (rpc_status + unit)" where
  "rpc_delete_secret scope name st =
     (case secret_delete (effective_scope scope) name st of
        Inl _ \<Rightarrow> (st, Inl (RpcStatus NotFound []))
      | Inr st' \<Rightarrow> (st', Inr ()))"

record secret_metadata =
  sm_Name :: string
  sm_Scope :: string
  sm_CreatedBy :: string

definition rpc_list_secrets :: "string list \<Rightarrow> string \<Rightarrow> secret_store \<Rightarrow> secret_metadata list" where
  "rpc_list_secrets ks scope st =
     map (\<lambda>e. \<lparr> sm_Name = se_Name e, sm_Scope = se_Scope e, sm_CreatedBy = se_CreatedBy e \<rparr>)
       (secret_list ks (effective_scope scope) st)"

section \<open>The specification\<close>

definition secrets_map :: "secret_store \<Rightarrow> string \<times> string \<Rightarrow> string option" where
  "secrets_map st k = (case k of (scope, name) \<Rightarrow> map_option se_Value (gget (scope_of st scope) name))"

lemma secrets_map_put:
  "secret_put now scope name val who st = Inr st' \<Longrightarrow>
     secrets_map st' = (secrets_map st)((scope, name) \<mapsto> val)"
  by (rule ext) (auto simp: secret_put_def secrets_map_def scope_of_def split: if_splits option.splits)

lemma secrets_map_delete:
  assumes "secret_delete scope name st = Inr st'"
  shows "secrets_map st' = (secrets_map st)((scope, name) := None)"
proof -
  obtain m where m: "gget st scope = Some m" "gget m name \<noteq> None"
    "st' = (if gdel name m = [] then gdel scope st else gput scope (gdel name m) st)"
    using assms by (auto simp: secret_delete_def Let_def split: option.splits if_splits)
  have e: "gget m n = None" if "gdel name m = []" "n \<noteq> name" for n
    using gget_gdel [of name m n] that by simp
  show ?thesis
  proof (rule ext, clarify)
    fix sc n
    show "secrets_map st' (sc, n) = ((secrets_map st)((scope, name) := None)) (sc, n)"
    proof (cases "gdel name m = []")
      case True
      then show ?thesis using m e [OF True, of n] by (auto simp: secrets_map_def scope_of_def)
    next
      case False
      then show ?thesis using m by (auto simp: secrets_map_def scope_of_def)
    qed
  qed
qed

lemma secrets_map_delete_fails:
  "secret_delete scope name st = Inl e \<Longrightarrow> secrets_map st (scope, name) = None"
  by (auto simp: secret_delete_def secrets_map_def scope_of_def Let_def split: option.splits if_splits)

lemma collect_secrets_spec:
  "collect_secrets scope m names res = Inr vals \<Longrightarrow>
     gget vals n = (if n \<in> set names then map_option se_Value (case m of None \<Rightarrow> None | Some m' \<Rightarrow> gget m' n)
       else gget res n)"
proof (induction names arbitrary: res)
  case (Cons x names)
  then obtain m' e where "m = Some m'" "gget m' x = Some e"
    "collect_secrets scope m names (gput x (se_Value e) res) = Inr vals"
    by (auto split: option.splits)
  then show ?case using Cons.IH by auto
qed simp

lemma collect_all: "collect_secrets scope m names res = Inr vals \<Longrightarrow> n \<in> set names \<Longrightarrow>
    (case m of None \<Rightarrow> None | Some m' \<Rightarrow> gget m' n) \<noteq> None"
  by (induction names arbitrary: res) (auto split: option.splits)

lemma collect_secrets_fails:
  "collect_secrets scope m names res = Inl e \<Longrightarrow>
     \<exists>n \<in> set names. (case m of None \<Rightarrow> None | Some m' \<Rightarrow> gget m' n) = None"
  by (induction names arbitrary: res) (auto split: option.splits)

lemma scope_of_option: "gget (scope_of st scope) n = (case gget st scope of None \<Rightarrow> None | Some m \<Rightarrow> gget m n)"
  by (simp add: scope_of_def split: option.split)

text \<open>C15. The service refines a map from scope and name to value. \<open>PutSecret\<close> updates the map at the
  effective scope and name, or refuses an empty name or value and changes nothing; \<open>DeleteSecret\<close>
  removes the entry, or answers that there is none; \<open>GetSecrets\<close> answers with exactly the requested
  names and the map's vals for them in the global scope, or fails if one is missing. Secrets of
  other scopes are never handed out.\<close>

theorem secrets_service_refines_map:
  "(case rpc_put_secret now scope name val st of (st', r) \<Rightarrow>
      if name = [] \<or> val = [] then st' = st \<and> r = Inl (RpcStatus InvalidArgument [])
      else r = Inr () \<and> secrets_map st' = (secrets_map st)((effective_scope scope, name) \<mapsto> val))
   \<and> (case rpc_delete_secret scope name st of (st', r) \<Rightarrow>
      if secrets_map st (effective_scope scope, name) = None then st' = st \<and> r = Inl (RpcStatus NotFound [])
      else r = Inr () \<and> secrets_map st' = (secrets_map st)((effective_scope scope, name) := None))
   \<and> (case rpc_get_secrets names st of
        Inl e \<Rightarrow> e = RpcStatus NotFound [] \<and> (\<exists>n \<in> set names. secrets_map st (''global'', n) = None)
      | Inr vals \<Rightarrow> \<forall>n. gget vals n = (if n \<in> set names then secrets_map st (''global'', n) else None)
          \<and> (n \<in> set names \<longrightarrow> secrets_map st (''global'', n) \<noteq> None))"
proof (intro conjI)
  have sc: "effective_scope scope \<noteq> []" by (simp add: effective_scope_def)
  show "case rpc_put_secret now scope name val st of (st', r) \<Rightarrow>
      if name = [] \<or> val = [] then st' = st \<and> r = Inl (RpcStatus InvalidArgument [])
      else r = Inr () \<and> secrets_map st' = (secrets_map st)((effective_scope scope, name) \<mapsto> val)"
  proof (cases "secret_put now (effective_scope scope) name val ''cli'' st")
    case (Inl e)
    then show ?thesis using sc by (auto simp: rpc_put_secret_def secret_put_def split: if_splits)
  next
    case (Inr st')
    then have "name \<noteq> []" "val \<noteq> []" by (auto simp: secret_put_def split: if_splits)
    then show ?thesis using secrets_map_put [OF Inr] Inr by (simp add: rpc_put_secret_def)
  qed
  show "case rpc_delete_secret scope name st of (st', r) \<Rightarrow>
      if secrets_map st (effective_scope scope, name) = None then st' = st \<and> r = Inl (RpcStatus NotFound [])
      else r = Inr () \<and> secrets_map st' = (secrets_map st)((effective_scope scope, name) := None)"
  proof (cases "secret_delete (effective_scope scope) name st")
    case (Inl e)
    then show ?thesis using secrets_map_delete_fails by (simp add: rpc_delete_secret_def)
  next
    case (Inr st')
    then have "secrets_map st (effective_scope scope, name) \<noteq> None"
      by (auto simp: secret_delete_def secrets_map_def scope_of_def Let_def split: option.splits if_splits)
    then show ?thesis using secrets_map_delete [OF Inr] Inr by (simp add: rpc_delete_secret_def)
  qed
  have g: "map_option se_Value (case gget st ''global'' of None \<Rightarrow> None | Some m' \<Rightarrow> gget m' n)
      = secrets_map st (''global'', n)" for n
    by (simp add: secrets_map_def scope_of_option)
  show "case rpc_get_secrets names st of
        Inl e \<Rightarrow> e = RpcStatus NotFound [] \<and> (\<exists>n \<in> set names. secrets_map st (''global'', n) = None)
      | Inr vals \<Rightarrow> \<forall>n. gget vals n = (if n \<in> set names then secrets_map st (''global'', n) else None)
          \<and> (n \<in> set names \<longrightarrow> secrets_map st (''global'', n) \<noteq> None)"
  proof (cases "secret_get_multiple ''global'' names st")
    case (Inl e)
    then obtain n where "n \<in> set names" "(case gget st ''global'' of None \<Rightarrow> None | Some m' \<Rightarrow> gget m' n) = None"
      using collect_secrets_fails [of "''global''" "gget st ''global''" names "[]" e]
      by (auto simp: secret_get_multiple_def)
    then have "secrets_map st (''global'', n) = None" "n \<in> set names" using g [of n] by simp_all
    then show ?thesis using Inl by (auto simp: rpc_get_secrets_def)
  next
    case (Inr vals)
    then have c: "collect_secrets ''global'' (gget st ''global'') names [] = Inr vals"
      by (simp add: secret_get_multiple_def)
    have "gget vals n = (if n \<in> set names then secrets_map st (''global'', n) else None)" for n
      using collect_secrets_spec [OF c, of n] g [of n] by simp
    moreover have "secrets_map st (''global'', n) \<noteq> None" if "n \<in> set names" for n
      using collect_all [OF c that] g [of n] by (metis option.map_disc_iff)
    ultimately show ?thesis using Inr by (simp add: rpc_get_secrets_def)
  qed
qed

theorem secrets_service_refines_map_witness:
  "secrets_map (fst (rpc_put_secret 5 ''  '' ''TOKEN'' ''abc'' [])) = [(''global'', ''TOKEN'') \<mapsto> ''abc'']"
proof -
  have "effective_scope ''  '' = ''global''" by code_simp
  moreover have "secrets_map [] = Map.empty" by (rule ext) (auto simp: secrets_map_def scope_of_def)
  ultimately show ?thesis
    using conjunct1 [OF secrets_service_refines_map
        [where now = 5 and scope = "''  ''" and name = "''TOKEN''" and val = "''abc''" and st = "[]"]]
    by (auto split: prod.splits)
qed

section \<open>The file of secrets\<close>

text \<open>One line: the name and the value of a setting, or nothing for blank lines, comments and the rest.\<close>

definition parse_secret_line :: "string \<Rightarrow> (string \<times> string) option" where
  "parse_secret_line raw =
     (let line = trim_space raw
      in if line = [] \<or> has_prefix ''#'' line then None
         else case cut_at (CHR ''='') line of
           None \<Rightarrow> None
         | Some (n, v) \<Rightarrow>
             if trim_space n = [] \<or> trim_space v = [] then None else Some (trim_space n, trim_space v))"

fun load_secret_lines :: "time \<Rightarrow> string list \<Rightarrow> secret_store \<Rightarrow> secret_store" where
  "load_secret_lines now [] st = st"
| "load_secret_lines now (line # lines) st =
     (case parse_secret_line line of
        None \<Rightarrow> load_secret_lines now lines st
      | Some (name, val) \<Rightarrow>
          (case secret_put now ''global'' name val ''env-file'' st of
             Inl _ \<Rightarrow> load_secret_lines now lines st
           | Inr st' \<Rightarrow> load_secret_lines now lines st'))"

definition load_secrets_file :: "time \<Rightarrow> string option \<Rightarrow> secret_store \<Rightarrow> secret_store" where
  "load_secrets_file now file st =
     (case file of None \<Rightarrow> st | Some text \<Rightarrow> load_secret_lines now (split_at (CHR 0x0A) text) st)"

text \<open>Text that trimming leaves alone.\<close>

definition trimmed :: "string \<Rightarrow> bool" where
  "trimmed s \<longleftrightarrow> s \<noteq> [] \<and> \<not> is_space (hd s) \<and> \<not> is_space (last s)"

lemma trim_trimmed: "trimmed s \<Longrightarrow> trim_space s = s"
proof -
  assume t: "trimmed s"
  then obtain c cs where s: "s = c # cs" "\<not> is_space c" by (cases s) (auto simp: trimmed_def)
  then have 1: "dropWhile is_space s = s" by simp
  obtain ds d where r: "rev s = d # ds" using s(1) by (cases "rev s") auto
  then have "d = last s" by (metis last_rev list.sel(1) rev_rev_ident s(1) hd_rev list.discI)
  then have "dropWhile is_space (rev s) = rev s" unfolding r using t by (simp add: trimmed_def)
  then show "trim_space s = s" using 1 by (simp add: trim_space_def)
qed

definition setting_ok :: "string \<times> string \<Rightarrow> bool" where
  "setting_ok kv \<longleftrightarrow> (case kv of (n, v) \<Rightarrow> trimmed n \<and> trimmed v \<and> CHR ''='' \<notin> set n \<and> hd n \<noteq> CHR ''#''
     \<and> CHR 0x0A \<notin> set n \<and> CHR 0x0A \<notin> set v)"

definition setting_line :: "string \<times> string \<Rightarrow> string" where
  "setting_line kv = fst kv @ CHR ''='' # snd kv"

lemma parse_setting: "setting_ok kv \<Longrightarrow> parse_secret_line (setting_line kv) = Some kv"
proof -
  assume ok: "setting_ok kv"
  obtain n v where kv: "kv = (n, v)" by (cases kv)
  have t: "trimmed n" "trimmed v" "CHR ''='' \<notin> set n" "hd n \<noteq> CHR ''#''"
    using ok by (simp_all add: kv setting_ok_def)
  have ne: "n \<noteq> []" "v \<noteq> []" using t by (simp_all add: trimmed_def)
  have "trimmed (n @ CHR ''='' # v)" using t ne by (auto simp: trimmed_def)
  then have l: "trim_space (setting_line kv) = n @ CHR ''='' # v"
    by (simp add: trim_trimmed kv setting_line_def)
  have "cut_at (CHR ''='') (n @ CHR ''='' # v) = Some (n, v)" using t(3) by (simp add: cut_at_Some)
  moreover have "\<not> has_prefix ''#'' (n @ CHR ''='' # v)" using t(4) ne by (cases n) (auto simp: has_prefix_iff)
  ultimately show ?thesis
    using t(1,2) ne unfolding parse_secret_line_def l by (simp add: trim_trimmed kv)
qed

lemma split_at_join:
  assumes "\<forall>p \<in> set ps. sep \<notin> set p" "ps \<noteq> []"
  shows "split_at sep (join ps [sep]) = ps"
proof -
  have one: "split_at sep p = [p]" if "sep \<notin> set p" for p using that by (induction p) auto
  have two: "split_at sep (p @ sep # q) = p # split_at sep q" if "sep \<notin> set p" for p q
    using that by (induction p) auto
  show ?thesis using assms by (induction ps "[sep]" rule: join.induct) (simp_all add: one two)
qed

lemma load_settings:
  "\<forall>kv \<in> set kvs. setting_ok kv \<Longrightarrow>
     secrets_map (load_secret_lines now (map setting_line kvs) st) (sc, n)
       = (if sc = ''global'' \<and> map_of (rev kvs) n \<noteq> None then map_of (rev kvs) n else secrets_map st (sc, n))"
proof (induction kvs arbitrary: st)
  case (Cons kv kvs)
  obtain k v where kv: "kv = (k, v)" by (cases kv)
  have p: "parse_secret_line (setting_line kv) = Some (k, v)" using Cons.prems parse_setting kv by simp
  have ne: "k \<noteq> []" "v \<noteq> []" using Cons.prems by (auto simp: kv setting_ok_def trimmed_def)
  then obtain st' where st': "secret_put now ''global'' k v ''env-file'' st = Inr st'"
    by (simp add: secret_put_def)
  have "load_secret_lines now (map setting_line (kv # kvs)) st = load_secret_lines now (map setting_line kvs) st'"
    by (simp add: p st')
  moreover have "map_of (rev (kv # kvs)) n = (case map_of (rev kvs) n of None \<Rightarrow> if n = k then Some v else None | Some w \<Rightarrow> Some w)"
    by (auto simp: kv map_add_def split: option.splits)
  ultimately show ?case
    using Cons.IH [of st'] Cons.prems secrets_map_put [OF st'] by (auto split: option.splits)
qed (simp add: secrets_map_def)

text \<open>The secrets file is read as it was written: from a file with one setting per line, the master
  loads for every name the value of its last setting, into the global scope, and leaves every other
  secret as it was.\<close>

theorem secrets_file_roundtrip:
  assumes "\<forall>kv \<in> set kvs. setting_ok kv" "kvs \<noteq> []"
  shows "secrets_map (load_secrets_file now (Some (join (map setting_line kvs) [CHR 0x0A])) st)
    = (\<lambda>(sc, n). if sc = ''global'' \<and> map_of (rev kvs) n \<noteq> None then map_of (rev kvs) n
                 else secrets_map st (sc, n))"
proof -
  have "\<forall>p \<in> set (map setting_line kvs). CHR 0x0A \<notin> set p"
    using assms(1) by (auto simp: setting_ok_def setting_line_def)
  then have "split_at (CHR 0x0A) (join (map setting_line kvs) [CHR 0x0A]) = map setting_line kvs"
    using assms(2) by (intro split_at_join) simp_all
  then show ?thesis
    using load_settings [OF assms(1)] by (intro ext) (auto simp: load_secrets_file_def)
qed

theorem secrets_file_roundtrip_witness:
  "secrets_map (load_secrets_file 5 (Some (join (map setting_line [(''A'', ''x''), (''A'', ''y=z'')]) [CHR 0x0A])) [])
     (''global'', ''A'') = Some ''y=z''"
proof -
  have "\<forall>kv \<in> set [(''A'', ''x''), (''A'', ''y=z'')]. setting_ok kv" by code_simp
  from secrets_file_roundtrip [OF this, of 5 "[]"] show ?thesis by simp
qed

end
