(* ===== verification/Retention.thy ===== *)
theory Retention
  imports Log_Store Build_Store
begin

text \<open>
  Retention, \<open>cmd/master/retention.go\<close>: old builds leave the history and the files in the log
  directory that are named after them are removed.  The directory is the list of its file names, or
  \<open>None\<close> when \<open>LOG_DIR\<close> is not set; \<open>filepath.Glob\<close> is taken on an ID without special characters,
  as \<open>generateID\<close> makes them.  Failures of the store and of \<open>os.Remove\<close> are left out.
\<close>

section \<open>The loop's parameters\<close>

text \<open>\<open>atoi\<close> is \<open>strconv.Atoi\<close>; a day is in nanoseconds.\<close>

definition retention_days :: "(string \<Rightarrow> int option) \<Rightarrow> string \<Rightarrow> int" where
  "retention_days atoi v =
     (case atoi (if v \<noteq> [] then v else ''30'') of None \<Rightarrow> 30 | Some d \<Rightarrow> if d \<le> 0 then 30 else d)"

definition retention_cutoff :: "int \<Rightarrow> time \<Rightarrow> time" where
  "retention_cutoff days now = now + wrap64 (wrap64 (wrap64 (- days) * 24) * 3600000000000)"

section \<open>One pass\<close>

fun store_DeleteBuildsBefore :: "time \<Rightarrow> any_store \<Rightarrow> any_store" where
  "store_DeleteBuildsBefore c NoStore = NoStore"
| "store_DeleteBuildsBefore c (MemBacked m) = MemBacked (fst (mem_DeleteBuildsBefore c m))"
| "store_DeleteBuildsBefore c (SqliteBacked s) = SqliteBacked (fst (sql_DeleteBuildsBefore c s))"

definition prune_ids :: "string list \<Rightarrow> time \<Rightarrow> any_store \<Rightarrow> string list" where
  "prune_ids ks cutoff st =
     map br_ID (filter (\<lambda>b. br_CreatedAt b < cutoff) (store_ListBuilds ks 10000 st))"

text \<open>The two loops: over the deleted builds, and over the files that match each.\<close>

fun remove_log_files :: "string list \<Rightarrow> string list \<Rightarrow> string list" where
  "remove_log_files [] fs = fs"
| "remove_log_files (x # xs) fs = remove_log_files xs (filter (\<lambda>f. \<not> has_prefix x f) fs)"

definition run_prune ::
    "string list \<Rightarrow> time \<Rightarrow> any_store \<Rightarrow> string list option \<Rightarrow> any_store \<times> string list option" where
  "run_prune ks cutoff st logDir =
     (let toDelete = prune_ids ks cutoff st
      in if toDelete = [] then (st, logDir)
         else (store_DeleteBuildsBefore cutoff st, map_option (remove_log_files toDelete) logDir))"

section \<open>Properties\<close>

lemma in_remove_log_files: "f \<in> set (remove_log_files xs fs) \<longleftrightarrow> f \<in> set fs \<and> (\<forall>x \<in> set xs. \<not> has_prefix x f)"
  by (induction xs fs rule: remove_log_files.induct) auto

text \<open>What a well-formed history is, for either store.\<close>

fun store_good :: "any_store \<Rightarrow> bool" where
  "store_good NoStore = True"
| "store_good (MemBacked m) = mem_good m"
| "store_good (SqliteBacked s) = sql_good s"

fun store_headers :: "any_store \<Rightarrow> string \<Rightarrow> build_record option" where
  "store_headers st x = map_option header (store_GetBuild x st)"

lemma store_delete_get:
  "store_good st \<Longrightarrow> map_option header (store_GetBuild x (store_DeleteBuildsBefore c st)) =
    (case store_GetBuild x st of None \<Rightarrow> None
     | Some b \<Rightarrow> if br_CreatedAt b < c then None else Some (header b))"
  by (cases st) (simp_all add: mem.delete_get sql.delete_get)

lemma header_ListBuilds_mem:
  "gget (ms_builds m) x = Some b \<Longrightarrow> x \<in> set ks \<Longrightarrow> length ks \<le> 10000 \<Longrightarrow>
     b \<in> set (mem_ListBuilds ks 10000 m)"
proof -
  assume a: "gget (ms_builds m) x = Some b" "x \<in> set ks" "length ks \<le> 10000"
  have "length (List.map_filter (gget (ms_builds m)) ks) \<le> length ks"
    by (induction ks) (auto simp: List.map_filter_simps split: option.split)
  moreover have "b \<in> set (List.map_filter (gget (ms_builds m)) ks)"
    using a(1,2) by (induction ks) (auto simp: List.map_filter_simps split: option.split)
  ultimately show ?thesis using a(3) by (simp add: mem_ListBuilds_def Let_def)
qed

text \<open>How many builds a history holds.\<close>

fun store_size :: "any_store \<Rightarrow> nat" where
  "store_size NoStore = 0"
| "store_size (MemBacked m) = length (ms_builds m)"
| "store_size (SqliteBacked s) = length (sq_builds s)"

fun store_order :: "string list \<Rightarrow> any_store \<Rightarrow> bool" where
  "store_order ks (MemBacked m) = range_order (ms_builds m) ks"
| "store_order ks _ = True"

lemma prune_ids_complete:
  assumes "store_good st" "store_order ks st" "store_size st \<le> 10000"
    and "store_GetBuild x st = Some b" "br_CreatedAt b < cutoff"
  shows "prune_ids ks cutoff st \<noteq> []"
proof (cases st)
  case NoStore
  then show ?thesis using assms(4) by simp
next
  case (MemBacked m)
  have g: "gget (ms_builds m) x = Some b" using assms(4) MemBacked by (simp add: mem_GetBuild_def)
  have "x \<in> set ks" "length ks = length (ms_builds m)"
    using assms(1,2) MemBacked g range_order_set [of "ms_builds m" ks x] range_order_length [of "ms_builds m" ks]
    by (auto simp: mem_good_def)
  then have "b \<in> set (mem_ListBuilds ks 10000 m)"
    using header_ListBuilds_mem [OF g, of ks] assms(3) MemBacked by simp
  then show ?thesis using assms(5) MemBacked by (auto simp: prune_ids_def filter_empty_conv)
next
  case (SqliteBacked s)
  then obtain r where r: "gget (sq_builds s) x = Some r" "br_CreatedAt r = br_CreatedAt b"
    using assms(4) by (auto simp: sql_GetBuild_def split: option.splits)
  then have "r \<in> set (map snd (sq_builds s))" by (auto simp: gget_def dest!: map_of_SomeD intro: rev_image_eqI)
  moreover have "sql_limit 500 10000 = 10000" by (simp add: sql_limit_def)
  ultimately have "r \<in> set (sql_ListBuilds 10000 s)"
    using assms(3) SqliteBacked by (simp add: sql_ListBuilds_def)
  then show ?thesis using assms(5) r(2) SqliteBacked
    by (auto simp: prune_ids_def filter_empty_conv intro: bexI [of _ r])
qed

text \<open>C35. Retention removes what is old and nothing else: as long as the history holds no more than
  10000 builds, after a pass a build is in the history exactly when it was and was created at or after
  the cutoff, with its header unchanged. A log file survives the pass unless its name begins with the
  ID of a listed old build; log files are named after tasks, so the log of a task of a deleted build
  stays unless the task's ID begins with a build's.\<close>

theorem prune_outcome:
  assumes "store_good st" "store_order ks st" "store_size st \<le> 10000"
    and "run_prune ks cutoff st logDir = (st', logDir')"
  shows "(\<forall>x. store_headers st' x = (case store_GetBuild x st of None \<Rightarrow> None
        | Some b \<Rightarrow> if br_CreatedAt b < cutoff then None else Some (header b)))
    \<and> (\<forall>fs. logDir = Some fs \<longrightarrow> (\<exists>fs'. logDir' = Some fs'
        \<and> (\<forall>t. task_path t \<in> set fs \<and> (\<forall>x \<in> set (prune_ids ks cutoff st). \<not> has_prefix x (task_path t))
             \<longrightarrow> task_path t \<in> set fs')))"
proof (cases "prune_ids ks cutoff st = []")
  case True
  then have "\<not> br_CreatedAt b < cutoff" if "store_GetBuild x st = Some b" for x b
    using prune_ids_complete [OF assms(1-3) that] by blast
  then show ?thesis using True assms(4) by (auto simp: run_prune_def split: option.split)
next
  case False
  then have "st' = store_DeleteBuildsBefore cutoff st"
    "logDir' = map_option (remove_log_files (prune_ids ks cutoff st)) logDir"
    using assms(4) by (auto simp: run_prune_def Let_def)
  then show ?thesis using store_delete_get [OF assms(1)] by (auto simp: in_remove_log_files)
qed

definition old_record :: "string \<Rightarrow> time \<Rightarrow> build_record" where
  "old_record x t = \<lparr> br_ID = x, br_RepoURL = [], br_RepoFullName = [], br_CommitSHA = [], br_Branch = [],
     br_PRNumber = [], br_TriggeredBy = [], br_State = ''passed'', br_CreatedAt = t, br_StartedAt = 0,
     br_FinishedAt = 0, br_Tasks = [] \<rparr>"

definition small_history :: any_store where
  "small_history = MemBacked \<lparr> ms_builds = [(''b1'', old_record ''b1'' 5), (''b2'', old_record ''b2'' 50)], ms_audit = [] \<rparr>"

theorem prune_outcome_witness:
  "store_GetBuild ''b1'' (fst (run_prune [''b1'', ''b2''] 10 small_history (Some [task_path ''clone'']))) = None
   \<and> store_GetBuild ''b2'' (fst (run_prune [''b1'', ''b2''] 10 small_history (Some [task_path ''clone'']))) \<noteq> None
   \<and> snd (run_prune [''b1'', ''b2''] 10 small_history (Some [task_path ''clone''])) = Some [task_path ''clone'']"
proof -
  let ?r = "run_prune [''b1'', ''b2''] 10 small_history (Some [task_path ''clone''])"
  have g: "store_good small_history" "store_order [''b1'', ''b2''] small_history" "store_size small_history \<le> 10000"
    by code_simp+
  have e: "?r = (fst ?r, snd ?r)" by simp
  have o: "store_headers (fst ?r) x = (case store_GetBuild x small_history of None \<Rightarrow> None
      | Some b \<Rightarrow> if br_CreatedAt b < 10 then None else Some (header b))" for x
    using prune_outcome [OF g e] by blast
  have "snd ?r = Some [task_path ''clone'']" by code_simp
  moreover have "store_headers (fst ?r) ''b1'' = None" unfolding o by code_simp
  moreover have "store_headers (fst ?r) ''b2'' \<noteq> None" unfolding o by code_simp
  ultimately show ?thesis by auto
qed

end
