(* ===== verification/Rate_Limiter.thy ===== *)
theory Rate_Limiter
  imports Complex_Main Go_Strings
begin

text \<open>
  The rate limiter of the webhook endpoint, \<open>cmd/master/ratelimit.go\<close>: a token bucket for every client
  address.  The floating-point numbers of the code are rational numbers here, so rounding is left out,
  and so are the values of \<open>ParseFloat\<close> that are no numbers.  The clock is an argument.
\<close>

section \<open>The limiter\<close>

record bucket =
  bk_tokens :: rat
  bk_lastRefil :: time

record rate_limiter =
  rl_buckets :: "(string, bucket) gomap"
  rl_rate :: rat
  rl_burst :: rat

definition new_rate_limiter :: "rat \<Rightarrow> rat \<Rightarrow> rate_limiter" where
  "new_rate_limiter ratePerSec burst = \<lparr> rl_buckets = [], rl_rate = ratePerSec, rl_burst = burst \<rparr>"

text \<open>\<open>num\<close> is \<open>strconv.ParseFloat\<close>.\<close>

definition parse_float :: "(string \<Rightarrow> rat option) \<Rightarrow> string \<Rightarrow> rat" where
  "parse_float num s = (case num s of None \<Rightarrow> 10 | Some v \<Rightarrow> if v \<le> 0 then 10 else v)"

definition env_or_default :: "(string \<Rightarrow> string) \<Rightarrow> string \<Rightarrow> string \<Rightarrow> string" where
  "env_or_default getenv key dflt = (if getenv key \<noteq> [] then getenv key else dflt)"

definition new_rate_limiter_from_env :: "(string \<Rightarrow> rat option) \<Rightarrow> (string \<Rightarrow> string) \<Rightarrow> rate_limiter" where
  "new_rate_limiter_from_env num getenv =
     new_rate_limiter (parse_float num (env_or_default getenv ''WEBHOOK_RATE_LIMIT'' ''10''))
       (parse_float num (env_or_default getenv ''WEBHOOK_RATE_BURST'' ''20''))"

definition seconds :: "int \<Rightarrow> rat" where
  "seconds d = of_int d / 1000000000"

definition refilled :: "time \<Rightarrow> rate_limiter \<Rightarrow> bucket \<Rightarrow> rat" where
  "refilled now rl b = min (rl_burst rl) (bk_tokens b + seconds (time_sub now (bk_lastRefil b)) * rl_rate rl)"

definition allow :: "time \<Rightarrow> string \<Rightarrow> rate_limiter \<Rightarrow> rate_limiter \<times> bool" where
  "allow now key rl =
     (let b = (case gget (rl_buckets rl) key of
                 None \<Rightarrow> \<lparr> bk_tokens = rl_burst rl, bk_lastRefil = now \<rparr> | Some b \<Rightarrow> b);
          tokens = refilled now rl b;
          ok = (1 \<le> tokens);
          b' = \<lparr> bk_tokens = (if ok then tokens - 1 else tokens), bk_lastRefil = now \<rparr>
      in (rl\<lparr> rl_buckets := gput key b' (rl_buckets rl) \<rparr>, ok))"

definition prune_buckets :: "time \<Rightarrow> rate_limiter \<Rightarrow> rate_limiter" where
  "prune_buckets now rl =
     rl\<lparr> rl_buckets := filter (\<lambda>(k, b). \<not> bk_lastRefil b < now - 600000000000) (rl_buckets rl) \<rparr>"

text \<open>The part of \<open>X-Forwarded-For\<close> before its first comma, or the remote address without its port.\<close>

definition client_ip :: "string \<Rightarrow> string \<Rightarrow> string" where
  "client_ip xff remoteAddr =
     (if xff \<noteq> [] then takeWhile (\<lambda>c. c \<noteq> CHR '','') xff
      else if CHR '':'' \<in> set remoteAddr
      then rev (tl (dropWhile (\<lambda>c. c \<noteq> CHR '':'') (rev remoteAddr)))
      else remoteAddr)"

text \<open>The wrapped handler runs, or the answer is \<open>429\<close>.\<close>

definition limit_middleware ::
    "time \<Rightarrow> string \<Rightarrow> string \<Rightarrow> (unit \<Rightarrow> 'r) \<Rightarrow> rate_limiter \<Rightarrow> rate_limiter \<times> (nat + 'r)" where
  "limit_middleware now xff remoteAddr handler rl =
     (case allow now (client_ip xff remoteAddr) rl of
        (rl', ok) \<Rightarrow> (rl', if ok then Inr (handler ()) else Inl 429))"

section \<open>Runs\<close>

datatype limiter_event = Request time string | Prune time

fun event_time :: "limiter_event \<Rightarrow> time" where
  "event_time (Request t k) = t"
| "event_time (Prune t) = t"

text \<open>How many requests with a key were allowed.\<close>

fun allowed :: "string \<Rightarrow> limiter_event list \<Rightarrow> rate_limiter \<Rightarrow> nat" where
  "allowed k [] rl = 0"
| "allowed k (Request t key # es) rl =
     (case allow t key rl of (rl', ok) \<Rightarrow> (if ok \<and> key = k then 1 else 0) + allowed k es rl')"
| "allowed k (Prune t # es) rl = allowed k es (prune_buckets t rl)"

text \<open>The tokens a key could spend at a time.\<close>

definition level :: "time \<Rightarrow> string \<Rightarrow> rate_limiter \<Rightarrow> rat" where
  "level t k rl = (case gget (rl_buckets rl) k of None \<Rightarrow> rl_burst rl | Some b \<Rightarrow> refilled t rl b)"

definition limiter_ok :: "time \<Rightarrow> rate_limiter \<Rightarrow> bool" where
  "limiter_ok t rl \<longleftrightarrow> 0 \<le> rl_rate rl \<and> 0 \<le> rl_burst rl \<and> rl_burst rl \<le> 600 * rl_rate rl
     \<and> gwf (rl_buckets rl)
     \<and> (\<forall>k b. gget (rl_buckets rl) k = Some b \<longrightarrow>
          0 \<le> bk_tokens b \<and> bk_tokens b \<le> rl_burst rl \<and> bk_lastRefil b \<le> t)"

lemma limiter_okD:
  "limiter_ok t rl \<Longrightarrow> gget (rl_buckets rl) k = Some b \<Longrightarrow>
     0 \<le> bk_tokens b \<and> bk_tokens b \<le> rl_burst rl \<and> bk_lastRefil b \<le> t"
  by (simp add: limiter_ok_def)

lemma time_sub_later: "t \<le> t' \<Longrightarrow> u \<le> t \<Longrightarrow> time_sub t' u \<le> time_sub t u + (t' - t) \<and> 0 \<le> time_sub t u"
  by (auto simp: time_sub_def max_duration_def)

text \<open>Time adds at most its worth of tokens.\<close>

lemma level_grows:
  assumes "limiter_ok t rl" "t \<le> t'"
  shows "level t' k rl \<le> level t k rl + seconds (t' - t) * rl_rate rl"
proof (cases "gget (rl_buckets rl) k")
  case None
  have "0 \<le> seconds (t' - t) * rl_rate rl" using assms by (simp add: limiter_ok_def seconds_def)
  then show ?thesis using None by (simp add: level_def)
next
  case (Some b)
  have s: "time_sub t' (bk_lastRefil b) \<le> time_sub t (bk_lastRefil b) + (t' - t)"
    using time_sub_later [OF assms(2)] limiter_okD [OF assms(1) Some] by blast
  then have "seconds (time_sub t' (bk_lastRefil b)) \<le> seconds (time_sub t (bk_lastRefil b)) + seconds (t' - t)"
    unfolding seconds_def by (simp add: field_simps flip: of_int_add of_int_diff)
  then have "seconds (time_sub t' (bk_lastRefil b)) * rl_rate rl
      \<le> (seconds (time_sub t (bk_lastRefil b)) + seconds (t' - t)) * rl_rate rl"
    using assms(1) by (intro mult_right_mono) (simp_all add: limiter_ok_def)
  moreover have "0 \<le> seconds (t' - t) * rl_rate rl" using assms by (simp add: limiter_ok_def seconds_def)
  ultimately show ?thesis using Some by (auto simp: level_def refilled_def distrib_right)
qed

lemma refilled_bounds:
  assumes "limiter_ok t rl" "gget (rl_buckets rl) k = Some b"
  shows "0 \<le> refilled t rl b" "refilled t rl b \<le> rl_burst rl"
proof -
  have "0 \<le> time_sub t (bk_lastRefil b)"
    using time_sub_later [of t t "bk_lastRefil b"] limiter_okD [OF assms] by simp
  then have "0 \<le> seconds (time_sub t (bk_lastRefil b)) * rl_rate rl"
    using assms(1) by (simp add: limiter_ok_def seconds_def)
  moreover have "0 \<le> rl_burst rl" using assms(1) by (simp add: limiter_ok_def)
  ultimately show "0 \<le> refilled t rl b" using limiter_okD [OF assms] by (simp add: refilled_def)
  show "refilled t rl b \<le> rl_burst rl" by (simp add: refilled_def)
qed

lemma level_bounds: "limiter_ok t rl \<Longrightarrow> 0 \<le> level t k rl \<and> level t k rl \<le> rl_burst rl"
  using refilled_bounds by (auto simp: level_def limiter_ok_def split: option.split)

text \<open>An allowed request costs a token, a refused one leaves what there was.\<close>

lemma allow_spec:
  assumes "limiter_ok t rl" "allow t key rl = (rl', ok)"
  shows "ok \<longleftrightarrow> 1 \<le> level t key rl"
    and "level t k rl' = level t k rl - (if k = key \<and> ok then 1 else 0)"
    and "limiter_ok t rl'" "rl_rate rl' = rl_rate rl"  "rl_burst rl' = rl_burst rl"
proof -
  let ?b = "case gget (rl_buckets rl) key of
      None \<Rightarrow> \<lparr> bk_tokens = rl_burst rl, bk_lastRefil = t \<rparr> | Some b \<Rightarrow> b"
  have z: "time_sub t t = 0" by (simp add: time_sub_def max_duration_def)
  have lv: "refilled t rl ?b = level t key rl"
    by (simp add: level_def refilled_def z seconds_def split: option.split)
  have ok: "ok \<longleftrightarrow> 1 \<le> level t key rl"
    and rl': "rl' = rl\<lparr> rl_buckets := gput key
      \<lparr> bk_tokens = (if ok then level t key rl - 1 else level t key rl), bk_lastRefil = t \<rparr> (rl_buckets rl) \<rparr>"
    using assms(2) unfolding allow_def Let_def lv by auto
  show "ok \<longleftrightarrow> 1 \<le> level t key rl" by (rule ok)
  show "rl_rate rl' = rl_rate rl" "rl_burst rl' = rl_burst rl" by (simp_all add: rl')
  have lb: "0 \<le> level t key rl" "level t key rl \<le> rl_burst rl" using level_bounds [OF assms(1)] by blast+
  show "limiter_ok t rl'"
    using assms(1) lb ok by (auto simp: rl' limiter_ok_def)
  have same: "refilled t (rl\<lparr> rl_buckets := m \<rparr>) b = refilled t rl b" for m b by (simp add: refilled_def)
  show "level t k rl' = level t k rl - (if k = key \<and> ok then 1 else 0)"
  proof (cases "k = key")
    case True
    have "level t key rl' = min (rl_burst rl) (if ok then level t key rl - 1 else level t key rl)"
      unfolding level_def [of t key rl'] by (simp add: rl' refilled_def z seconds_def)
    then show ?thesis using True lb by auto
  next
    case False
    then show ?thesis by (simp add: level_def rl' same split: option.split)
  qed
qed

text \<open>A bucket that is thrown away was full.\<close>

lemma prune_spec:
  assumes "limiter_ok t rl"
  shows "level t k (prune_buckets t rl) = level t k rl" "limiter_ok t (prune_buckets t rl)"
    "rl_rate (prune_buckets t rl) = rl_rate rl" "rl_burst (prune_buckets t rl) = rl_burst rl"
proof -
  have w: "gwf (rl_buckets rl)" using assms by (simp add: limiter_ok_def)
  have f: "gget (rl_buckets (prune_buckets t rl)) k = (case gget (rl_buckets rl) k of None \<Rightarrow> None
      | Some b \<Rightarrow> if bk_lastRefil b < t - 600000000000 then None else Some b)" for k
    using gget_filter [OF w, of "\<lambda>k b. \<not> bk_lastRefil b < t - 600000000000" k]
    by (auto simp: prune_buckets_def split: option.split)
  have full: "refilled t rl b = rl_burst rl"
    if "gget (rl_buckets rl) k = Some b" "bk_lastRefil b < t - 600000000000" for b
  proof -
    have "600000000000 \<le> time_sub t (bk_lastRefil b)" using that(2) by (auto simp: time_sub_def max_duration_def)
    then have "600 \<le> seconds (time_sub t (bk_lastRefil b))" by (simp add: seconds_def)
    then have "600 * rl_rate rl \<le> seconds (time_sub t (bk_lastRefil b)) * rl_rate rl"
      using assms by (intro mult_right_mono) (simp_all add: limiter_ok_def)
    then show ?thesis using assms limiter_okD [OF assms that(1)] by (simp add: refilled_def limiter_ok_def)
  qed
  have same: "refilled t (prune_buckets t rl) b = refilled t rl b" for b
    by (simp add: refilled_def prune_buckets_def)
  have burst: "rl_burst (prune_buckets t rl) = rl_burst rl" by (simp add: prune_buckets_def)
  show "level t k (prune_buckets t rl) = level t k rl"
    using full by (auto simp: level_def f same burst split: option.split)
  show "limiter_ok t (prune_buckets t rl)"
    using assms unfolding limiter_ok_def f by (auto simp: prune_buckets_def gwf_filter split: option.splits if_splits)
  show "rl_rate (prune_buckets t rl) = rl_rate rl" "rl_burst (prune_buckets t rl) = rl_burst rl"
    by (simp_all add: prune_buckets_def)
qed

lemma limiter_ok_later: "limiter_ok t rl \<Longrightarrow> t \<le> t' \<Longrightarrow> limiter_ok t' rl"
  by (fastforce simp: limiter_ok_def)

lemma allowed_bound:
  "limiter_ok t rl \<Longrightarrow> sorted (t # map event_time es) \<Longrightarrow> (\<forall>e \<in> set es. event_time e \<le> u) \<Longrightarrow> t \<le> u \<Longrightarrow>
     of_nat (allowed k es rl) \<le> level t k rl + seconds (u - t) * rl_rate rl"
proof (induction es arbitrary: t rl)
  case Nil
  then have "0 \<le> seconds (u - t) * rl_rate rl" by (simp add: limiter_ok_def seconds_def)
  then show ?case using level_bounds [OF Nil(1), of k] by simp
next
  case (Cons e es)
  let ?t = "event_time e"
  have t: "t \<le> ?t" "?t \<le> u" "sorted (?t # map event_time es)" "\<forall>e \<in> set es. event_time e \<le> u"
    using Cons.prems by auto
  note ok = limiter_ok_later [OF Cons.prems(1) t(1)]
  have split: "seconds (u - ?t) * rl_rate rl + seconds (?t - t) * rl_rate rl = seconds (u - t) * rl_rate rl"
    by (simp add: seconds_def field_simps)
  note grow = level_grows [OF Cons.prems(1) t(1), of k]
  show ?case
  proof (cases e)
    case (Request t' key)
    obtain rl' okk where a: "allow ?t key rl = (rl', okk)" by (cases "allow ?t key rl")
    note sp = allow_spec [OF ok a]
    have "of_nat (allowed k es rl') \<le> level ?t k rl' + seconds (u - ?t) * rl_rate rl'"
      by (rule Cons.IH [OF sp(3) t(3,4,2)])
    then show ?thesis using Request a sp(2) [of k] sp(4) grow split by (auto split: if_splits)
  next
    case (Prune t')
    note sp = prune_spec [OF ok]
    have "of_nat (allowed k es (prune_buckets ?t rl))
        \<le> level ?t k (prune_buckets ?t rl) + seconds (u - ?t) * rl_rate (prune_buckets ?t rl)"
      by (rule Cons.IH [OF sp(2) t(3,4,2)])
    then show ?thesis using Prune sp grow split by simp
  qed
qed



end
