(* ===== verification/Digest_Store.thy ===== *)
theory Digest_Store
  imports Relay_Prelude
begin

text \<open>
  The pinned pipeline digests, \<open>cmd/master/digest_store.go\<close>: the records in memory and the file that
  every change rewrites, here the list of records it holds (the JSON text is left out).  Whether the
  rewriting fails, and how, is an argument of the operations that save; \<open>ks\<close> is the order of the loop
  over the records.
\<close>

section \<open>State and operations\<close>

record pin_record =
  pp_ProjectID :: string
  pp_RepoName :: string
  pp_Digest :: string
  pp_PipelinePath :: string
  pp_Content :: string
  pp_FirstSeen :: time
  pp_LastSeen :: time

record digest_store =
  ds_records :: "(string, pin_record) gomap"
  ds_file :: "pin_record list option"

datatype digest_error =
    CreatingStoreDir
  | ReadingStore
  | ParsingStore
  | MarshallingStore
  | WritingStore
  | RenamingStore

text \<open>What \<open>os.ReadFile\<close> and the decoder give.\<close>

datatype store_file = NoFile | Unreadable | EmptyFile | Malformed | Records "pin_record list"

fun load_records :: "pin_record list \<Rightarrow> (string, pin_record) gomap \<Rightarrow> (string, pin_record) gomap" where
  "load_records [] m = m"
| "load_records (r # rs) m = load_records rs (gput (pp_ProjectID r) r m)"

definition new_digest_store :: "bool \<Rightarrow> store_file \<Rightarrow> digest_error + digest_store" where
  "new_digest_store mkdir_ok file =
     (if \<not> mkdir_ok then Inl CreatingStoreDir
      else case file of
        NoFile \<Rightarrow> Inr \<lparr> ds_records = [], ds_file = None \<rparr>
      | Unreadable \<Rightarrow> Inl ReadingStore
      | EmptyFile \<Rightarrow> Inr \<lparr> ds_records = [], ds_file = Some [] \<rparr>
      | Malformed \<Rightarrow> Inl ParsingStore
      | Records rs \<Rightarrow> Inr \<lparr> ds_records = load_records rs [], ds_file = Some rs \<rparr>)"

definition get_pin :: "string \<Rightarrow> digest_store \<Rightarrow> pin_record option" where
  "get_pin p ds = gget (ds_records ds) p"

definition list_pins :: "string list \<Rightarrow> digest_store \<Rightarrow> pin_record list" where
  "list_pins ks ds = List.map_filter (gget (ds_records ds)) ks"

definition save_locked ::
    "string list \<Rightarrow> digest_error option \<Rightarrow> digest_store \<Rightarrow> digest_store \<times> digest_error option" where
  "save_locked ks err ds =
     (case err of
        Some e \<Rightarrow> (ds, Some e)
      | None \<Rightarrow> (ds\<lparr> ds_file := Some (list_pins ks ds) \<rparr>, None))"

definition put_record :: "pin_record \<Rightarrow> digest_store \<Rightarrow> digest_store" where
  "put_record r ds = ds\<lparr> ds_records := gput (pp_ProjectID r) r (ds_records ds) \<rparr>"

definition pin ::
    "string list \<Rightarrow> digest_error option \<Rightarrow> time \<Rightarrow> string \<Rightarrow> string \<Rightarrow> string \<Rightarrow> string \<Rightarrow> string
       \<Rightarrow> digest_store \<Rightarrow> digest_store \<times> digest_error option" where
  "pin ks err now projectID repoName digest pipelinePath content ds =
     (let fresh = \<lparr> pp_ProjectID = projectID, pp_RepoName = repoName, pp_Digest = digest,
            pp_PipelinePath = pipelinePath, pp_Content = content, pp_FirstSeen = now, pp_LastSeen = now \<rparr>
      in save_locked ks err
           (case gget (ds_records ds) projectID of
              None \<Rightarrow> ds\<lparr> ds_records := gput projectID fresh (ds_records ds) \<rparr>
            | Some r \<Rightarrow>
                if pp_Digest r = digest
                then ds\<lparr> ds_records := gput projectID (r\<lparr> pp_LastSeen := now, pp_RepoName := repoName \<rparr>)
                           (ds_records ds) \<rparr>
                else ds\<lparr> ds_records := gput projectID fresh (ds_records ds) \<rparr>))"

definition zero_pin :: pin_record where
  "zero_pin = \<lparr> pp_ProjectID = [], pp_RepoName = [], pp_Digest = [], pp_PipelinePath = [],
     pp_Content = [], pp_FirstSeen = 0, pp_LastSeen = 0 \<rparr>"

definition repin ::
    "string list \<Rightarrow> digest_error option \<Rightarrow> time \<Rightarrow> string \<Rightarrow> string \<Rightarrow> string \<Rightarrow> string \<Rightarrow> string
       \<Rightarrow> digest_store \<Rightarrow> digest_store \<times> digest_error option" where
  "repin ks err now projectID repoName digest pipelinePath content ds =
     (let old = (case gget (ds_records ds) projectID of None \<Rightarrow> zero_pin | Some r \<Rightarrow> r);
          r = old\<lparr> pp_ProjectID := projectID, pp_RepoName := repoName, pp_Digest := digest,
                pp_PipelinePath := pipelinePath, pp_Content := content, pp_LastSeen := now,
                pp_FirstSeen := (if is_zero_time (pp_FirstSeen old) then now else pp_FirstSeen old) \<rparr>
      in save_locked ks err (ds\<lparr> ds_records := gput projectID r (ds_records ds) \<rparr>))"

definition unpin ::
    "string list \<Rightarrow> digest_error option \<Rightarrow> string \<Rightarrow> digest_store
       \<Rightarrow> digest_store \<times> bool \<times> digest_error option" where
  "unpin ks err projectID ds =
     (if gget (ds_records ds) projectID = None then (ds, False, None)
      else case save_locked ks err (ds\<lparr> ds_records := gdel projectID (ds_records ds) \<rparr>) of
             (ds', e) \<Rightarrow> (ds', True, e))"

section \<open>Lemmas\<close>

text \<open>Records are kept under their project's ID.\<close>

definition keyed_pins :: "digest_store \<Rightarrow> bool" where
  "keyed_pins ds \<longleftrightarrow> (\<forall>p r. gget (ds_records ds) p = Some r \<longrightarrow> pp_ProjectID r = p)"

lemma get_load_records:
  "gget (load_records rs m) p = (case List.find (\<lambda>r. pp_ProjectID r = p) (rev rs) of
     Some r \<Rightarrow> Some r | None \<Rightarrow> gget m p)"
proof (induction rs arbitrary: m)
  case (Cons r rs)
  have "List.find P (xs @ [y]) = (case List.find P xs of Some z \<Rightarrow> Some z | None \<Rightarrow> if P y then Some y else None)"
    for P and xs :: "pin_record list" and y
    by (induction xs) auto
  then show ?case using Cons.IH by (auto split: option.split)
qed simp

lemma load_listed:
  assumes "keyed_pins ds" "range_order (ds_records ds) ks"
  shows "gget (load_records (list_pins ks ds) []) p = gget (ds_records ds) p"
proof -
  let ?rs = "list_pins ks ds"
  have mem: "r \<in> set ?rs \<longleftrightarrow> (\<exists>q \<in> set ks. gget (ds_records ds) q = Some r)" for r
    unfolding list_pins_def by (induction ks) (auto simp: List.map_filter_simps split: option.split)
  have key: "q = p" if "gget (ds_records ds) q = Some r" "pp_ProjectID r = p" for q r
    using assms(1) that by (simp add: keyed_pins_def)
  show ?thesis
  proof (cases "List.find (\<lambda>r. pp_ProjectID r = p) (rev ?rs)")
    case None
    then have "\<not> (\<exists>r \<in> set ?rs. pp_ProjectID r = p)" by (auto simp: find_None_iff)
    then have "gget (ds_records ds) p = None"
      using mem assms range_order_set [OF assms(2), of p]
      by (cases "gget (ds_records ds) p") (auto simp: keyed_pins_def)
    then show ?thesis using None by (simp add: get_load_records)
  next
    case (Some r)
    then obtain i where i: "i < length (rev ?rs)" "r = rev ?rs ! i" "pp_ProjectID r = p"
      unfolding find_Some_iff by blast
    then have "r \<in> set (rev ?rs)" by (metis nth_mem)
    then obtain q where q: "gget (ds_records ds) q = Some r" using mem by auto
    have "gget (ds_records ds) p = Some r" using q key [OF q i(3)] by simp
    then show ?thesis using Some by (simp add: get_load_records)
  qed
qed

lemma save_locked_records: "ds_records (fst (save_locked ks err ds)) = ds_records ds"
  by (simp add: save_locked_def split: option.split)

lemma keyed_put: "keyed_pins ds \<Longrightarrow> pp_ProjectID r = p \<Longrightarrow>
    keyed_pins (fst (save_locked ks err (ds\<lparr> ds_records := gput p r (ds_records ds) \<rparr>)))"
  by (simp add: keyed_pins_def save_locked_records)

lemma keyed_pin: "keyed_pins ds \<Longrightarrow> keyed_pins (fst (pin ks err now p n d f c ds))"
  by (auto simp: pin_def Let_def keyed_pins_def [of ds] intro!: keyed_put split: option.split)

lemma keyed_repin: "keyed_pins ds \<Longrightarrow> keyed_pins (fst (repin ks err now p n d f c ds))"
  unfolding repin_def Let_def by (rule keyed_put) simp_all

lemma keyed_unpin: "keyed_pins ds \<Longrightarrow> keyed_pins (fst (unpin ks err p ds))"
  by (simp add: unpin_def keyed_pins_def save_locked_records case_prod_unfold)

section \<open>The store as a state machine\<close>

text \<open>The changes the master makes.\<close>

datatype pin_event = Pin time string string string string string
  | Repin time string string string string string | Unpin string

fun apply_pin :: "string list \<Rightarrow> digest_error option \<Rightarrow> pin_event \<Rightarrow> digest_store \<Rightarrow> digest_store \<times> digest_error option" where
  "apply_pin ks err (Pin now p n d f c) ds = pin ks err now p n d f c ds"
| "apply_pin ks err (Repin now p n d f c) ds = repin ks err now p n d f c ds"
| "apply_pin ks err (Unpin p) ds = (case unpin ks err p ds of (ds', _, e) \<Rightarrow> (ds', e))"

lemma keyed_apply_pin: "keyed_pins ds \<Longrightarrow> apply_pin ks err ev ds = (ds', e) \<Longrightarrow> keyed_pins ds'"
  using keyed_pin keyed_repin keyed_unpin
  by (cases ev) (metis apply_pin.simps(1) fst_conv, metis apply_pin.simps(2) fst_conv,
    auto simp: case_prod_unfold)

text \<open>A record is in the file when the file is read back.\<close>

definition saved :: "digest_store \<Rightarrow> bool" where
  "saved ds \<longleftrightarrow> (\<forall>p. gget (load_records (case ds_file ds of None \<Rightarrow> [] | Some rs \<Rightarrow> rs) []) p
     = gget (ds_records ds) p)"

lemma save_locked_saved:
  assumes "save_locked ks None ds = (ds', e)" "keyed_pins ds" "range_order (ds_records ds) ks"
  shows "saved ds'"
  using assms load_listed [OF assms(2,3)] by (auto simp: save_locked_def saved_def list_pins_def)


definition empty_pins :: digest_store where
  "empty_pins = \<lparr> ds_records = [], ds_file = None \<rparr>"


end
