(* ===== verification/Go_Path.thy ===== *)
theory Go_Path
  imports Go_Text
begin

text \<open>
  Paths as \<open>path/filepath\<close> treats them on Unix, rooted or not: \<open>Clean\<close>, \<open>Join\<close> of two
  elements and \<open>Dir\<close>.
\<close>

text \<open>The elements kept so far are in reverse order.\<close>

fun clean_elements :: "bool \<Rightarrow> string list \<Rightarrow> string list \<Rightarrow> string list" where
  "clean_elements rooted acc [] = rev acc"
| "clean_elements rooted acc (x # xs) =
     (if x = [] \<or> x = ''.'' then clean_elements rooted acc xs
      else if x = ''..'' then
        (case acc of
           [] \<Rightarrow> clean_elements rooted (if rooted then [] else [x]) xs
         | y # ys \<Rightarrow> clean_elements rooted (if y = ''..'' then x # acc else ys) xs)
      else clean_elements rooted (x # acc) xs)"

definition path_elements :: "string \<Rightarrow> string list" where
  "path_elements p = clean_elements (has_prefix ''/'' p) [] (split_at (CHR ''/'') p)"

definition path_clean :: "string \<Rightarrow> string" where
  "path_clean p =
     (let body = join (path_elements p) ''/''
      in if has_prefix ''/'' p then CHR ''/'' # body else if body = [] then ''.'' else body)"

definition path_join :: "string \<Rightarrow> string \<Rightarrow> string" where
  "path_join p q =
     (if p = [] then if q = [] then [] else path_clean q
      else if q = [] then path_clean p else path_clean (p @ CHR ''/'' # q))"

text \<open>The directory of a path: what stands before the last slash, cleaned.\<close>

definition path_dir :: "string \<Rightarrow> string" where
  "path_dir p = path_clean (rev (dropWhile (\<lambda>c. c \<noteq> CHR ''/'') (rev p)))"

end
