(* ===== verification/Verify.thy ===== *)
theory Verify
  imports Scheduler_Service Digest_Store Go_Path
begin

text \<open>
  Verification of a local commit, \<open>cmd/master/verify.go\<close>: a bundle of commits is received, the pipeline
  file on its base branch is compared with the digest pinned for the project (trust on first use), and
  a build is submitted.  What git, the file system, SHA-256 and the \<open>diff\<close> program do is \<open>verify_env\<close>;
  the bundle directory maps paths to contents, so removing the bundle can be seen.
\<close>

section \<open>State, environment, messages\<close>

record verify_server =
  vs_digests :: digest_store
  vs_bundles :: files
  vs_bundleDir :: string

record verify_env =
  ve_create :: bool
  ve_write :: "string \<Rightarrow> bool"
  ve_close :: bool
  ve_bundle_ok :: "string \<Rightarrow> bool"
  ve_mktemp :: bool
  ve_clone :: "string \<Rightarrow> string \<Rightarrow> files option"
  ve_read :: bool
  ve_sha256 :: "string \<Rightarrow> string"
  ve_diff :: "string \<Rightarrow> string \<Rightarrow> string \<Rightarrow> string \<Rightarrow> string option"
  ve_save :: "digest_error option"
  ve_pin_keys :: "string list"

record verify_header =
  vh_ProjectId :: string
  vh_RepoName :: string
  vh_Branch :: string
  vh_BaseBranch :: string
  vh_CommitSha :: string
  vh_AcceptPipelineChange :: bool

datatype first_message = FirstFailed | NoHeader | Header verify_header

text \<open>The messages after the first; the end of the list is the end of the stream.\<close>

datatype chunk_message = Chunk string | NoChunk | ChunkFailed

datatype digest_status = DIGEST_OK | DIGEST_PINNED | DIGEST_ACCEPTED | DIGEST_CHANGED

record verify_response =
  vr_BuildId :: string
  vr_DigestStatus :: digest_status
  vr_PinnedDigest :: string
  vr_CurrentDigest :: string
  vr_PipelineDiff :: string
  vr_PipelinePath :: string
  vr_Error :: string

datatype verify_init_error = CreatingBundleDir | OpeningDigests digest_error

definition new_verify_server ::
    "(string \<Rightarrow> bool) \<Rightarrow> (string \<Rightarrow> store_file) \<Rightarrow> string \<Rightarrow> verify_init_error + verify_server" where
  "new_verify_server mkdir file dataRoot =
     (let bundleDir = path_join dataRoot ''bundles''; path = path_join dataRoot ''pipeline-digests.json''
      in if \<not> mkdir bundleDir then Inl CreatingBundleDir
         else case new_digest_store (mkdir (path_dir path)) (file path) of
           Inl e \<Rightarrow> Inl (OpeningDigests e)
         | Inr ds \<Rightarrow> Inr \<lparr> vs_digests = ds, vs_bundles = [], vs_bundleDir = bundleDir \<rparr>)"

section \<open>Differences\<close>

definition diff_fallback :: "string \<Rightarrow> string \<Rightarrow> string \<Rightarrow> string \<Rightarrow> string" where
  "diff_fallback oldPath oldContent newPath newContent =
     ''--- pinned/'' @ oldPath @ [CHR 0x0A] @ oldContent
     @ (if has_suffix [CHR 0x0A] oldContent then [] else [CHR 0x0A])
     @ ''+++ current/'' @ newPath @ [CHR 0x0A] @ newContent"

definition unified_diff :: "verify_env \<Rightarrow> string \<Rightarrow> string \<Rightarrow> string \<Rightarrow> string \<Rightarrow> string" where
  "unified_diff env oldPath oldContent newPath newContent =
     (case ve_diff env oldPath oldContent newPath newContent of
        None \<Rightarrow> diff_fallback oldPath oldContent newPath newContent
      | Some out \<Rightarrow> if out = [] then diff_fallback oldPath oldContent newPath newContent else out)"

section \<open>Receiving the bundle\<close>

text \<open>The loop over the chunks, with the bytes written so far.\<close>

fun receive_chunks :: "verify_env \<Rightarrow> chunk_message list \<Rightarrow> string \<Rightarrow> rpc_status + string" where
  "receive_chunks env [] acc =
     (if ve_close env then Inr acc else Inl (RpcStatus Internal ''closing bundle: ''))"
| "receive_chunks env (ChunkFailed # ms) acc = Inl (RpcStatus InvalidArgument ''receiving chunk: '')"
| "receive_chunks env (NoChunk # ms) acc =
     Inl (RpcStatus InvalidArgument ''after header, every message must contain a chunk'')"
| "receive_chunks env (Chunk c # ms) acc =
     (if ve_write env c then receive_chunks env ms (acc @ c)
      else Inl (RpcStatus Internal ''writing bundle: ''))"

definition base_branch :: "verify_header \<Rightarrow> string" where
  "base_branch h = (if vh_BaseBranch h = [] then ''master'' else vh_BaseBranch h)"

text \<open>The name and the content of the pipeline file on the base branch of the bundle.\<close>

definition base_pipeline :: "verify_env \<Rightarrow> verify_header \<Rightarrow> string \<Rightarrow> rpc_status + (string \<times> string)" where
  "base_pipeline env h bundle =
     (if \<not> ve_bundle_ok env bundle then Inl (RpcStatus InvalidArgument ''bundle verify failed: '')
      else if \<not> ve_mktemp env then Inl (RpcStatus Internal ''creating scratch dir: '')
      else case ve_clone env (base_branch h) bundle of
        None \<Rightarrow> Inl (RpcStatus InvalidArgument ''cloning base branch '')
      | Some tree \<Rightarrow>
     (case find_pipeline tree of
        None \<Rightarrow> Inl (RpcStatus FailedPrecondition ''no pipeline.yml or pipeline.yaml on base branch '')
      | Some rel \<Rightarrow>
          if \<not> ve_read env then Inl (RpcStatus Internal ''reading pipeline file: '')
          else Inr (rel, the (gget tree rel))))"

section \<open>Trust on first use\<close>

definition current_digest :: "verify_env \<Rightarrow> string \<Rightarrow> string" where
  "current_digest env content = ''sha256:'' @ ve_sha256 env content"

datatype digest_verdict =
    Trusted digest_status string string
  | Untrusted string string
  | PinFailed string

text \<open>The switch over the pinned record; a failing \<open>Pin\<close> of an unchanged digest is ignored.\<close>

definition check_digest ::
    "verify_env \<Rightarrow> time \<Rightarrow> verify_header \<Rightarrow> string \<Rightarrow> string \<Rightarrow> digest_store \<Rightarrow> digest_store \<times> digest_verdict" where
  "check_digest env now h rel content ds =
     (let current = current_digest env content; ks = ve_pin_keys env
      in case get_pin (vh_ProjectId h) ds of
        None \<Rightarrow>
          (case pin ks (ve_save env) now (vh_ProjectId h) (vh_RepoName h) current rel content ds of
             (ds', Some _) \<Rightarrow> (ds', PinFailed ''pinning digest: '')
           | (ds', None) \<Rightarrow> (ds', Trusted DIGEST_PINNED current []))
      | Some existing \<Rightarrow>
          if pp_Digest existing = current then
            (fst (pin ks (ve_save env) now (vh_ProjectId h) (vh_RepoName h) current rel content ds),
             Trusted DIGEST_OK (pp_Digest existing) [])
          else
            let diff = unified_diff env (pp_PipelinePath existing) (pp_Content existing) rel content
            in if vh_AcceptPipelineChange h then
                 (case repin ks (ve_save env) now (vh_ProjectId h) (vh_RepoName h) current rel content ds of
                    (ds', Some _) \<Rightarrow> (ds', PinFailed ''re-pinning digest: '')
                  | (ds', None) \<Rightarrow> (ds', Trusted DIGEST_ACCEPTED current diff))
               else (ds, Untrusted (pp_Digest existing) diff))"

section \<open>The handler\<close>

definition bundle_path :: "verify_server \<Rightarrow> string \<Rightarrow> string" where
  "bundle_path srv buildID = path_join (vs_bundleDir srv) (buildID @ ''.bundle'')"

definition verify_vars :: "verify_header \<Rightarrow> string \<Rightarrow> (string, string) gomap" where
  "verify_vars h bundlePath =
     [(''REPO_URL'', ''/relay-bundle.git''), (''BRANCH'', vh_Branch h), (''COMMIT_SHA'', vh_CommitSha h),
      (''BASE_BRANCH'', base_branch h), (''RELAY_BUNDLE_PATH'', bundlePath), (''RELAY_VERIFY'', ''1'')]"

definition verify_build :: "verify_header \<Rightarrow> string \<Rightarrow> graph \<Rightarrow> build" where
  "verify_build h buildID g =
     (let repoName = (if vh_RepoName h = [] then ''local:'' @ take 8 (vh_ProjectId h) else vh_RepoName h)
      in \<lparr> b_ID = buildID, b_Graph = g, b_RepoURL = ''bundle://'' @ buildID @ ''.bundle'',
           b_RepoFullName = [], b_SCMProvider = ProviderUnknown, b_SCMToken = [],
           b_CommitSHA = vh_CommitSha h, b_Branch = vh_Branch h, b_PRNumber = [],
           b_TriggeredBy = ''verify:'' @ repoName, b_CreatedAt = 0, b_StartedAt = 0, b_FinishedAt = 0 \<rparr>)"

text \<open>From the trusted pipeline to the build; the bundle is removed when anything fails.\<close>

definition submit_verified ::
    "intake_env \<Rightarrow> verify_env \<Rightarrow> verify_header \<Rightarrow> string \<Rightarrow> string \<Rightarrow> scheduler
       \<Rightarrow> scheduler \<times> (rpc_status + unit)" where
  "submit_verified env ve h content bundlePath s =
     (case parse (pe_unmarshal (ie_pipeline env)) content of
        Inl _ \<Rightarrow> (s, Inl (RpcStatus InvalidArgument ''parsing pipeline: ''))
      | Inr cfg \<Rightarrow>
     (case build_graph_of (ie_pipeline env) cfg of
        Inl _ \<Rightarrow> (s, Inl (RpcStatus InvalidArgument ''building pipeline graph: ''))
      | Inr g0 \<Rightarrow>
          let g = inject_env (ie_keys env g0) (verify_vars h bundlePath) g0;
              b = verify_build h (ie_newID env) g
          in case submit_build (ie_keys env g) (ie_keys env g) (ie_now env) b s of
               Inl _ \<Rightarrow> (s, Inl (RpcStatus Internal ''submitting build: ''))
             | Inr s' \<Rightarrow> (s', Inr ())))"

definition refusal :: "string \<Rightarrow> string \<Rightarrow> string \<Rightarrow> string \<Rightarrow> verify_response" where
  "refusal pinned current diff rel = \<lparr> vr_BuildId = [], vr_DigestStatus = DIGEST_CHANGED,
     vr_PinnedDigest = pinned, vr_CurrentDigest = current, vr_PipelineDiff = diff, vr_PipelinePath = rel,
     vr_Error = ''pipeline.yaml on base branch differs from pinned digest'' \<rparr>"

definition verify_bundle ::
    "intake_env \<Rightarrow> verify_env \<Rightarrow> verify_header \<Rightarrow> string \<Rightarrow> string \<Rightarrow> digest_store \<Rightarrow> scheduler
       \<Rightarrow> scheduler \<times> digest_store \<times> (rpc_status + verify_response)" where
  "verify_bundle env ve h bundle bundlePath ds s =
     (case base_pipeline ve h bundle of
        Inl e \<Rightarrow> (s, ds, Inl e)
      | Inr (rel, content) \<Rightarrow>
     (case check_digest ve (ie_now env) h rel content ds of
        (ds', PinFailed msg) \<Rightarrow> (s, ds', Inl (RpcStatus Internal msg))
      | (ds', Untrusted pinned diff) \<Rightarrow>
          (s, ds', Inr (refusal pinned (current_digest ve content) diff rel))
      | (ds', Trusted st pinned diff) \<Rightarrow>
          (case submit_verified env ve h content bundlePath s of
             (s', Inl e) \<Rightarrow> (s', ds', Inl e)
           | (s', Inr _) \<Rightarrow>
               (s', ds', Inr \<lparr> vr_BuildId = ie_newID env, vr_DigestStatus = st, vr_PinnedDigest = pinned,
                  vr_CurrentDigest = current_digest ve content, vr_PipelineDiff = diff,
                  vr_PipelinePath = rel, vr_Error = [] \<rparr>))))"

definition verify_local ::
    "intake_env \<Rightarrow> verify_env \<Rightarrow> first_message \<Rightarrow> chunk_message list \<Rightarrow> verify_server option \<Rightarrow> scheduler
       \<Rightarrow> scheduler \<times> verify_server option \<times> (rpc_status + verify_response)" where
  "verify_local env ve first ms server s =
     (case server of
        None \<Rightarrow> (s, None, Inl (RpcStatus Unimplemented ''verify is not enabled on this master''))
      | Some srv \<Rightarrow>
     (case first of
        FirstFailed \<Rightarrow> (s, Some srv, Inl (RpcStatus InvalidArgument ''receiving header: ''))
      | NoHeader \<Rightarrow> (s, Some srv, Inl (RpcStatus InvalidArgument ''first message must contain a header''))
      | Header h \<Rightarrow>
     (if vh_ProjectId h = [] \<or> vh_Branch h = []
      then (s, Some srv, Inl (RpcStatus InvalidArgument ''header.project_id and header.branch are required''))
      else if \<not> ve_create ve then (s, Some srv, Inl (RpcStatus Internal ''creating bundle file: ''))
      else
        let path = bundle_path srv (ie_newID env)
        in case receive_chunks ve ms [] of
             Inl e \<Rightarrow> (s, Some (srv\<lparr> vs_bundles := gdel path (vs_bundles srv) \<rparr>), Inl e)
           | Inr bundle \<Rightarrow>
               (case verify_bundle env ve h bundle path (vs_digests srv) s of
                  (s', ds', out) \<Rightarrow>
                    (s', Some (srv\<lparr> vs_digests := ds',
                       vs_bundles := (case out of
                           Inr r \<Rightarrow> if vr_Error r = [] then gput path bundle (vs_bundles srv)
                                     else gdel path (vs_bundles srv)
                         | Inl _ \<Rightarrow> gdel path (vs_bundles srv)) \<rparr>), out)))))"

record pb_pipeline_pin =
  pn_ProjectId :: string
  pn_RepoName :: string
  pn_Digest :: string
  pn_PipelinePath :: string
  pn_FirstSeen :: time
  pn_LastSeen :: time

definition list_pipeline_pins :: "string list \<Rightarrow> verify_server option \<Rightarrow> rpc_status + pb_pipeline_pin list" where
  "list_pipeline_pins ks server =
     (case server of
        None \<Rightarrow> Inl (RpcStatus Unimplemented ''verify is not enabled on this master'')
      | Some srv \<Rightarrow> Inr (map (\<lambda>p. \<lparr> pn_ProjectId = pp_ProjectID p, pn_RepoName = pp_RepoName p,
          pn_Digest = pp_Digest p, pn_PipelinePath = pp_PipelinePath p, pn_FirstSeen = pp_FirstSeen p,
          pn_LastSeen = pp_LastSeen p \<rparr>) (list_pins ks (vs_digests srv))))"

definition unpin_pipeline ::
    "string list \<Rightarrow> digest_error option \<Rightarrow> string \<Rightarrow> verify_server option
       \<Rightarrow> verify_server option \<times> (rpc_status + bool)" where
  "unpin_pipeline ks err projectId server =
     (case server of
        None \<Rightarrow> (None, Inl (RpcStatus Unimplemented ''verify is not enabled on this master''))
      | Some srv \<Rightarrow>
          if projectId = [] then (Some srv, Inl (RpcStatus InvalidArgument ''project_id is required''))
          else case unpin ks err projectId (vs_digests srv) of
            (ds', removed, e) \<Rightarrow>
              (Some (srv\<lparr> vs_digests := ds' \<rparr>),
               case e of None \<Rightarrow> Inr removed | Some _ \<Rightarrow> Inl (RpcStatus Internal ''unpinning: '')))"

section \<open>Properties\<close>

definition pinned_to :: "digest_store \<Rightarrow> string \<Rightarrow> string \<Rightarrow> bool" where
  "pinned_to ds p d \<longleftrightarrow> (\<exists>r. get_pin p ds = Some r \<and> pp_Digest r = d)"

lemma get_pin_save [simp]: "get_pin p (fst (save_locked ks err ds)) = get_pin p ds"
  by (simp add: get_pin_def save_locked_records)

lemma pin_pins: "pinned_to (fst (pin ks err now p n d f c ds)) p d"
  unfolding pin_def Let_def pinned_to_def get_pin_save
  by (auto simp: get_pin_def split: option.split)

lemma repin_pins: "pinned_to (fst (repin ks err now p n d f c ds)) p d"
  unfolding repin_def Let_def pinned_to_def get_pin_save by (simp add: get_pin_def)

text \<open>What the caller has to have done for a digest to be trusted.\<close>

definition trust_reason :: "verify_header \<Rightarrow> string \<Rightarrow> digest_store \<Rightarrow> digest_status \<Rightarrow> bool" where
  "trust_reason h d ds st \<longleftrightarrow>
     (case get_pin (vh_ProjectId h) ds of
        None \<Rightarrow> st = DIGEST_PINNED
      | Some old \<Rightarrow> if pp_Digest old = d then st = DIGEST_OK
                    else vh_AcceptPipelineChange h \<and> st = DIGEST_ACCEPTED)"

lemma check_digest_spec:
  assumes "check_digest ve now h rel content ds = (ds', v)"
  shows "case v of
      Trusted st pinned diff \<Rightarrow> pinned = current_digest ve content
        \<and> pinned_to ds' (vh_ProjectId h) (current_digest ve content)
        \<and> trust_reason h (current_digest ve content) ds st
    | Untrusted pinned diff \<Rightarrow> ds' = ds \<and> \<not> vh_AcceptPipelineChange h \<and> pinned \<noteq> current_digest ve content
        \<and> pinned_to ds (vh_ProjectId h) pinned
    | PinFailed msg \<Rightarrow> True"
proof (cases "get_pin (vh_ProjectId h) ds")
  case None
  obtain ds1 e where p: "pin (ve_pin_keys ve) (ve_save ve) now (vh_ProjectId h) (vh_RepoName h)
      (current_digest ve content) rel content ds = (ds1, e)" by (metis prod.collapse)
  have "pinned_to ds1 (vh_ProjectId h) (current_digest ve content)"
    using pin_pins [of "ve_pin_keys ve" "ve_save ve" now] p by (metis fst_conv)
  then show ?thesis using assms None p
    by (auto simp: check_digest_def Let_def trust_reason_def split: option.splits)
next
  case (Some old)
  show ?thesis
  proof (cases "pp_Digest old = current_digest ve content")
    case True
    then show ?thesis using assms Some pin_pins
      by (auto simp: check_digest_def Let_def trust_reason_def)
  next
    case False
    obtain ds1 e where p: "repin (ve_pin_keys ve) (ve_save ve) now (vh_ProjectId h) (vh_RepoName h)
        (current_digest ve content) rel content ds = (ds1, e)" by (metis prod.collapse)
    have "pinned_to ds1 (vh_ProjectId h) (current_digest ve content)"
      using repin_pins [of "ve_pin_keys ve" "ve_save ve" now] p by (metis fst_conv)
    then show ?thesis using assms Some False p
      by (auto simp: check_digest_def Let_def trust_reason_def pinned_to_def split: option.splits if_splits)
  qed
qed

definition verify_graph :: "intake_env \<Rightarrow> verify_header \<Rightarrow> string \<Rightarrow> graph \<Rightarrow> graph" where
  "verify_graph env h path g0 = inject_env (ie_keys env g0) (verify_vars h path) g0"

lemma submit_verified_spec:
  assumes "submit_verified env ve h content path s = (s', out)" "pipeline_orders_ok (ie_pipeline env)"
  shows "case out of
      Inl e \<Rightarrow> s' = s
    | Inr u \<Rightarrow> sched_step s s' \<and> gget (s_builds s) (ie_newID env) = None
        \<and> (\<exists>cfg b. parse (pe_unmarshal (ie_pipeline env)) content = Inr cfg
            \<and> built_from (b_Graph b) cfg (verify_vars h path)
            \<and> b = verify_build h (ie_newID env) (b_Graph b)
            \<and> s_builds s' = gput (ie_newID env) (b\<lparr> b_CreatedAt := ie_now env \<rparr>) (s_builds s))"
proof (cases "parse (pe_unmarshal (ie_pipeline env)) content")
  case (Inl e)
  then show ?thesis using assms(1) by (auto simp: submit_verified_def)
next
  case cfg: (Inr cfg)
  show ?thesis
  proof (cases "build_graph_of (ie_pipeline env) cfg")
    case (Inl e)
    then show ?thesis using assms(1) cfg by (auto simp: submit_verified_def)
  next
    case g0: (Inr g0)
    let ?g = "verify_graph env h path g0"
    let ?b = "verify_build h (ie_newID env) ?g"
    have bg: "b_Graph ?b = ?g" "b_ID ?b = ie_newID env" by (simp_all add: verify_build_def Let_def)
    have bf: "built_from ?g cfg (verify_vars h path)"
      unfolding verify_graph_def by (rule built_from_inject [OF g0 assms(2)])
    have out: "(s', out) = (case submit_build (ie_keys env ?g) (ie_keys env ?g) (ie_now env) ?b s of
        Inl _ \<Rightarrow> (s, Inl (RpcStatus Internal ''submitting build: '')) | Inr s' \<Rightarrow> (s', Inr ()))"
      using assms(1) cfg g0 by (simp add: submit_verified_def verify_graph_def Let_def)
    show ?thesis
    proof (cases "submit_build (ie_keys env ?g) (ie_keys env ?g) (ie_now env) ?b s")
      case (Inl e)
      then show ?thesis using out by simp
    next
      case (Inr s1)
      have "wf_graph (b_Graph ?b)" "all_pending (b_Graph ?b)"
        unfolding bg using bf by (auto simp only: built_from_def)
      then have st: "sched_step s s1" by (rule sched_step.submit [OF Inr])
      have new: "gget (s_builds s) (ie_newID env) = None"
        "s_builds s1 = gput (ie_newID env) (?b\<lparr> b_CreatedAt := ie_now env \<rparr>) (s_builds s)"
        using submit_build_adds [OF Inr] by (simp_all only: bg)
      have "built_from (b_Graph ?b) cfg (verify_vars h path)" unfolding bg by (rule bf)
      moreover have "?b = verify_build h (ie_newID env) (b_Graph ?b)" by (simp only: bg)
      ultimately have ex: "\<exists>b. built_from (b_Graph b) cfg (verify_vars h path)
          \<and> b = verify_build h (ie_newID env) (b_Graph b)
          \<and> s_builds s1 = gput (ie_newID env) (b\<lparr> b_CreatedAt := ie_now env \<rparr>) (s_builds s)"
        using new(2) by blast
      have r: "s' = s1" "out = Inr ()" using out Inr by simp_all
      show ?thesis unfolding r sum.case using st new(1) cfg ex by blast
    qed
  qed
qed

text \<open>What a successful verification means for one bundle.\<close>

definition verified_by ::
    "intake_env \<Rightarrow> verify_env \<Rightarrow> verify_header \<Rightarrow> string \<Rightarrow> string \<Rightarrow> digest_store \<Rightarrow> digest_store
       \<Rightarrow> scheduler \<Rightarrow> scheduler \<Rightarrow> digest_status \<Rightarrow> bool" where
  "verified_by env ve h bundle path ds ds' s s' st \<longleftrightarrow> (\<exists>rel content cfg b.
     base_pipeline ve h bundle = Inr (rel, content)
     \<and> parse (pe_unmarshal (ie_pipeline env)) content = Inr cfg
     \<and> pinned_to ds' (vh_ProjectId h) (current_digest ve content)
     \<and> trust_reason h (current_digest ve content) ds st
     \<and> built_from (b_Graph b) cfg (verify_vars h path)
     \<and> b = verify_build h (ie_newID env) (b_Graph b) \<and> gget (s_builds s) (ie_newID env) = None
     \<and> s_builds s' = gput (ie_newID env) (b\<lparr> b_CreatedAt := ie_now env \<rparr>) (s_builds s))"

lemma verify_bundle_spec:
  assumes "verify_bundle env ve h bundle path ds s = (s', ds', out)" "pipeline_orders_ok (ie_pipeline env)"
  shows "case out of
      Inl e \<Rightarrow> s' = s
    | Inr r \<Rightarrow>
        if vr_Error r = [] then sched_step s s' \<and> vr_BuildId r = ie_newID env
          \<and> verified_by env ve h bundle path ds ds' s s' (vr_DigestStatus r)
        else s' = s \<and> ds' = ds \<and> vr_BuildId r = [] \<and> vr_DigestStatus r = DIGEST_CHANGED
          \<and> \<not> vh_AcceptPipelineChange h \<and> vr_CurrentDigest r \<noteq> vr_PinnedDigest r
          \<and> pinned_to ds (vh_ProjectId h) (vr_PinnedDigest r)"
proof (cases "base_pipeline ve h bundle")
  case (Inl e)
  then show ?thesis using assms(1) by (auto simp: verify_bundle_def)
next
  case (Inr rc)
  obtain rel content where rc: "rc = (rel, content)" by (cases rc)
  obtain ds1 v where cd: "check_digest ve (ie_now env) h rel content ds = (ds1, v)"
    by (metis prod.collapse)
  note spec = check_digest_spec [OF cd]
  show ?thesis
  proof (cases v)
    case (Untrusted pinned diff)
    then show ?thesis
      using assms(1) Inr rc cd spec by (auto simp: verify_bundle_def refusal_def)
  next
    case (PinFailed msg)
    then show ?thesis using assms(1) Inr rc cd by (auto simp: verify_bundle_def)
  next
    case (Trusted st pinned diff)
    obtain s1 o1 where sv: "submit_verified env ve h content path s = (s1, o1)" by (metis prod.collapse)
    note sub = submit_verified_spec [OF sv assms(2)]
    show ?thesis
    proof (cases o1)
      case (Inl e)
      then show ?thesis using assms(1) Inr rc cd Trusted sv sub by (auto simp: verify_bundle_def)
    next
      case o1: (Inr u)
      then have r: "s' = s1" "ds' = ds1" "out = Inr \<lparr> vr_BuildId = ie_newID env, vr_DigestStatus = st,
          vr_PinnedDigest = pinned, vr_CurrentDigest = current_digest ve content, vr_PipelineDiff = diff,
          vr_PipelinePath = rel, vr_Error = [] \<rparr>"
        using assms(1) Inr rc cd Trusted sv by (simp_all add: verify_bundle_def)
      have "verified_by env ve h bundle path ds ds1 s s1 st"
        unfolding verified_by_def using Inr [unfolded rc] spec [unfolded Trusted digest_verdict.case]
          sub [unfolded o1 sum.case] by blast
      then show ?thesis using sub o1 by (simp add: r)
    qed
  qed
qed

lemma verify_local_submits:
  assumes "verify_local env ve first ms (Some srv) s = (s', server, out)"
    and "pipeline_orders_ok (ie_pipeline env)" "s' \<noteq> s"
  shows "\<exists>h blob rel content cfg b path. sched_step s s' \<and> base_pipeline ve h blob = Inr (rel, content)
    \<and> parse (pe_unmarshal (ie_pipeline env)) content = Inr cfg \<and> built_from (b_Graph b) cfg (verify_vars h path)
    \<and> b = verify_build h (ie_newID env) (b_Graph b)
    \<and> s_builds s' = gput (ie_newID env) (b\<lparr> b_CreatedAt := ie_now env \<rparr>) (s_builds s)"
proof -
  obtain h bs ds' out' where vb: "verify_bundle env ve h bs (bundle_path srv (ie_newID env)) (vs_digests srv) s
      = (s', ds', out')"
    using assms(1,3)
    by (auto simp: verify_local_def Let_def split: first_message.splits if_splits sum.splits prod.splits)
  have "sched_step s s' \<and> (\<exists>st. verified_by env ve h bs (bundle_path srv (ie_newID env)) (vs_digests srv) ds' s s' st)"
    using verify_bundle_spec [OF vb assms(2)] assms(3) by (cases out') (auto split: if_splits)
  then show ?thesis unfolding verified_by_def by blast
qed

text \<open>C13. Trust on first use: \<open>VerifyLocal\<close> submits a build only for a pipeline whose digest is pinned for
  the project afterwards, and which was pinned before, or is the first the project ever shows, or was
  accepted explicitly. The build is the one that pipeline describes, with the bundle as its
  repository, and it is the only change to the builds. A pipeline that differs from the pinned one is
  refused with both digests and nothing is changed. In every case but success the received bundle is
  not kept.\<close>

theorem verify_trusts_only_pinned:
  assumes "verify_local env ve first ms (Some srv) s = (s', server, out)"
    and "pipeline_orders_ok (ie_pipeline env)"
  shows "\<exists>srv'. server = Some srv'
    \<and> (case out of
         Inl e \<Rightarrow> s' = s \<and> (\<forall>p. gget (vs_bundles srv') p \<noteq> None \<longrightarrow> gget (vs_bundles srv') p = gget (vs_bundles srv) p)
       | Inr r \<Rightarrow> (\<exists>h bundle. first = Header h \<and> receive_chunks ve ms [] = Inr bundle
           \<and> (if vr_Error r = [] then vr_BuildId r = ie_newID env
                \<and> vs_bundles srv' = gput (bundle_path srv (ie_newID env)) bundle (vs_bundles srv)
                \<and> verified_by env ve h bundle (bundle_path srv (ie_newID env)) (vs_digests srv)
                    (vs_digests srv') s s' (vr_DigestStatus r)
              else s' = s \<and> vs_digests srv' = vs_digests srv \<and> vr_DigestStatus r = DIGEST_CHANGED
                \<and> vs_bundles srv' = gdel (bundle_path srv (ie_newID env)) (vs_bundles srv)
                \<and> \<not> vh_AcceptPipelineChange h \<and> vr_CurrentDigest r \<noteq> vr_PinnedDigest r
                \<and> pinned_to (vs_digests srv) (vh_ProjectId h) (vr_PinnedDigest r))))"
proof (cases first)
  case FirstFailed
  then show ?thesis using assms(1) by (auto simp: verify_local_def)
next
  case NoHeader
  then show ?thesis using assms(1) by (auto simp: verify_local_def)
next
  case (Header h)
  let ?p = "bundle_path srv (ie_newID env)"
  show ?thesis
  proof (cases "vh_ProjectId h = [] \<or> vh_Branch h = [] \<or> \<not> ve_create ve")
    case True
    then show ?thesis using assms(1) Header by (auto simp: verify_local_def split: if_splits)
  next
    case ok: False
    show ?thesis
    proof (cases "receive_chunks ve ms []")
      case (Inl e)
      then show ?thesis using assms(1) Header ok by (auto simp: verify_local_def Let_def split: if_splits)
    next
      case (Inr bs)
      obtain s1 ds1 o1 where vb: "verify_bundle env ve h bs ?p (vs_digests srv) s = (s1, ds1, o1)"
        using prod_cases3 by blast
      note spec = verify_bundle_spec [OF vb assms(2)]
      have r: "s' = s1" "out = o1" "server = Some (srv\<lparr> vs_digests := ds1,
          vs_bundles := (case o1 of Inr r \<Rightarrow> if vr_Error r = [] then gput ?p bs (vs_bundles srv)
              else gdel ?p (vs_bundles srv) | Inl _ \<Rightarrow> gdel ?p (vs_bundles srv)) \<rparr>)"
        using assms(1) Header ok Inr vb by (auto simp: verify_local_def Let_def)
      show ?thesis
        unfolding r(3) option.inject using spec Header Inr r(1,2) by (cases o1) auto
    qed
  qed
qed


definition small_verify_env :: "digest_error option \<Rightarrow> verify_env" where
  "small_verify_env err = \<lparr> ve_create = True, ve_write = (\<lambda>_. True), ve_close = True, ve_bundle_ok = (\<lambda>_. True),
     ve_mktemp = True, ve_clone = (\<lambda>_ b. Some [(''pipeline.yaml'', b)]), ve_read = True, ve_sha256 = (\<lambda>c. c),
     ve_diff = (\<lambda>_ _ _ _. None), ve_save = err, ve_pin_keys = [''p''] \<rparr>"

definition small_header :: verify_header where
  "small_header = \<lparr> vh_ProjectId = ''p'', vh_RepoName = [], vh_Branch = ''x'', vh_BaseBranch = [],
     vh_CommitSha = ''c'', vh_AcceptPipelineChange = False \<rparr>"

definition small_verify :: "string \<Rightarrow> verify_server \<Rightarrow> scheduler \<times> verify_server option \<times> (rpc_status + verify_response)" where
  "small_verify bundle srv = verify_local small_intake (small_verify_env None) (Header small_header)
     [Chunk bundle] (Some srv) (new_scheduler (new_registry 30))"

definition small_verify_server :: verify_server where
  "small_verify_server = \<lparr> vs_digests = empty_pins, vs_bundles = [], vs_bundleDir = ''/b'' \<rparr>"

definition second_server :: verify_server where
  "second_server = (case fst (snd (small_verify ''one'' small_verify_server)) of
     None \<Rightarrow> small_verify_server | Some srv \<Rightarrow> srv)"

theorem verify_trusts_only_pinned_witness:
  "(case snd (snd (small_verify ''two'' second_server)) of
      Inl e \<Rightarrow> False | Inr r \<Rightarrow> vr_DigestStatus r = DIGEST_CHANGED \<and> vr_Error r \<noteq> [])
   \<and> fst (small_verify ''two'' second_server) = new_scheduler (new_registry 30)
   \<and> (case snd (snd (small_verify ''one'' second_server)) of
      Inl e \<Rightarrow> False | Inr r \<Rightarrow> vr_DigestStatus r = DIGEST_OK)"
proof -
  have o: "pipeline_orders_ok (ie_pipeline small_intake)" using small_orders_ok by (simp add: small_intake_def)
  have e: "small_verify ''two'' second_server = (fst (small_verify ''two'' second_server),
      fst (snd (small_verify ''two'' second_server)), snd (snd (small_verify ''two'' second_server)))" by simp
  have c: "case snd (snd (small_verify ''two'' second_server)) of
      Inl e \<Rightarrow> False | Inr r \<Rightarrow> vr_DigestStatus r = DIGEST_CHANGED \<and> vr_Error r \<noteq> []" by code_simp
  moreover have "case snd (snd (small_verify ''one'' second_server)) of
      Inl e \<Rightarrow> False | Inr r \<Rightarrow> vr_DigestStatus r = DIGEST_OK" by code_simp
  moreover have "fst (small_verify ''two'' second_server) = new_scheduler (new_registry 30)"
    using verify_trusts_only_pinned [OF e [unfolded small_verify_def] o] c
    by (auto simp: small_verify_def split: sum.splits if_splits)
  ultimately show ?thesis by blast
qed


end
