(* ===== verification/Master.thy ===== *)
theory Master
  imports Api Worker_Service Log_Service Secrets_Service Retention Rate_Limiter Verify
begin

text \<open>
  The master process, \<open>cmd/master/main.go\<close>: how it starts, its scheduling loop, and all its handlers
  as one transition system over the state they share.  A step of \<open>master_step\<close> is one call of a
  handler, one turn of the loop or one goroutine a handler has started.  Handlers that only read the
  state are no steps.  Every build of a reachable master follows the pipeline it was submitted with.
\<close>

section \<open>State and start\<close>

record master =
  m_sched :: scheduler
  m_logs :: log_store
  m_secrets :: secret_store
  m_dispatcher :: dispatcher
  m_verify :: "verify_server option"
  m_limiter :: rate_limiter

text \<open>What \<open>main\<close> finds: the environment variables, the files they name, and whether directories and
  the database can be opened.\<close>

record startup =
  su_getenv :: "string \<Rightarrow> string"
  su_read :: "string \<Rightarrow> string option"
  su_mkdir :: "string \<Rightarrow> bool"
  su_open :: "string \<Rightarrow> sqlite_store option"
  su_open_logs :: "string \<Rightarrow> (string, line list) gomap option"
  su_digests :: "string \<Rightarrow> store_file"
  su_float :: "string \<Rightarrow> rat option"
  su_now :: time

definition data_root :: "startup \<Rightarrow> string" where
  "data_root u = env_or_default (su_getenv u) ''DATA_ROOT'' ''.relay-ci''"

definition load_secrets :: "startup \<Rightarrow> secret_store" where
  "load_secrets u =
     load_secrets_file (su_now u) (su_read u (env_or_default (su_getenv u) ''DOTENV_FILE'' ''.env''))
       (load_secrets_file (su_now u) (su_read u (env_or_default (su_getenv u) ''SECRETS_FILE'' ''.secrets.env''))
          new_secret_store)"

definition open_store :: "startup \<Rightarrow> any_store option" where
  "open_store u =
     (let dbPath = env_or_default (su_getenv u) ''DB_PATH'' (data_root u @ ''/relay-ci.db'')
      in if dbPath = '':memory:'' then Some (MemBacked new_mem_store)
         else if \<not> su_mkdir u (data_root u) then None
         else map_option SqliteBacked (su_open u dbPath))"

definition open_logs :: "startup \<Rightarrow> log_store option" where
  "open_logs u =
     (if su_getenv u ''LOG_DIR'' \<noteq> [] then map_option new_with_file (su_open_logs u (su_getenv u ''LOG_DIR''))
      else Some new_log_store)"

text \<open>The master after its initialization, or none when \<open>main\<close> exits with status 1.\<close>

definition start_master :: "startup \<Rightarrow> master option" where
  "start_master u =
     (case open_store u of
        None \<Rightarrow> None
      | Some st \<Rightarrow>
     (case open_logs u of
        None \<Rightarrow> None
      | Some logs \<Rightarrow>
     (case new_verify_server (su_mkdir u) (su_digests u) (data_root u) of
        Inl _ \<Rightarrow> None
      | Inr v \<Rightarrow>
          Some \<lparr> m_sched = set_store st (new_scheduler (new_registry (30 * second))), m_logs = logs,
            m_secrets = load_secrets u, m_dispatcher = new_dispatcher, m_verify = Some v,
            m_limiter = new_rate_limiter_from_env (su_float u) (su_getenv u) \<rparr>)))"

section \<open>The scheduling loop\<close>

text \<open>One tick: a scheduling cycle, then the workers whose heartbeat is overdue are declared dead and
  their tasks failed.  The argument \<open>wks w\<close> is the order of the range over the tasks of worker \<open>w\<close>.\<close>

fun handle_dead_workers ::
    "(string \<Rightarrow> string \<Rightarrow> string list) \<Rightarrow> (string \<Rightarrow> string \<Rightarrow> string list) \<Rightarrow> time \<Rightarrow> (string \<Rightarrow> string list)
       \<Rightarrow> string list \<Rightarrow> scheduler \<Rightarrow> scheduler" where
  "handle_dead_workers ord kids now wks [] s = s"
| "handle_dead_workers ord kids now wks (w # ws) s =
     handle_dead_workers ord kids now wks ws (handle_dead_worker ord kids now (wks w) w s)"

record tick_env =
  te_sched :: sched_env
  te_builds :: "string list"
  te_workers :: "string list"
  te_ord :: "string \<Rightarrow> string \<Rightarrow> string list"
  te_kids :: "string \<Rightarrow> string \<Rightarrow> string list"
  te_tasks :: "string \<Rightarrow> string list"
  te_now :: time

definition scheduling_tick :: "tick_env \<Rightarrow> scheduler \<Rightarrow> scheduler" where
  "scheduling_tick te s =
     (case schedule (te_sched te) (te_builds te) s of
        (s1, n, early) \<Rightarrow>
     (case check_heartbeats (te_workers te) (te_now te) (s_registry s1) of
        (r, dead) \<Rightarrow>
          handle_dead_workers (te_ord te) (te_kids te) (te_now te) (te_tasks te) dead (set_registry r s1)))"

text \<open>The orders are possible orders of the maps they stand for.\<close>

definition tick_ok :: "tick_env \<Rightarrow> scheduler \<Rightarrow> bool" where
  "tick_ok te s \<longleftrightarrow> env_ok (te_sched te) s \<and> dead_orders_ok (te_ord te) (te_kids te) s"

section \<open>The transition system\<close>

text \<open>What does not change while a master runs: the webhook secret, the public URL and the clients of
  the git hosts; and the environments the three ways to submit a build may meet.\<close>

record master_config =
  mc_secret :: string
  mc_publicURL :: string
  mc_clients :: "client list"

record master_world =
  mw_config :: master_config
  mw_envs :: "intake_env set"

definition webhook_handler_of :: "master_config \<Rightarrow> master \<Rightarrow> webhook_handler" where
  "webhook_handler_of c m = \<lparr> wh_router = new_router (mc_clients c), wh_defaultSecret = mc_secret c,
     wh_secretStore = m_secrets m, wh_publicURL = mc_publicURL c \<rparr>"

text \<open>The \<open>/webhooks\<close> endpoint: the rate limiter in front of the handler.\<close>

definition master_webhook ::
    "master_config \<Rightarrow> intake_env \<Rightarrow> string \<Rightarrow> string \<Rightarrow> string \<Rightarrow> http_in \<Rightarrow> master \<Rightarrow> master \<times> scm_call list \<times> reply" where
  "master_webhook c env xff addr meth r m =
     (case limit_middleware (ie_now env) xff addr
             (\<lambda>_. serve_http env (webhook_handler_of c m) meth r (m_sched m)) (m_limiter m) of
        (rl, Inl code) \<Rightarrow> (m\<lparr> m_limiter := rl \<rparr>, [], Reply code (ErrorText ''rate limit exceeded''))
      | (rl, Inr (s', calls, rep)) \<Rightarrow> (m\<lparr> m_sched := s', m_limiter := rl \<rparr>, calls, rep))"

inductive master_step :: "master_world \<Rightarrow> master \<Rightarrow> master \<Rightarrow> bool" for w :: master_world where
  webhook: "env \<in> mw_envs w \<Longrightarrow> master_webhook (mw_config w) env xff addr meth r m = (m', calls, rep) \<Longrightarrow> master_step w m m'"
| submission: "env \<in> mw_envs w \<Longrightarrow> grpc_submit_build env he req (m_sched m) = (s', out) \<Longrightarrow>
    master_step w m (m\<lparr> m_sched := s' \<rparr>)"
| verification: "env \<in> mw_envs w \<Longrightarrow> verify_local env ve first ms (m_verify m) (m_sched m) = (s', v', out) \<Longrightarrow>
    master_step w m (m\<lparr> m_sched := s', m_verify := v' \<rparr>)"
| unpinning: "unpin_pipeline ks err p (m_verify m) = (v', out) \<Longrightarrow> master_step w m (m\<lparr> m_verify := v' \<rparr>)"
| cancellation: "grpc_cancel_build rt keys now x (m_sched m) = (s', calls, out) \<Longrightarrow>
    master_step w m (m\<lparr> m_sched := s' \<rparr>)"
| registration: "rpc_register now req (m_sched m) = (s', out) \<Longrightarrow> master_step w m (m\<lparr> m_sched := s' \<rparr>)"
| heartbeats: "rpc_heartbeat send_ok ms (m_sched m) = (s', e) \<Longrightarrow> master_step w m (m\<lparr> m_sched := s' \<rparr>)"
| report: "kids_ok kids \<Longrightarrow> rpc_report_result kids now now' result (m_sched m) = (s', jobs, out) \<Longrightarrow>
    master_step w m (m\<lparr> m_sched := s' \<rparr>)"
| goroutine: "run_job srv keys env j (m_sched m) (Some (m_dispatcher m)) = (s', Some d, calls, addrs) \<Longrightarrow>
    master_step w m (m\<lparr> m_sched := s', m_dispatcher := d \<rparr>)"
| tick: "tick_ok te (m_sched m) \<Longrightarrow> master_step w m (m\<lparr> m_sched := scheduling_tick te (m_sched m) \<rparr>)"
| dispatching: "dispatch env a (s_registry (m_sched m)) (m_dispatcher m) = (d, out) \<Longrightarrow>
    master_step w m (m\<lparr> m_dispatcher := d \<rparr>)"
| pushing: "push_logs ms (m_logs m) = (ls, ok) \<Longrightarrow> master_step w m (m\<lparr> m_logs := ls \<rparr>)"
| following: "stream_logs accepts req (m_logs m) = Following ls i \<Longrightarrow> master_step w m (m\<lparr> m_logs := ls \<rparr>)"
| forwarding: "follow_next accepts i (m_logs m) = Forwarded l ls \<Longrightarrow> master_step w m (m\<lparr> m_logs := ls \<rparr>)"
| putting: "rpc_put_secret now scope n v (m_secrets m) = (st, out) \<Longrightarrow> master_step w m (m\<lparr> m_secrets := st \<rparr>)"
| deleting: "rpc_delete_secret scope n (m_secrets m) = (st, out) \<Longrightarrow> master_step w m (m\<lparr> m_secrets := st \<rparr>)"
| pruning: "run_prune ks cutoff (s_store (m_sched m)) files = (st, files') \<Longrightarrow>
    master_step w m (m\<lparr> m_sched := set_store st (m_sched m) \<rparr>)"
| forgetting: "master_step w m (m\<lparr> m_limiter := prune_buckets now (m_limiter m) \<rparr>)"

inductive master_reach :: "master_world \<Rightarrow> master \<Rightarrow> bool" for w :: master_world where
  started: "start_master u = Some m \<Longrightarrow> master_reach w m"
| continued: "master_reach w m \<Longrightarrow> master_step w m m' \<Longrightarrow> master_reach w m'"

section \<open>What a submitted build is\<close>

text \<open>How a build of a master came to be: by a webhook that knows the secret, by the scheduler service,
  or by the verification of a bundle; each with the pipeline it was made from and the variables its
  tasks were given.\<close>

definition submitted_for ::
    "master_world \<Rightarrow> build \<Rightarrow> config \<Rightarrow> (string, string) gomap \<Rightarrow> bool" where
  "submitted_for w b cfg vars \<longleftrightarrow> (\<exists>env \<in> mw_envs w.
     fetched_config env (webhook_source b) cfg \<and> vars = webhook_vars b
       \<and> (mc_secret (mw_config w) \<noteq> [] \<longrightarrow> (\<exists>r. authentic_for (ie_scm env) (b_SCMProvider b) r (mc_secret (mw_config w))))
   \<or> (\<exists>he src. fetched_config env src cfg \<and> vars = grpc_build_env he src \<and> b_RepoURL b = gs_RepoUrl src
       \<and> b_CommitSHA b = gs_CommitSha src \<and> b_Branch b = gs_Branch src)
   \<or> (\<exists>ve h path blob rel content. base_pipeline ve h blob = Inr (rel, content)
       \<and> parse (pe_unmarshal (ie_pipeline env)) content = Inr cfg \<and> vars = verify_vars h path
       \<and> b_CommitSHA b = vh_CommitSha h \<and> b_Branch b = vh_Branch h))"

lemma submitted_for_same:
  assumes "b_RepoURL b' = b_RepoURL b" "b_CommitSHA b' = b_CommitSHA b" "b_Branch b' = b_Branch b"
    "b_PRNumber b' = b_PRNumber b" "b_SCMProvider b' = b_SCMProvider b"
  shows "submitted_for w b' cfg vars = submitted_for w b cfg vars"
  by (simp add: submitted_for_def webhook_source_def webhook_vars_def assms)

lemma build_origin_fields:
  assumes "build_origin b' = build_origin b"
  shows "b_RepoURL b' = b_RepoURL b" "b_CommitSHA b' = b_CommitSHA b" "b_Branch b' = b_Branch b"
    "b_PRNumber b' = b_PRNumber b" "b_SCMProvider b' = b_SCMProvider b"
  using assms by (cases b; cases b'; simp add: build_origin_def)+

text \<open>The graph of the build has come from that pipeline by graph steps.\<close>

definition traced :: "master_world \<Rightarrow> build \<Rightarrow> bool" where
  "traced w b \<longleftrightarrow> (\<exists>cfg vars g0 es. submitted_for w b cfg vars \<and> built_from g0 cfg vars
     \<and> graph_run g0 es (b_Graph b))"

lemma traced_new:
  assumes "submitted_for w b cfg vars" "built_from (b_Graph b) cfg vars"
  shows "traced w b"
  unfolding traced_def using assms run_start by blast

lemma traced_moves:
  assumes "traced w b" "build_origin b' = build_origin b" "graph_run (b_Graph b) es (b_Graph b')"
  shows "traced w b'"
  using assms(1) graph_run_append [OF assms(3)] submitted_for_same [OF build_origin_fields [OF assms(2)]]
  unfolding traced_def by metis

definition all_traced :: "master_world \<Rightarrow> scheduler \<Rightarrow> bool" where
  "all_traced w s \<longleftrightarrow> (\<forall>x b. gget (s_builds s) x = Some b \<longrightarrow> traced w b)"

lemma all_traced_evolves:
  assumes "evolves s s'" "all_traced w s"
  shows "all_traced w s'"
  unfolding all_traced_def
proof (intro allI impI)
  fix x b' assume b': "gget (s_builds s') x = Some b'"
  then obtain b where b: "gget (s_builds s) x = Some b"
    using evolvesD_None [OF assms(1)] by (cases "gget (s_builds s) x") auto
  have t: "traced w b" using assms(2) b by (simp add: all_traced_def)
  from evolvesD_origin [OF assms(1) b] b' obtain es where
    "build_origin b' = build_origin b" "graph_run (b_Graph b) es (b_Graph b')" by auto
  from traced_moves [OF t this] show "traced w b'" .
qed

lemma all_traced_submit:
  assumes "all_traced w s" "s_builds s' = gput x (b\<lparr> b_CreatedAt := now \<rparr>) (s_builds s)" "traced w b"
  shows "all_traced w s'"
proof -
  have "traced w (b\<lparr> b_CreatedAt := now \<rparr>)"
    using assms(3) submitted_for_same [of "b\<lparr> b_CreatedAt := now \<rparr>" b w] by (simp add: traced_def)
  then show ?thesis using assms(1,2) by (simp add: all_traced_def)
qed

section \<open>Every step keeps the invariants\<close>

lemma evolves_dead_workers:
  "dead_orders_ok ord kids s \<Longrightarrow> evolves s (handle_dead_workers ord kids now wks ws s)"
proof (induction ws arbitrary: s)
  case Nil
  then show ?case by (simp add: evolves_same)
next
  case (Cons x ws)
  have e: "evolves s (handle_dead_worker ord kids now (wks x) x s)"
    unfolding handle_dead_worker_def by (rule evolves_fail_tasks [OF Cons.prems])
  from Cons.IH [OF dead_orders_evolves [OF Cons.prems e]] e show ?case using evolves_trans by simp
qed

lemma dead_workers_steps:
  "dead_orders_ok ord kids s \<Longrightarrow> sched_step\<^sup>*\<^sup>* s (handle_dead_workers ord kids now wks ws s)"
proof (induction ws arbitrary: s)
  case (Cons x ws)
  have e: "evolves s (handle_dead_worker ord kids now (wks x) x s)"
    unfolding handle_dead_worker_def by (rule evolves_fail_tasks [OF Cons.prems])
  have "sched_step s (handle_dead_worker ord kids now (wks x) x s)" by (rule sched_step.dead [OF Cons.prems])
  with Cons.IH [OF dead_orders_evolves [OF Cons.prems e]] show ?case
    by (simp add: converse_rtranclp_into_rtranclp)
qed simp

text \<open>A handler that submits nothing: it is a run of the scheduler, and moves builds along.\<close>

definition moves :: "scheduler \<Rightarrow> scheduler \<Rightarrow> bool" where
  "moves s s' \<longleftrightarrow> sched_step\<^sup>*\<^sup>* s s' \<and> evolves s s'"

lemma movesI: "sched_step\<^sup>*\<^sup>* s s' \<Longrightarrow> evolves s s' \<Longrightarrow> moves s s'"
  by (simp add: moves_def)

lemma moves_refl: "moves s s"
  by (simp add: moves_def evolves_same)

lemma moves_tick:
  assumes "tick_ok te s"
  shows "moves s (scheduling_tick te s)"
proof -
  obtain s1 n early where c: "schedule (te_sched te) (te_builds te) s = (s1, n, early)"
    by (metis prod_cases3)
  obtain r dead where h: "check_heartbeats (te_workers te) (te_now te) (s_registry s1) = (r, dead)"
    by (metis prod.collapse)
  let ?s2 = "set_registry r s1"
  have e: "env_ok (te_sched te) s" and d: "dead_orders_ok (te_ord te) (te_kids te) s"
    using assms by (simp_all add: tick_ok_def)
  have e1: "evolves s s1" by (rule evolves_schedule [OF c e])
  have e2: "evolves s ?s2" by (rule evolves_cong [OF e1]) (simp add: set_registry_def)
  have d2: "dead_orders_ok (te_ord te) (te_kids te) ?s2" by (rule dead_orders_evolves [OF d e2])
  have s2: "sched_step\<^sup>*\<^sup>* s ?s2" by (rule step_step [OF sched_step.cycle [OF e c] step_set_registry])
  have t: "scheduling_tick te s
      = handle_dead_workers (te_ord te) (te_kids te) (te_now te) (te_tasks te) dead ?s2"
    by (simp add: scheduling_tick_def c h)
  show ?thesis
    unfolding t
    by (rule movesI [OF rtranclp_trans [OF s2 dead_workers_steps [OF d2]]
          evolves_trans [OF e2 evolves_dead_workers [OF d2]]])
qed

lemma moves_cancel:
  assumes "grpc_cancel_build m keys now x s = (s', calls, out)"
  shows "moves s s'"
proof (rule movesI [OF grpc_cancel_steps [OF assms]])
  show "evolves s s'"
    using assms evolves_same [of s s]
    by (auto simp: grpc_cancel_build_def split: option.splits sum.splits
        intro!: evolves_cong [OF evolves_cancel])
qed

lemma moves_register: "rpc_register now req s = (s', out) \<Longrightarrow> moves s s'"
  by (rule movesI [OF rpc_register_steps evolves_same])
    (auto simp: rpc_register_def set_registry_def split: option.splits if_splits sum.splits)

lemma heartbeat_builds: "rpc_heartbeat send_ok ms s = (s', e) \<Longrightarrow> s_builds s' = s_builds s"
proof (induction ms arbitrary: s)
  case (Cons m ms)
  have reg: "s_builds (set_registry r s) = s_builds s" for r by (simp add: set_registry_def)
  have step: "s_builds s' = s_builds s" if "rpc_heartbeat send_ok ms (set_registry r s) = (s', e)" for r
    using Cons.IH [OF that] by (simp only: reg)
  show ?case
  proof (cases m)
    case (Received req)
    then show ?thesis
      using Cons.prems by (auto simp: reg split: option.splits sum.splits if_splits intro: Cons.IH step)
  qed (use Cons.prems in simp)
qed simp

lemma moves_heartbeat: "rpc_heartbeat send_ok ms s = (s', e) \<Longrightarrow> moves s s'"
  by (rule movesI [OF rpc_heartbeat_steps evolves_same [OF heartbeat_builds]])

lemma moves_report:
  assumes "rpc_report_result kids now now' result s = (s', jobs, out)" "sched_reach s" "kids_ok kids"
  shows "moves s s'"
proof (rule movesI [OF rpc_report_result_steps [OF assms]])
  have ev: "evolves s s1"
    if h: "handle_task_result (kids (build_graph s b)) (kids (build_graph s b) x) now now' (report_of b x res) s
      = (s1, r)" for b x res s1 r
    by (rule evolves_handle_result [OF h])
      (use report_orders [OF assms(2,3)] in \<open>simp_all add: reportable_proto\<close>)
  show "evolves s s'"
    using assms(1) unfolding rpc_report_result_def
    by (auto split: option.splits prod.splits sum.splits intro: evolves_same dest: ev)
qed

lemma moves_job: "run_job srv keys env j s disp = (s', disp', calls, addrs) \<Longrightarrow> moves s s'"
  by (rule movesI [OF run_job_steps evolves_same])
    (auto simp: run_job_def cleanup_build_volumes_def build_workers_def
      split: job.splits option.splits prod.splits)

lemma moves_store: "moves s (set_store st s)"
  unfolding set_store_def by (rule movesI) (auto intro: sched_step.history evolves_same)

text \<open>The three ways to submit a build add at most one, made from the pipeline it is submitted for.\<close>

text \<open>What all steps do to the scheduler.\<close>

definition master_ok :: "master_world \<Rightarrow> scheduler \<Rightarrow> bool" where
  "master_ok w s \<longleftrightarrow> sched_reach s \<and> all_traced w s"

lemma master_ok_moves: "master_ok w s \<Longrightarrow> moves s s' \<Longrightarrow> master_ok w s'"
  unfolding master_ok_def moves_def using sched_reach_steps all_traced_evolves by blast

lemma master_ok_submit:
  assumes "master_ok w s" "sched_step\<^sup>*\<^sup>* s s'" "submitted_for w b cfg vars" "built_from (b_Graph b) cfg vars"
    and "s_builds s' = gput x (b\<lparr> b_CreatedAt := now \<rparr>) (s_builds s)"
  shows "master_ok w s'"
  using assms(1) sched_reach_steps [OF assms(2)]
    all_traced_submit [OF _ assms(5) traced_new [OF assms(3,4)]] by (simp add: master_ok_def)

lemma master_ok_webhook:
  assumes "master_webhook (mw_config w) env xff addr meth r m = (m', calls, rep)" "env \<in> mw_envs w"
    and "pipeline_orders_ok (ie_pipeline env)" "master_ok w (m_sched m)"
  shows "master_ok w (m_sched m') \<and> m_verify m' = m_verify m"
proof -
  let ?h = "webhook_handler_of (mw_config w) m" and ?s = "m_sched m"
  obtain s1 cs rp where e: "serve_http env ?h meth r ?s = (s1, cs, rp)" by (metis prod_cases3)
  have h: "wh_router ?h = new_router (mc_clients (mw_config w))" "wh_defaultSecret ?h = mc_secret (mw_config w)"
    by (simp_all add: webhook_handler_of_def)
  note i = intake_serve [OF h(1) assms(3), of r ?s meth, unfolded e]
  have "master_ok w s1"
  proof (cases "s1 = ?s")
    case True
    then show ?thesis using assms(4) by simp
  next
    case False
    then have q: "queued_by env ?h (detect_provider r) ?s s1 cs"
      and a: "mc_secret (mw_config w) \<noteq> [] \<longrightarrow> authentic_for (ie_scm env) (detect_provider r) r (mc_secret (mw_config w))"
      using i h(2) by (auto simp: intake_outcome_def)
    from q obtain cfg b where b: "fetched_config env (webhook_source b) cfg"
      "built_from (b_Graph b) cfg (webhook_vars b)" "b_SCMProvider b = detect_provider r"
      "s_builds s1 = gput (b_ID b) (b\<lparr> b_CreatedAt := ie_now env \<rparr>) (s_builds ?s)" "sched_step ?s s1"
      unfolding queued_by_def by blast
    have "submitted_for w b cfg (webhook_vars b)"
      unfolding submitted_for_def using assms(2) b(1,3) a by auto
    from master_ok_submit [OF assms(4) r_into_rtranclp [where r = sched_step, OF b(5)] this b(2,4)]
    show ?thesis .
  qed
  then show ?thesis
    using assms(1,4) e by (auto simp: master_webhook_def limit_middleware_def split: prod.splits if_splits)
qed

lemma master_ok_submission:
  assumes "grpc_submit_build env he req s = (s', out)" "env \<in> mw_envs w"
    and "pipeline_orders_ok (ie_pipeline env)" "master_ok w s"
  shows "master_ok w s'"
proof (cases out)
  case (Inl e)
  then show ?thesis using grpc_submit_spec [OF assms(1,3)] assms(4) by simp
next
  case (Inr x)
  with grpc_submit_spec [OF assms(1,3)] obtain src cfg b where
    st: "sched_step\<^sup>*\<^sup>* s s'" and f: "fetched_config env src cfg"
    and bf: "built_from (b_Graph b) cfg (grpc_build_env he src)"
    and b: "b = grpc_build x src (sq_TriggeredBy req) (b_Graph b)"
    and new: "s_builds s' = gput x (b\<lparr> b_CreatedAt := ie_now env \<rparr>) (s_builds s)" by auto
  have "b_RepoURL b = gs_RepoUrl src" "b_CommitSHA b = gs_CommitSha src" "b_Branch b = gs_Branch src"
    by (subst b, simp add: grpc_build_def)+
  then have "submitted_for w b cfg (grpc_build_env he src)"
    unfolding submitted_for_def using assms(2) f by blast
  from master_ok_submit [OF assms(4) st this bf new] show ?thesis .
qed

lemma master_ok_verification:
  assumes "verify_local env ve first ms (m_verify m) s = (s', v', out)" "env \<in> mw_envs w"
    and "pipeline_orders_ok (ie_pipeline env)" "master_ok w s"
  shows "master_ok w s'"
proof (cases "s' = s")
  case False
  then obtain srv where srv: "m_verify m = Some srv"
    using assms(1) by (cases "m_verify m") (auto simp: verify_local_def)
  obtain h blob rel content cfg b path where st: "sched_step s s'"
    and c: "base_pipeline ve h blob = Inr (rel, content)"
      "parse (pe_unmarshal (ie_pipeline env)) content = Inr cfg"
      "built_from (b_Graph b) cfg (verify_vars h path)"
    and b: "b = verify_build h (ie_newID env) (b_Graph b)"
    and new: "s_builds s' = gput (ie_newID env) (b\<lparr> b_CreatedAt := ie_now env \<rparr>) (s_builds s)"
    using verify_local_submits [OF assms(1) [unfolded srv] assms(3) False] by blast
  have "b_CommitSHA b = vh_CommitSha h" "b_Branch b = vh_Branch h"
    by (subst b, simp add: verify_build_def Let_def)+
  then have "submitted_for w b cfg (verify_vars h path)"
    unfolding submitted_for_def using assms(2) c(1,2) by blast
  from master_ok_submit [OF assms(4) r_into_rtranclp [where r = sched_step, OF st] this c(3) new] show ?thesis .
qed (use assms(4) in simp)

lemma master_step_ok:
  assumes "master_step w m m'" "\<And>env. env \<in> mw_envs w \<Longrightarrow> pipeline_orders_ok (ie_pipeline env)"
    and "master_ok w (m_sched m)"
  shows "master_ok w (m_sched m')"
  using assms(1)
proof cases
  case (webhook env xff addr meth r calls rep)
  then show ?thesis using master_ok_webhook assms(2,3) by blast
next
  case (submission env he req s' out)
  then show ?thesis using master_ok_submission [OF submission(3,2)] assms(2,3) by simp
next
  case (verification env ve first ms s' v' out)
  then show ?thesis using master_ok_verification [OF verification(3,2)] assms(2,3) by simp
next
  case (cancellation rt keys now x s' calls out)
  then show ?thesis using master_ok_moves [OF assms(3) moves_cancel] by simp
next
  case (registration now req s' out)
  then show ?thesis using master_ok_moves [OF assms(3) moves_register] by simp
next
  case (heartbeats send_ok ms s' e)
  then show ?thesis using master_ok_moves [OF assms(3) moves_heartbeat] by simp
next
  case (report kids now now' result s' jobs out)
  then show ?thesis using master_ok_moves [OF assms(3) moves_report] assms(3) by (simp add: master_ok_def)
next
  case (goroutine srv keys env j s' d calls addrs)
  then show ?thesis using master_ok_moves [OF assms(3) moves_job] by simp
next
  case (tick te)
  then show ?thesis using master_ok_moves [OF assms(3) moves_tick] by simp
next
  case (pruning ks cutoff files st files')
  then show ?thesis using master_ok_moves [OF assms(3) moves_store] by simp
qed (use assms(3) in simp_all)

lemma start_master_ok: "start_master u = Some m \<Longrightarrow> master_ok w (m_sched m)"
  by (auto simp: start_master_def master_ok_def all_traced_def set_store_def new_scheduler_def
      intro: sched_reach.init split: option.splits sum.splits)

lemma master_reach_ok:
  assumes "master_reach w m" "\<And>env. env \<in> mw_envs w \<Longrightarrow> pipeline_orders_ok (ie_pipeline env)"
  shows "master_ok w (m_sched m)"
  using assms(1)
proof (induction rule: master_reach.induct)
  case (started u m)
  then show ?case by (rule start_master_ok)
next
  case (continued m m')
  show ?case by (rule master_step_ok [OF continued(2) assms(2) continued.IH])
qed

section \<open>Builds follow their pipeline\<close>

lemma run_follows_file:
  assumes "graph_run g0 es g" "wf_graph g0" "all_pending g0" "gget (g_tasks g0) x = Some t0"
  shows "\<exists>t. gget (g_tasks g) x = Some t \<and> static_part t = static_part t0
    \<and> (started (t_State t) \<and> t_Condition t0 \<noteq> ''always'' \<and> t_Condition t0 \<noteq> ''on_failure'' \<longrightarrow>
        (\<forall>p \<in> set (parents g0 x). state_in (g_tasks g) p = Some TaskPassed))"
proof -
  note st = graph_run_frame [OF assms(1)]
  obtain t where t: "gget (g_tasks g) x = Some t" "static_part t = static_part t0"
    using statics_gget [OF conjunct1 [OF st] assms(4)] by blast
  have ok: "starts_ok (g_deps g) (g_tasks g)" using graph_run_starts_ok [OF assms(1-3)] by blast
  have "t_Condition t = t_Condition t0" by (rule static_part_eqD(3) [OF t(2)])
  then have "state_in (g_tasks g) p = Some TaskPassed"
    if "started (t_State t)" "t_Condition t0 \<noteq> ''always''" "t_Condition t0 \<noteq> ''on_failure''"
      "p \<in> set (parents g0 x)" for p
    using starts_okD [OF ok t(1) that(1)] that st
    by (auto simp: may_start_def all_deps_passed_def list_all_iff)
  then show ?thesis using t by blast
qed

text \<open>Every task of the file is there as the file says, and none is ahead of what it depends on.\<close>

definition follows_pipeline :: "graph \<Rightarrow> config \<Rightarrow> (string, string) gomap \<Rightarrow> bool" where
  "follows_pipeline g cfg vars \<longleftrightarrow> (\<forall>tc \<in> set (cf_Tasks cfg). \<exists>t. gget (g_tasks g) (tc_ID tc) = Some t
     \<and> static_part t = static_part ((config_to_task tc (cf_Defaults cfg))\<lparr>
         t_Env := fill_env vars (t_Env (config_to_task tc (cf_Defaults cfg))) \<rparr>)
     \<and> (started (t_State t) \<and> tc_Condition tc \<noteq> ''always'' \<and> tc_Condition tc \<noteq> ''on_failure'' \<longrightarrow>
         (\<forall>p \<in> set (tc_DependsOn tc). state_in (g_tasks g) p = Some TaskPassed)))"

lemma run_follows_pipeline:
  assumes "built_from g0 cfg vars" "graph_run g0 es g"
  shows "follows_pipeline g cfg vars"
  unfolding follows_pipeline_def
proof
  fix tc assume "tc \<in> set (cf_Tasks cfg)"
  with assms(1) have g0: "wf_graph g0" "all_pending g0" "set (parents g0 (tc_ID tc)) = set (tc_DependsOn tc)"
    and t0: "gget (g_tasks g0) (tc_ID tc) = Some ((config_to_task tc (cf_Defaults cfg))\<lparr>
      t_Env := fill_env vars (t_Env (config_to_task tc (cf_Defaults cfg))) \<rparr>)"
    unfolding built_from_def by blast+
  show "\<exists>t. gget (g_tasks g) (tc_ID tc) = Some t
     \<and> static_part t = static_part ((config_to_task tc (cf_Defaults cfg))\<lparr>
         t_Env := fill_env vars (t_Env (config_to_task tc (cf_Defaults cfg))) \<rparr>)
     \<and> (started (t_State t) \<and> tc_Condition tc \<noteq> ''always'' \<and> tc_Condition tc \<noteq> ''on_failure'' \<longrightarrow>
         (\<forall>p \<in> set (tc_DependsOn tc). state_in (g_tasks g) p = Some TaskPassed))"
    using run_follows_file [OF assms(2) g0(1,2) t0] g0(3) by (simp add: config_to_task_def)
qed


definition small_startup :: startup where
  "small_startup = \<lparr> su_getenv = (\<lambda>k. if k = ''DB_PATH'' then '':memory:'' else []), su_read = (\<lambda>_. None),
     su_mkdir = (\<lambda>_. True), su_open = (\<lambda>_. None), su_open_logs = (\<lambda>_. None), su_digests = (\<lambda>_. NoFile),
     su_float = (\<lambda>_. None), su_now = 1 \<rparr>"

definition small_master :: master_config where
  "small_master = \<lparr> mc_secret = ''s'', mc_publicURL = [], mc_clients = [GitHubClient [], GitLabClient []] \<rparr>"

definition small_world :: master_world where
  "small_world = \<lparr> mw_config = small_master, mw_envs = {small_intake} \<rparr>"

definition small_registration :: register_request where
  "small_registration = \<lparr> rq_WorkerId = Some ''w'', rq_Capacity = Some \<lparr> pc_TotalCpuMillicores = 9000,
     pc_AvailableCpuMillicores = 9000, pc_TotalMemoryMb = 9000, pc_AvailableMemoryMb = 9000,
     pc_TotalDiskMb = 9000, pc_AvailableDiskMb = 9000, pc_MaxTasks = 4, pc_RunningTasks = 0 \<rparr>,
     rq_SupportedPlatforms = [], rq_Labels = [] \<rparr>"

definition m_started :: master where
  "m_started = (case start_master small_startup of Some m \<Rightarrow> m)"

definition m_registered :: master where
  "m_registered = m_started\<lparr> m_sched := fst (rpc_register 5 small_registration (m_sched m_started)) \<rparr>"

definition m_queued :: master where
  "m_queued = fst (master_webhook small_master small_intake [] ''10.0.0.1:80'' ''POST'' (push_request ''s'') m_registered)"

definition small_tick :: tick_env where
  "small_tick = (let g = build_graph (m_sched m_queued) ''b7''
     in \<lparr> te_sched = (small_env True)\<lparr> e_mark_order := (\<lambda>b. keys_of g), e_ready_order := (\<lambda>b. keys_of g) \<rparr>,
          te_builds = [''b7''], te_workers = [''w''], te_ord = (\<lambda>b. children g), te_kids = (\<lambda>b. children g),
          te_tasks = (\<lambda>w. []), te_now = 8 \<rparr>)"

definition m_ticked :: master where
  "m_ticked = m_queued\<lparr> m_sched := scheduling_tick small_tick (m_sched m_queued) \<rparr>"

lemma queued_reached: "master_reach small_world m_queued"
proof -
  have "start_master small_startup \<noteq> None" by code_simp
  then have "start_master small_startup = Some m_started" by (auto simp: m_started_def)
  then have m0: "master_reach small_world m_started" by (rule master_reach.started)
  have "master_reach small_world m_registered"
    unfolding m_registered_def
    by (rule master_reach.continued [OF m0 master_step.registration [OF prod.collapse [symmetric]]])
  moreover obtain c r where "master_webhook small_master small_intake [] ''10.0.0.1:80'' ''POST''
      (push_request ''s'') m_registered = (m_queued, c, r)"
    unfolding m_queued_def by (metis prod.collapse)
  moreover have "small_intake \<in> mw_envs small_world" "mw_config small_world = small_master"
    by (simp_all add: small_world_def)
  ultimately show ?thesis using master_reach.continued master_step.webhook by metis
qed

lemma ticked_reached: "master_reach small_world m_ticked"
proof -
  let ?g = "build_graph (m_sched m_queued) ''b7''"
  have ids: "gkeys (s_builds (m_sched m_queued)) = [''b7'']" by code_simp
  have g: "wf_graph ?g" by code_simp
  have "b_Graph b = ?g" if "gget (s_builds (m_sched m_queued)) x = Some b" for x b
  proof -
    have "x \<in> set (gkeys (s_builds (m_sched m_queued)))" using that by (simp add: in_gkeys_iff)
    then show ?thesis using that ids by (simp add: build_graph_def)
  qed
  moreover have "range_order (g_tasks ?g) (keys_of ?g)" using wf_tasks [OF g] by (auto simp: keys_of_def)
  ultimately have "tick_ok small_tick (m_sched m_queued)"
    using child_order_children [OF g] wf_distinct_children [OF g]
    by (auto simp: tick_ok_def env_ok_def dead_orders_ok_def small_tick_def Let_def)
  then show ?thesis
    unfolding m_ticked_def by (rule master_reach.continued [OF queued_reached master_step.tick])
qed


end
