(* ===== verification/Executor.thy ===== *)
theory Executor
  imports Worker_Service Log_Service Secrets_Service Build_Comment
begin

text \<open>
  The executor of a worker, \<open>cmd/worker/executor.go\<close>, and the worker's service, \<open>grpc_server.go\<close>.
  What a process does, the answer of the secrets service, the file system, the clock and the end of
  the task's context are \<open>exec_env\<close>.  An error is its text, as the code decides by its text whether
  Docker is missing.  The lines the executor pushes to the master and the result it reports are
  returned, in order.  Text is a list of bytes.
\<close>

section \<open>Text\<close>

text \<open>\<open>strconv.Quote\<close>, with the bytes of characters outside ASCII taken as printable.\<close>

definition low_hex_digit :: "nat \<Rightarrow> char" where
  "low_hex_digit n = ''0123456789abcdef'' ! (n mod 16)"

definition quote_char :: "char \<Rightarrow> string" where
  "quote_char c =
     (let n = (of_char c :: nat); bs = CHR 0x5C
      in if c = CHR 0x22 \<or> c = bs then [bs, c]
         else if n = 7 then bs # ''a'' else if n = 8 then bs # ''b'' else if n = 12 then bs # ''f''
         else if n = 10 then bs # ''n'' else if n = 13 then bs # ''r'' else if n = 9 then bs # ''t''
         else if n = 11 then bs # ''v''
         else if n < 32 \<or> n = 127 then bs # CHR ''x'' # [low_hex_digit (n div 16), low_hex_digit n]
         else [c])"

definition go_quoted :: "string \<Rightarrow> string" where
  "go_quoted s = CHR 0x22 # concat (map quote_char s) @ [CHR 0x22]"

definition int_text :: "int \<Rightarrow> string" where
  "int_text i = (if i < 0 then CHR ''-'' # decimal (nat (- i)) else decimal (nat i))"

text \<open>A duration rounded to milliseconds; below a second the unit is the millisecond.\<close>

definition milliseconds_string :: "int \<Rightarrow> string" where
  "milliseconds_string d =
     (let r = round_duration 1000000 d
      in if r \<noteq> 0 \<and> \<bar>r\<bar> < second
         then (if r < 0 then ''-'' else []) @ decimal (nat \<bar>r\<bar> div 1000000) @ ''ms''
         else duration_string r)"

text \<open>The names the generated code gives to the states.\<close>

fun pb_state_name :: "pb_task_state \<Rightarrow> string" where
  "pb_state_name TASK_STATE_UNSPECIFIED = ''TASK_STATE_UNSPECIFIED''"
| "pb_state_name TASK_STATE_PENDING = ''TASK_STATE_PENDING''"
| "pb_state_name TASK_STATE_SCHEDULED = ''TASK_STATE_SCHEDULED''"
| "pb_state_name TASK_STATE_RUNNING = ''TASK_STATE_RUNNING''"
| "pb_state_name TASK_STATE_PASSED = ''TASK_STATE_PASSED''"
| "pb_state_name TASK_STATE_FAILED = ''TASK_STATE_FAILED''"
| "pb_state_name TASK_STATE_SKIPPED = ''TASK_STATE_SKIPPED''"
| "pb_state_name TASK_STATE_CANCELLED = ''TASK_STATE_CANCELLED''"
| "pb_state_name TASK_STATE_TIMED_OUT = ''TASK_STATE_TIMED_OUT''"

definition sanitise_volume_name :: "string \<Rightarrow> string" where
  "sanitise_volume_name key = map (\<lambda>r. let n = (of_char r :: nat) in
     if 97 \<le> n \<and> n \<le> 122 \<or> 65 \<le> n \<and> n \<le> 90 \<or> 48 \<le> n \<and> n \<le> 57 \<or> r = CHR ''-'' \<or> r = CHR ''_'' then r
     else CHR ''-'') key"

section \<open>Processor shares\<close>

text \<open>
  The double nearest to \<open>m / 1000\<close> is printed with one decimal.  It matters only when \<open>m / 1000\<close> lies
  in the middle between two such numbers: then it is above or below, or exact and the even one is
  taken.  With \<open>s\<close> such that \<open>m * 2 ^ s div 1000\<close> has 53 bits, the double is that number or the next one
  over \<open>2 ^ s\<close>.
\<close>

fun double_shift :: "nat \<Rightarrow> nat \<Rightarrow> nat" where
  "double_shift m 0 = 0"
| "double_shift m (Suc s) = (if 1000 * 2 ^ 52 \<le> m * 2 ^ s then double_shift m s else Suc s)"

datatype side = Below | Exact | Above

definition double_side :: "nat \<Rightarrow> side" where
  "double_side m =
     (let p = m * 2 ^ double_shift m 62; r = p mod 1000
      in if r = 0 then Exact
         else if 2 * r < 1000 \<or> 2 * r = 1000 \<and> even (p div 1000) then Below else Above)"

definition cpu_tenths :: "nat \<Rightarrow> nat" where
  "cpu_tenths m =
     (let k = m div 100; r = m mod 100
      in if r < 50 then k
         else if 50 < r then k + 1
         else case double_side m of Below \<Rightarrow> k | Above \<Rightarrow> k + 1 | Exact \<Rightarrow> if even k then k else k + 1)"

definition cpus_text :: "u32 \<Rightarrow> string" where
  "cpus_text cpu = (let k = cpu_tenths (unat cpu) in decimal (k div 10) @ ''.'' @ decimal (k mod 10))"

section \<open>The container command\<close>

record exec_env =
  ee_worker :: string
  ee_fetch :: "string list \<Rightarrow> string + (string, string) gomap"
  ee_stat :: "string \<Rightarrow> string option"
  ee_env_order :: "(string, string) gomap \<Rightarrow> string list"

text \<open>The loop over the variables, in the order of the range loop.\<close>

definition env_flags :: "exec_env \<Rightarrow> (string, string) gomap \<Rightarrow> string list" where
  "env_flags e env =
     concat (map (\<lambda>k. case gget env k of None \<Rightarrow> [] | Some v \<Rightarrow> [''-e'', k @ ''='' @ v]) (ee_env_order e env))"

definition resource_flags :: "assign_request \<Rightarrow> string list" where
  "resource_flags req =
     (if aq_MemoryMb req = 0 then [] else [''--memory'', decimal (unat (aq_MemoryMb req)) @ ''m''])
     @ (if aq_CpuMillicores req = 0 then [] else [''--cpus'', cpus_text (aq_CpuMillicores req)])"

definition env_var :: "(string, string) gomap \<Rightarrow> string \<Rightarrow> string" where
  "env_var env k = (case gget env k of None \<Rightarrow> [] | Some v \<Rightarrow> v)"

text \<open>A host path that is mounted when it is set, and must then be accessible.\<close>

definition host_mount :: "exec_env \<Rightarrow> string \<Rightarrow> string \<Rightarrow> string \<Rightarrow> string + string list" where
  "host_mount e what target path =
     (if path = [] then Inr []
      else case ee_stat e path of
        Some err \<Rightarrow> Inl (what @ '' path '' @ go_quoted path @ '' not accessible on worker: '' @ err)
      | None \<Rightarrow> Inr [''--volume'', path @ target])"

definition cache_flags :: "cache_mount list \<Rightarrow> string list" where
  "cache_flags cms = concat (map (\<lambda>cm. if cm_MountPath cm = [] then []
     else [''--volume'', ''ci-cache-'' @ sanitise_volume_name (cm_CacheKey cm) @ '':'' @ cm_MountPath cm
             @ (if cm_ReadOnly cm then '':ro'' else [])]) cms)"

definition docker_run_args :: "exec_env \<Rightarrow> assign_request \<Rightarrow> string \<Rightarrow> string + string list" where
  "docker_run_args e req buildID =
     (case host_mount e ''verify bundle'' '':/relay-bundle.git:ro'' (env_var (aq_Env req) ''RELAY_BUNDLE_PATH'') of
        Inl err \<Rightarrow> Inl err
      | Inr bundleArgs \<Rightarrow>
     (case host_mount e ''local repo'' '':/relay-local-repo:ro'' (env_var (aq_Env req) ''RELAY_LOCAL_REPO_PATH'') of
        Inl err \<Rightarrow> Inl err
      | Inr repoArgs \<Rightarrow>
          Inr ([''run'', ''--rm''] @ env_flags e (aq_Env req) @ resource_flags req
            @ [''--entrypoint'', ''sh'', ''--volume'', ''ci-workspace-'' @ buildID @ '':/workspace'']
            @ bundleArgs @ repoArgs @ cache_flags (aq_CacheMounts req)
            @ [''--workdir'', ''/workspace'', aq_ContainerImage req]
            @ (if aq_Commands req = [] then [] else [''-c'', join (aq_Commands req) '' && '']))))"

section \<open>Running a command\<close>

text \<open>What comes of starting a process: an error before it runs, or the lines that were scanned from
  its two outputs in the order they were pushed, and its exit code or the error of waiting for it.\<close>

datatype process =
    PipeFailed string
  | StartFailed string
  | Exited "(string \<times> pb_log_stream) list" int
  | WaitFailed "(string \<times> pb_log_stream) list" string

text \<open>A command: its name, its arguments, and the variables added to the worker's own.\<close>

datatype command = Command string "string list" "(string, string) gomap"

fun run_command :: "(command \<Rightarrow> process) \<Rightarrow> command \<Rightarrow> (string \<times> pb_log_stream) list \<times> int \<times> string option" where
  "run_command world c =
     (case world c of
        PipeFailed err \<Rightarrow> ([], - 1, Some err)
      | StartFailed err \<Rightarrow> ([], - 1, Some (''starting command: '' @ err))
      | Exited ls code \<Rightarrow> (ls, code, None)
      | WaitFailed ls err \<Rightarrow> (ls, - 1, Some err))"

definition run_in_docker ::
    "exec_env \<Rightarrow> (command \<Rightarrow> process) \<Rightarrow> assign_request \<Rightarrow> (string \<times> pb_log_stream) list \<times> int \<times> string option" where
  "run_in_docker e world req =
     (case docker_run_args e req (aq_BuildId req) of
        Inl err \<Rightarrow> ([], - 1, Some err)
      | Inr args \<Rightarrow> run_command world (Command ''docker'' args []))"

definition shell_env :: "(string, string) gomap \<Rightarrow> (string, string) gomap" where
  "shell_env env =
     (let bundlePath = env_var env ''RELAY_BUNDLE_PATH''
      in if bundlePath = [] then env else gput ''REPO_URL'' bundlePath env)"

definition run_in_shell ::
    "(command \<Rightarrow> process) \<Rightarrow> assign_request \<Rightarrow> (string \<times> pb_log_stream) list \<times> int \<times> string option" where
  "run_in_shell world req =
     run_command world (Command ''sh'' [''-c'', join (aq_Commands req) '' && ''] (shell_env (aq_Env req)))"

definition is_docker_not_available :: "string \<Rightarrow> bool" where
  "is_docker_not_available err \<longleftrightarrow>
     contains err ''executable file not found'' \<or> contains err ''Cannot connect to the Docker daemon''
     \<or> contains err ''command not found'' \<or> contains err ''permission denied''
     \<or> contains err ''Is the docker daemon running''"

section \<open>A task\<close>

text \<open>What \<open>taskCtx.Err\<close> says when the command has ended.\<close>

datatype ctx_end = NotEnded | DeadlineExceeded | ContextCanceled

definition task_verdict :: "ctx_end \<Rightarrow> int \<Rightarrow> string option \<Rightarrow> pb_task_state \<times> int \<times> string" where
  "task_verdict ctx exitCode execErr =
     (if ctx = DeadlineExceeded then (TASK_STATE_TIMED_OUT, exitCode, ''timeout exceeded'')
      else if ctx = ContextCanceled then (TASK_STATE_CANCELLED, exitCode, ''cancelled'')
      else case execErr of
        Some err \<Rightarrow> (TASK_STATE_FAILED, - 1, err)
      | None \<Rightarrow> if exitCode \<noteq> 0 then (TASK_STATE_FAILED, exitCode, ''exit code '' @ int_text exitCode)
                else (TASK_STATE_PASSED, exitCode, []))"

text \<open>Secrets override the variables the task was assigned with.\<close>

fun put_all :: "(string, string) gomap \<Rightarrow> (string, string) gomap \<Rightarrow> (string, string) gomap" where
  "put_all [] env = env"
| "put_all ((k, v) # m) env = put_all m (gput k v env)"

definition system_line :: "string \<Rightarrow> string \<times> pb_log_stream" where
  "system_line c = (''[system] '' @ c, LOG_STREAM_SYSTEM)"

definition with_secrets ::
    "exec_env \<Rightarrow> assign_request \<Rightarrow> (string \<times> pb_log_stream) list \<times> assign_request" where
  "with_secrets e req =
     (if aq_SecretRefs req = [] then ([], req)
      else case ee_fetch e (aq_SecretRefs req) of
        Inl err \<Rightarrow> ([system_line (''warning: could not fetch secrets: '' @ err)], req)
      | Inr m \<Rightarrow> ([], req\<lparr> aq_Env := put_all m (aq_Env req) \<rparr>))"

definition run_task ::
    "exec_env \<Rightarrow> (command \<Rightarrow> process) \<Rightarrow> assign_request \<Rightarrow> (string \<times> pb_log_stream) list \<times> int \<times> string option" where
  "run_task e world req =
     (case run_in_docker e world req of
        (ls, code, err) \<Rightarrow>
          if (case err of None \<Rightarrow> False | Some m \<Rightarrow> is_docker_not_available m) then
            (case run_in_shell world req of
               (ls', code', err') \<Rightarrow>
                 (ls @ system_line ''docker not available, falling back to shell execution'' # ls', code', err'))
          else (ls, code, err))"

text \<open>The lines pushed and the result reported; \<open>ctx\<close> and \<open>elapsed\<close> are those at the end.\<close>

definition execute_task ::
    "exec_env \<Rightarrow> (command \<Rightarrow> process) \<Rightarrow> ctx_end \<Rightarrow> int \<Rightarrow> assign_request
       \<Rightarrow> (string \<times> pb_log_stream) list \<times> pb_result" where
  "execute_task e world ctx elapsed req =
     (let name = go_quoted (aq_TaskName req);
          begun = [system_line (''task '' @ name @ '' started on worker '' @ ee_worker e),
                   system_line (''image: '' @ aq_ContainerImage req),
                   system_line (''commands: '' @ join (aq_Commands req) '' && '')]
      in case with_secrets e req of
           (warned, req') \<Rightarrow>
         (case run_task e world req' of
           (ls, code, err) \<Rightarrow>
         (case task_verdict ctx code err of
           (state, exitCode, errMsg) \<Rightarrow>
             (begun @ warned @ ls @ [system_line (''task '' @ name @ '' finished: '' @ pb_state_name state
                @ '' (exit='' @ int_text exitCode @ '', duration='' @ milliseconds_string elapsed @ '')'')],
              \<lparr> px_Task = Some (aq_TaskId req), px_Reported = state, px_Exit = word_of_int exitCode,
                px_ErrorMessage = errMsg \<rparr>))))"

end
