(* ===== verification/Mcp_Tools.thy ===== *)
theory Mcp_Tools
  imports Executor
begin

text \<open>
  The tools of the MCP server, \<open>cmd/mcp/tools.go\<close>: text about builds, made from the answers of the
  master.  The master is a record of functions on a state \<open>'m\<close>, one per call, each of which answers
  with a text of an error or a result; the arguments of a tool are given as decoded from JSON.  Text is
  a list of bytes, a character outside ASCII is written by its bytes in UTF-8, and lower case is that
  of ASCII.
\<close>

section \<open>The master, arguments, results\<close>

text \<open>The key \<open>limit\<close> is read as an \<open>int32\<close> by two tools and as an \<open>int64\<close>, \<open>ta_LineLimit\<close>, by one.\<close>

record 'm mcp_master =
  mm_list :: "int \<Rightarrow> 'm \<Rightarrow> string + pb_build list"
  mm_get :: "string \<Rightarrow> 'm \<Rightarrow> string + pb_build"
  mm_logs :: "string \<Rightarrow> string \<Rightarrow> int \<Rightarrow> 'm \<Rightarrow> string + (pb_log_line list \<times> int)"
  mm_submit :: "git_source \<Rightarrow> string \<Rightarrow> 'm \<Rightarrow> 'm \<times> (string + string)"
  mm_cancel :: "string \<Rightarrow> string \<Rightarrow> 'm \<Rightarrow> 'm \<times> string option"
  mm_retry :: "string \<Rightarrow> bool \<Rightarrow> 'm \<Rightarrow> 'm \<times> (string + string)"

record tool_args =
  ta_Limit :: int
  ta_LineLimit :: int
  ta_State :: string
  ta_BuildID :: string
  ta_TaskID :: string
  ta_Tail :: int
  ta_RepoURL :: string
  ta_RepoPath :: string
  ta_Branch :: string
  ta_CommitSHA :: string
  ta_FromScratch :: bool

record tool_result =
  tr_Text :: string
  tr_IsError :: bool

definition text_result :: "string \<Rightarrow> tool_result" where
  "text_result t = \<lparr> tr_Text = t, tr_IsError = False \<rparr>"

definition error_result :: "string \<Rightarrow> tool_result" where
  "error_result t = \<lparr> tr_Text = t, tr_IsError = True \<rparr>"

section \<open>Text\<close>

fun pb_build_state_name :: "pb_build_state \<Rightarrow> string" where
  "pb_build_state_name BUILD_STATE_UNSPECIFIED = ''BUILD_STATE_UNSPECIFIED''"
| "pb_build_state_name BUILD_STATE_QUEUED = ''BUILD_STATE_QUEUED''"
| "pb_build_state_name BUILD_STATE_RUNNING = ''BUILD_STATE_RUNNING''"
| "pb_build_state_name BUILD_STATE_PASSED = ''BUILD_STATE_PASSED''"
| "pb_build_state_name BUILD_STATE_FAILED = ''BUILD_STATE_FAILED''"
| "pb_build_state_name BUILD_STATE_CANCELLED = ''BUILD_STATE_CANCELLED''"

definition bullet :: string where
  "bullet = [CHR 0xE2, CHR 0x80, CHR 0xA2]"

definition hourglass :: string where
  "hourglass = [CHR 0xE2, CHR 0x8F, CHR 0xB3]"

definition arrows :: string where
  "arrows = [CHR 0xF0, CHR 0x9F, CHR 0x94, CHR 0x84]"

definition party :: string where
  "party = [CHR 0xF0, CHR 0x9F, CHR 0x8E, CHR 0x89]"

definition number :: "nat \<Rightarrow> string" where
  "number n = decimal n"

definition bold :: "string \<Rightarrow> string" where
  "bold s = ''**'' @ s @ ''**''"

definition span_text :: "time option \<Rightarrow> time option \<Rightarrow> string option" where
  "span_text a b = (case (a, b) of
     (Some s, Some f) \<Rightarrow> Some (milliseconds_string (time_sub f s)) | _ \<Rightarrow> None)"

definition source_url :: "pb_build \<Rightarrow> string" where
  "source_url b = (case pb_Source b of None \<Rightarrow> [] | Some s \<Rightarrow> ps_RepoUrl s)"

definition source_branch :: "pb_build \<Rightarrow> string" where
  "source_branch b = (case pb_Source b of None \<Rightarrow> [] | Some s \<Rightarrow> ps_Branch s)"

definition last_lines :: "nat \<Rightarrow> 'a list \<Rightarrow> 'a list" where
  "last_lines n xs = (if n < length xs then drop (length xs - n) xs else xs)"

section \<open>Lists of builds\<close>

definition list_entry :: "pb_build \<Rightarrow> string" where
  "list_entry b = bullet @ '' '' @ bold (pb_BuildId b) @ '' '' @ em_dash @ '' '' @ pb_build_state_name (pb_State b) @ nl
     @ ''  Repo: '' @ source_url b @ '' | Branch: '' @ source_branch b @ '' | Trigger: '' @ pb_TriggeredBy b @ nl
     @ (case span_text (pb_StartedAt b) (pb_FinishedAt b) of
          None \<Rightarrow> [] | Some d \<Rightarrow> ''  Duration: '' @ d @ nl)
     @ nl"

definition tool_list_builds :: "'m mcp_master \<Rightarrow> tool_args \<Rightarrow> 'm \<Rightarrow> tool_result" where
  "tool_list_builds mm a m =
     (case mm_list mm (if ta_Limit a = 0 then 20 else ta_Limit a) m of
        Inl err \<Rightarrow> error_result (''failed to list builds: '' @ err)
      | Inr bs \<Rightarrow>
          if bs = [] then text_result ''No builds found.''
          else text_result (''Found '' @ number (length bs) @ '' builds:'' @ nl @ nl
            @ concat (map list_entry
                (filter (\<lambda>b. ta_State a = [] \<or> pb_build_state_name (pb_State b) = ta_State a) bs))))"

definition task_failed :: "pb_task \<Rightarrow> bool" where
  "task_failed t \<longleftrightarrow> pt_State t = TASK_STATE_FAILED \<or> pt_State t = TASK_STATE_TIMED_OUT"

definition failed_entry :: "pb_build \<Rightarrow> string" where
  "failed_entry b =
     (let failed = filter task_failed (pb_Tasks b)
      in ''### '' @ pb_BuildId b @ '' '' @ em_dash @ '' FAILED'' @ nl
         @ ''- Repo: '' @ source_url b @ '' | Branch: '' @ source_branch b @ nl
         @ ''- Trigger: '' @ pb_TriggeredBy b @ nl
         @ ''- Failed tasks ('' @ number (length failed) @ ''): '' @ join (map pt_Name failed) '', '' @ nl
         @ nl)"

text \<open>The loop that breaks off at the limit: a limit that is not positive stops it at once.\<close>

definition failed_builds :: "int \<Rightarrow> pb_build list \<Rightarrow> pb_build list" where
  "failed_builds limit bs = take (nat limit) (filter (\<lambda>b. pb_State b = BUILD_STATE_FAILED) bs)"

definition tool_get_failed_builds :: "'m mcp_master \<Rightarrow> tool_args \<Rightarrow> 'm \<Rightarrow> tool_result" where
  "tool_get_failed_builds mm a m =
     (case mm_list mm 100 m of
        Inl err \<Rightarrow> error_result (''failed to list builds: '' @ err)
      | Inr bs \<Rightarrow>
          let failed = failed_builds (if ta_Limit a = 0 then 10 else ta_Limit a) bs
          in if failed = [] then text_result (''No failed builds found. All builds are healthy! '' @ party)
             else text_result (''## Failed Builds ('' @ number (length failed) @ '' found)'' @ nl @ nl
               @ concat (map failed_entry failed)
               @ ''Use '' @ backquoted ''diagnose_build'' @ '' with a build_id for detailed failure analysis.''))"

section \<open>One build\<close>

definition exit_text :: "pb_task_result \<Rightarrow> string" where
  "exit_text r = int_text (sint (px_ExitCode r))"

definition build_row :: "pb_task \<Rightarrow> string" where
  "build_row t = ''| '' @ pt_Name t @ '' | '' @ pb_state_name (pt_State t) @ '' | ''
     @ (case pt_Result t of None \<Rightarrow> [] | Some r \<Rightarrow> exit_text r) @ '' | ''
     @ (case pt_Result t of
          None \<Rightarrow> []
        | Some r \<Rightarrow> (case span_text (px_StartedAt r) (px_FinishedAt r) of None \<Rightarrow> [] | Some d \<Rightarrow> d))
     @ '' |'' @ nl"

definition count_tasks :: "(pb_task \<Rightarrow> bool) \<Rightarrow> pb_build \<Rightarrow> nat" where
  "count_tasks P b = length (filter P (pb_Tasks b))"

definition build_text :: "pb_build \<Rightarrow> string" where
  "build_text b = ''## Build: '' @ pb_BuildId b @ nl
     @ ''**State:** '' @ pb_build_state_name (pb_State b) @ nl
     @ (case pb_Source b of
          None \<Rightarrow> []
        | Some s \<Rightarrow> ''**Repo:** '' @ ps_RepoUrl s @ nl @ ''**Branch:** '' @ ps_Branch s @ nl
            @ ''**Commit:** '' @ ps_CommitSha s @ nl)
     @ ''**Triggered by:** '' @ pb_TriggeredBy b @ nl @ nl
     @ (case span_text (pb_StartedAt b) (pb_FinishedAt b) of
          None \<Rightarrow> [] | Some d \<Rightarrow> ''**Duration:** '' @ d @ nl @ nl)
     @ ''### Tasks'' @ nl @ nl @ ''| Task | State | Exit | Duration |'' @ nl
     @ ''|------|-------|------|----------|'' @ nl
     @ concat (map build_row (pb_Tasks b))
     @ nl @ ''**Summary:** '' @ number (count_tasks (\<lambda>t. pt_State t = TASK_STATE_PASSED) b) @ ''/''
     @ number (length (pb_Tasks b)) @ '' passed, '' @ number (count_tasks task_failed b) @ '' failed'' @ nl"

text \<open>The three tools that look at one build begin alike.\<close>

definition with_build :: "'m mcp_master \<Rightarrow> tool_args \<Rightarrow> 'm \<Rightarrow> (pb_build \<Rightarrow> tool_result) \<Rightarrow> tool_result" where
  "with_build mm a m f =
     (if ta_BuildID a = [] then error_result ''build_id is required''
      else case mm_get mm (ta_BuildID a) m of
        Inl err \<Rightarrow> error_result (''build not found: '' @ err)
      | Inr b \<Rightarrow> f b)"

definition tool_get_build :: "'m mcp_master \<Rightarrow> tool_args \<Rightarrow> 'm \<Rightarrow> tool_result" where
  "tool_get_build mm a m = with_build mm a m (\<lambda>b. text_result (build_text b))"

definition task_done :: "pb_task \<Rightarrow> bool" where
  "task_done t \<longleftrightarrow> pt_State t \<in> {TASK_STATE_PASSED, TASK_STATE_FAILED, TASK_STATE_SKIPPED,
     TASK_STATE_CANCELLED, TASK_STATE_TIMED_OUT}"

definition watch_progress :: "pb_build \<Rightarrow> nat" where
  "watch_progress b =
     (let total = length (pb_Tasks b)
      in if 0 < total then (count_tasks task_done b * 100) div total else 0)"

fun watch_icon :: "pb_task_state \<Rightarrow> string" where
  "watch_icon TASK_STATE_PASSED = task_state_icon TaskPassed"
| "watch_icon TASK_STATE_FAILED = task_state_icon TaskFailed"
| "watch_icon TASK_STATE_TIMED_OUT = task_state_icon TaskFailed"
| "watch_icon TASK_STATE_RUNNING = arrows"
| "watch_icon TASK_STATE_SKIPPED = task_state_icon TaskSkipped"
| "watch_icon TASK_STATE_CANCELLED = task_state_icon TaskCancelled"
| "watch_icon _ = hourglass"

definition watch_text :: "pb_build \<Rightarrow> string" where
  "watch_text b = ''## Build: '' @ pb_BuildId b @ nl
     @ ''**State:** '' @ pb_build_state_name (pb_State b) @ nl
     @ ''**Progress:** '' @ number (watch_progress b) @ ''% ('' @ number (count_tasks task_done b) @ ''/''
     @ number (length (pb_Tasks b)) @ '' tasks complete)'' @ nl @ nl
     @ concat (map (\<lambda>t. watch_icon (pt_State t) @ '' '' @ pt_Name t @ '' '' @ em_dash @ '' ''
         @ pb_state_name (pt_State t) @ nl) (pb_Tasks b))
     @ (if pb_State b = BUILD_STATE_RUNNING \<or> pb_State b = BUILD_STATE_QUEUED
        then nl @ ''*Build is still in progress. Call '' @ backquoted ''watch_build'' @ '' again to check for updates.*'' @ nl
        else if pb_State b = BUILD_STATE_FAILED
        then nl @ ''*Build failed. Use '' @ backquoted ''diagnose_build'' @ '' for detailed failure analysis.*'' @ nl
        else [])"

definition tool_watch_build :: "'m mcp_master \<Rightarrow> tool_args \<Rightarrow> 'm \<Rightarrow> tool_result" where
  "tool_watch_build mm a m = with_build mm a m (\<lambda>b. text_result (watch_text b))"

section \<open>Logs\<close>

fun log_prefix :: "pb_log_stream \<Rightarrow> string" where
  "log_prefix LOG_STREAM_STDERR = ''[ERR] ''"
| "log_prefix LOG_STREAM_SYSTEM = ''[SYS] ''"
| "log_prefix _ = []"

text \<open>The last lines of those fetched.\<close>

definition tail_lines :: "int \<Rightarrow> 'a list \<Rightarrow> 'a list" where
  "tail_lines tail ls = (if 0 < tail \<and> tail < int (length ls) then drop (length ls - nat tail) ls else ls)"

definition tool_get_task_logs :: "'m mcp_master \<Rightarrow> tool_args \<Rightarrow> 'm \<Rightarrow> tool_result" where
  "tool_get_task_logs mm a m =
     (if ta_BuildID a = [] \<or> ta_TaskID a = [] then error_result ''build_id and task_id are required''
      else case mm_logs mm (ta_BuildID a) (ta_TaskID a) (ta_LineLimit a) m of
        Inl err \<Rightarrow> error_result (''failed to get logs: '' @ err)
      | Inr (ls, n) \<Rightarrow>
          let shown = tail_lines (ta_Tail a) ls
          in if shown = []
             then text_result (''No logs found for task '' @ ta_TaskID a @ '' in build '' @ ta_BuildID a)
             else text_result (''## Logs for task: '' @ ta_TaskID a @ '' (build: '' @ ta_BuildID a @ '')'' @ nl
               @ ''Total lines: '' @ int_text n @ nl @ nl @ fence @ nl
               @ concat (map (\<lambda>l. log_prefix (pl_Stream l) @ pl_Content l @ nl) shown) @ fence @ nl))"

section \<open>Diagnosis\<close>

definition task_running :: "pb_task \<Rightarrow> bool" where
  "task_running t \<longleftrightarrow> pt_State t = TASK_STATE_RUNNING \<or> pt_State t = TASK_STATE_SCHEDULED"

text \<open>\<open>logs x\<close> are the lines of task \<open>x\<close>, none when they cannot be fetched.\<close>

definition task_log_lines :: "'m mcp_master \<Rightarrow> string \<Rightarrow> 'm \<Rightarrow> string \<Rightarrow> pb_log_line list" where
  "task_log_lines mm buildID m x = (case mm_logs mm buildID x 0 m of Inl _ \<Rightarrow> [] | Inr (ls, _) \<Rightarrow> ls)"

definition failed_task_text :: "(string \<Rightarrow> pb_log_line list) \<Rightarrow> pb_task \<Rightarrow> string" where
  "failed_task_text logs t =
     ''#### '' @ task_state_icon TaskFailed @ '' '' @ pt_Name t @ '' (id: '' @ pt_TaskId t @ '')'' @ nl
     @ ''- **State:** '' @ pb_state_name (pt_State t) @ nl
     @ (case pt_Result t of
          None \<Rightarrow> []
        | Some r \<Rightarrow> ''- **Exit code:** '' @ exit_text r @ nl
            @ (if px_Message r \<noteq> [] then ''- **Error:** '' @ px_Message r @ nl else []))
     @ (let ls = logs (pt_TaskId t)
        in if ls = [] then []
           else nl @ ''**Last log lines:**'' @ nl @ fence @ nl
             @ concat (map (\<lambda>l. (if pl_Stream l = LOG_STREAM_STDERR then ''[ERR] '' else []) @ pl_Content l @ nl)
                 (last_lines 30 ls))
             @ fence @ nl)
     @ (if pt_DependsOn t \<noteq> [] then ''- **Depended on:** '' @ join (pt_DependsOn t) '', '' @ nl else [])
     @ nl"

definition diagnosis_head :: "pb_build \<Rightarrow> string" where
  "diagnosis_head b = ''## Build Diagnosis: '' @ pb_BuildId b @ nl @ nl
     @ ''**Overall State:** '' @ pb_build_state_name (pb_State b) @ nl
     @ (case pb_Source b of
          None \<Rightarrow> []
        | Some s \<Rightarrow> ''**Repo:** '' @ ps_RepoUrl s @ '' @ '' @ ps_CommitSha s @ '' ('' @ ps_Branch s @ '')'' @ nl @ nl)"

definition no_failures_text :: string where
  "no_failures_text = ''**No failures detected.** All tasks passed.'' @ nl"

definition diagnosis_text :: "(string \<Rightarrow> pb_log_line list) \<Rightarrow> pb_build \<Rightarrow> string" where
  "diagnosis_text logs b =
     (let failed = filter task_failed (pb_Tasks b);
          skipped = filter (\<lambda>t. pt_State t = TASK_STATE_SKIPPED) (pb_Tasks b);
          passed = filter (\<lambda>t. pt_State t = TASK_STATE_PASSED) (pb_Tasks b);
          running = filter task_running (pb_Tasks b)
      in diagnosis_head b
         @ (if failed = [] \<and> running = [] then no_failures_text
            else
              (if running \<noteq> [] then ''### Still Running'' @ nl
                 @ concat (map (\<lambda>t. ''- '' @ bold (pt_Name t) @ '' (id: '' @ pt_TaskId t @ '') '' @ em_dash @ '' ''
                     @ pb_state_name (pt_State t) @ nl) running) @ nl else [])
              @ (if failed \<noteq> [] then ''### Failed Tasks'' @ nl @ nl @ concat (map (failed_task_text logs) failed) else [])
              @ (if skipped \<noteq> [] then ''### Skipped Tasks (due to upstream failure)'' @ nl
                   @ concat (map (\<lambda>t. ''- '' @ pt_Name t @ nl) skipped) @ nl else [])
              @ ''### Summary'' @ nl
              @ ''- '' @ task_state_icon TaskPassed @ '' Passed: '' @ number (length passed) @ nl
              @ ''- '' @ task_state_icon TaskFailed @ '' Failed: '' @ number (length failed) @ nl
              @ ''- '' @ task_state_icon TaskSkipped @ '' Skipped: '' @ number (length skipped) @ nl
              @ ''- '' @ hourglass @ '' Running: '' @ number (length running) @ nl
              @ (case failed of
                   [] \<Rightarrow> []
                 | t # _ \<Rightarrow> nl @ ''**Root cause:** Task '' @ backquoted (pt_Name t) @ '' failed first. ''
                     @ ''Use '' @ backquoted ''suggest_fix'' @ '' with task_id '' @ backquoted (pt_TaskId t)
                     @ '' for remediation advice.'' @ nl)))"

definition tool_diagnose_build :: "'m mcp_master \<Rightarrow> tool_args \<Rightarrow> 'm \<Rightarrow> tool_result" where
  "tool_diagnose_build mm a m =
     with_build mm a m (\<lambda>b. text_result (diagnosis_text (task_log_lines mm (ta_BuildID a) m) b))"

section \<open>Submission, cancellation, retry\<close>

record path_env =
  pv_isdir :: "string \<Rightarrow> bool"
  pv_abs :: "string \<Rightarrow> string + string"
  pv_url_path :: "string \<Rightarrow> string"

text \<open>\<open>pv_url_path\<close> is how a path is escaped in a URL.\<close>

definition local_path_to_file_uri :: "path_env \<Rightarrow> string \<Rightarrow> string + string" where
  "local_path_to_file_uri pe path =
     (case pv_abs pe path of
        Inl err \<Rightarrow> Inl (''resolving repo path '' @ go_quoted path @ '': '' @ err)
      | Inr a \<Rightarrow> Inr (''file://'' @ pv_url_path pe a))"

definition normalize_repo_reference :: "path_env \<Rightarrow> string \<Rightarrow> string \<Rightarrow> string + string" where
  "normalize_repo_reference pe repoURL repoPath =
     (if repoPath \<noteq> [] then local_path_to_file_uri pe repoPath
      else if repoURL = [] then Inl ''repo_url or repo_path is required''
      else if has_prefix ''file://'' repoURL then Inr repoURL
      else if contains repoURL ''://'' then Inr repoURL
      else if pv_isdir pe repoURL then local_path_to_file_uri pe repoURL
      else Inr repoURL)"

definition submitted_text :: "string \<Rightarrow> string" where
  "submitted_text x = ''Build submitted successfully.'' @ nl @ nl @ ''**Build ID:** '' @ x @ nl @ nl
     @ ''Use '' @ backquoted ''get_build'' @ '' or '' @ backquoted ''watch_build'' @ '' to monitor progress.''"

definition tool_submit_build ::
    "path_env \<Rightarrow> 'm mcp_master \<Rightarrow> tool_args \<Rightarrow> 'm \<Rightarrow> 'm \<times> tool_result" where
  "tool_submit_build pe mm a m =
     (case normalize_repo_reference pe (ta_RepoURL a) (ta_RepoPath a) of
        Inl err \<Rightarrow> (m, error_result err)
      | Inr repoRef \<Rightarrow>
     (case mm_submit mm \<lparr> gs_RepoUrl = repoRef,
               gs_CommitSha = (if ta_CommitSHA a = [] then ''HEAD'' else ta_CommitSHA a),
               gs_Branch = (if ta_Branch a = [] then ''main'' else ta_Branch a), gs_PrNumber = [] \<rparr> ''mcp-agent'' m of
        (m', Inl err) \<Rightarrow> (m', error_result (''failed to submit build: '' @ err))
      | (m', Inr x) \<Rightarrow>
          (m', text_result (submitted_text x))))"

definition tool_cancel_build :: "'m mcp_master \<Rightarrow> tool_args \<Rightarrow> 'm \<Rightarrow> 'm \<times> tool_result" where
  "tool_cancel_build mm a m =
     (if ta_BuildID a = [] then (m, error_result ''build_id is required'')
      else case mm_cancel mm (ta_BuildID a) ''cancelled via MCP agent'' m of
        (m', Some err) \<Rightarrow> (m', error_result (''failed to cancel build: '' @ err))
      | (m', None) \<Rightarrow> (m', text_result (''Build '' @ ta_BuildID a @ '' has been cancelled.'')))"

definition tool_retry_build :: "'m mcp_master \<Rightarrow> tool_args \<Rightarrow> 'm \<Rightarrow> 'm \<times> tool_result" where
  "tool_retry_build mm a m =
     (if ta_BuildID a = [] then (m, error_result ''build_id is required'')
      else case mm_retry mm (ta_BuildID a) (ta_FromScratch a) m of
        (m', Inl err) \<Rightarrow> (m', error_result (''failed to retry build: '' @ err))
      | (m', Inr x) \<Rightarrow>
          (m', text_result (''Build retried. New build ID: '' @ x @ nl @ nl @ ''Use '' @ backquoted ''watch_build''
             @ '' to monitor progress.'')))"

section \<open>Suggestions\<close>

definition lower_text :: "string \<Rightarrow> string" where
  "lower_text s = map ascii_lower s"

definition contains_any :: "string \<Rightarrow> string list \<Rightarrow> bool" where
  "contains_any s subs = list_ex (\<lambda>x. contains (lower_text s) (lower_text x)) subs"

text \<open>The first case that applies.\<close>

definition error_type :: "pb_task \<Rightarrow> string \<Rightarrow> string" where
  "error_type t allLog =
     (if pt_State t = TASK_STATE_TIMED_OUT then ''timeout''
      else if contains_any (pt_Name t) [''compile'', ''build''] then ''compilation''
      else if contains_any (pt_Name t) [''test'', ''unit_test'', ''integration''] then ''test_failure''
      else if contains_any (pt_Name t) [''lint''] then ''lint''
      else if contains_any (pt_Name t) [''security'', ''scan'', ''trivy'', ''gosec''] then ''security_finding''
      else if contains_any (pt_Name t) [''sonar''] then ''quality_gate''
      else if contains_any allLog
        [''could not resolve'', ''module not found'', ''package not found'', ''dependency''] then ''dependency''
      else if contains_any allLog [''permission denied'', ''access denied''] then ''permission''
      else if contains_any allLog [''no space left'', ''disk quota''] then ''disk_space''
      else ''unknown'')"

definition likely :: "string \<Rightarrow> string list \<Rightarrow> string" where
  "likely cause actions = ''**Likely cause:** '' @ cause @ nl @ nl @ ''**Suggested actions:**'' @ nl @ content_lines actions"

definition advice_table :: "(string \<times> string) list" where
  "advice_table =
     [(''compilation'', likely
         ''Code does not compile. Check for syntax errors, missing imports, or type mismatches.''
         [''1. Read the error output below to find the file and line number'',
          ''2. Fix the compilation error in the source file'',
          ''3. Run the build command locally to verify'',
          ''4. Push the fix and use '' @ backquoted ''submit_build'' @ '' to re-trigger CI'']),
      (''test_failure'', likely
         ''One or more tests are failing.''
         [''1. Identify which test(s) failed from the output below'',
          ''2. Check if the test expectation is wrong or if the code has a bug'',
          ''3. Run the failing test locally to reproduce'',
          ''4. Fix the test or the code, then push and use '' @ backquoted ''submit_build'']),
      (''lint'', likely
         ''Code style or quality issues detected by linter.''
         [''1. Review the lint warnings/errors below'',
          ''2. Apply the suggested fixes (most linters provide auto-fix hints)'',
          ''3. Run the linter locally with '' @ backquoted ''--fix'' @ '' to auto-correct where possible'',
          ''4. Push and use '' @ backquoted ''submit_build'' @ '' to re-trigger'']),
      (''security_finding'', likely
         ''Security vulnerabilities detected in dependencies or code.''
         [''1. Review the vulnerability report below'',
          ''2. Update affected dependencies to patched versions'',
          ''3. If no patch exists, evaluate if the vulnerability applies to your use case'',
          ''4. Add exceptions for false positives if justified'']),
      (''quality_gate'', likely
         (''SonarQube quality gate failed '' @ em_dash @ '' likely low coverage, code duplication, or code smells.'')
         [''1. Check the SonarQube dashboard for specific gate conditions'',
          ''2. Add missing tests to increase coverage'',
          ''3. Refactor duplicated code'',
          ''4. Address flagged code smells'']),
      (''dependency'', likely
         ''A dependency could not be resolved.''
         [''1. Check if the dependency registry/mirror is accessible'',
          ''2. Verify the dependency exists and the version is correct'',
          ''3. Run '' @ backquoted ''go mod tidy'' @ '' / '' @ backquoted ''npm install'' @ '' / equivalent locally'',
          ''4. Check if a cache mount is configured correctly in pipeline.yaml'']),
      (''timeout'', likely
         ''Task exceeded its time limit.''
         [''1. Increase the '' @ backquoted ''timeout'' @ '' in pipeline.yaml for this task'',
          ''2. Check for infinite loops or hanging processes in the task'',
          ''3. Consider splitting the task into smaller parallel tasks'',
          ''4. Check if dependency caching is working (slow downloads?)''])]"

definition unclassified_text :: string where
  "unclassified_text = ''**Unable to classify automatically.** Review the logs below for details.'' @ nl @ nl"

definition advice :: "string \<Rightarrow> string" where
  "advice k = (case map_of advice_table k of Some t \<Rightarrow> t | None \<Rightarrow> unclassified_text)"

definition output_block :: "string \<Rightarrow> string list \<Rightarrow> string" where
  "output_block title ls = nl @ ''### '' @ title @ nl @ fence @ nl @ content_lines (last_lines 50 ls) @ fence @ nl"

definition suggestion_text :: "pb_build \<Rightarrow> pb_task \<Rightarrow> pb_log_line list \<Rightarrow> string" where
  "suggestion_text b t ls =
     (let allLogLines = map pl_Content ls;
          errorLines = map pl_Content (filter (\<lambda>l. pl_Stream l = LOG_STREAM_STDERR) ls);
          kind = error_type t (join allLogLines nl)
      in ''## Fix Suggestion for: '' @ pt_Name t @ nl @ nl
         @ ''**Task:** '' @ pt_Name t @ '' (id: '' @ pt_TaskId t @ '')'' @ nl
         @ ''**Image:** '' @ pt_ContainerImage t @ nl
         @ ''**Commands:** '' @ join (pt_Commands t) '' && '' @ nl
         @ ''**Exit Code:** '' @ (case pt_Result t of None \<Rightarrow> ''0'' | Some r \<Rightarrow> exit_text r) @ nl
         @ ''**State:** '' @ pb_state_name (pt_State t) @ nl @ nl
         @ ''### Error Classification: '' @ bold kind @ nl @ nl
         @ advice kind
         @ (if errorLines \<noteq> [] then output_block ''Error Output'' errorLines
            else if allLogLines \<noteq> [] then output_block ''Full Output (last 50 lines)'' allLogLines
            else nl @ ''*No logs available for this task.*'' @ nl)
         @ nl @ ''---'' @ nl @ ''After fixing, use '' @ backquoted ''submit_build'' @ '' with repo_url ''
         @ backquoted (source_url b) @ '' to re-trigger CI.'' @ nl)"

definition tool_suggest_fix :: "'m mcp_master \<Rightarrow> tool_args \<Rightarrow> 'm \<Rightarrow> tool_result" where
  "tool_suggest_fix mm a m =
     (if ta_BuildID a = [] \<or> ta_TaskID a = [] then error_result ''build_id and task_id are required''
      else case mm_get mm (ta_BuildID a) m of
        Inl err \<Rightarrow> error_result (''build not found: '' @ err)
      | Inr b \<Rightarrow>
     (case find (\<lambda>t. pt_TaskId t = ta_TaskID a) (pb_Tasks b) of
        None \<Rightarrow> error_result (''task '' @ ta_TaskID a @ '' not found in build '' @ ta_BuildID a)
      | Some t \<Rightarrow>
          if \<not> task_failed t
          then text_result (''Task '' @ pt_Name t @ '' is in state '' @ pb_state_name (pt_State t)
                 @ '' (not failed). No fix needed.'')
          else text_result (suggestion_text b t (task_log_lines mm (ta_BuildID a) m (ta_TaskID a)))))"

end
