(* ===== verification/Mcp_Server.thy ===== *)
theory Mcp_Server
  imports Mcp_Tools Scheduler_Service
begin

text \<open>
  The MCP server around the tools: the dispatch of JSON-RPC requests over stdin
  (\<open>cmd/mcp/main.go\<close>) and over HTTP with its sessions (\<open>cmd/mcp/http.go\<close>), and the calls of the
  tools on the master's own scheduler and log services.

  A request is given as its JSON tree.  The texts of JSON errors are an argument \<open>why\<close>.  An ID of a
  session is an argument, since the code draws it at random; a channel is its place in a list, so
  that closing one twice, which panics in Go, can be told apart.  The message channels of sessions
  are left out: nothing in the code sends to them.
\<close>

section \<open>Arguments\<close>

text \<open>A field that does not have the type of its Go field is left at zero: the error is ignored.\<close>

definition int_field :: "nat \<Rightarrow> string \<Rightarrow> (string \<times> json) list \<Rightarrow> int" where
  "int_field w f kvs = (case field f kvs of
     JNum n \<Rightarrow> if - (2 ^ (w - 1)) \<le> n \<and> n < 2 ^ (w - 1) then n else 0 | _ \<Rightarrow> 0)"

definition text_field :: "string \<Rightarrow> (string \<times> json) list \<Rightarrow> string" where
  "text_field f kvs = (case str_field f kvs of Some s \<Rightarrow> s | None \<Rightarrow> [])"

definition flag_field :: "string \<Rightarrow> (string \<times> json) list \<Rightarrow> bool" where
  "flag_field f kvs = (field f kvs = JBool True)"

text \<open>A raw field: the last that matches, also when it is null.\<close>

fun raw_field :: "string \<Rightarrow> (string \<times> json) list \<Rightarrow> json option" where
  "raw_field f [] = None"
| "raw_field f ((k, v) # kvs) =
     (case raw_field f kvs of
        Some w \<Rightarrow> Some w
      | None \<Rightarrow> if lower_text k = lower_text f then Some v else None)"

definition args_of :: "(string \<times> json) list \<Rightarrow> tool_args" where
  "args_of kvs = \<lparr> ta_Limit = int_field 32 ''limit'' kvs,
     ta_LineLimit = int_field 64 ''limit'' kvs, ta_State = text_field ''state'' kvs,
     ta_BuildID = text_field ''build_id'' kvs, ta_TaskID = text_field ''task_id'' kvs,
     ta_Tail = int_field 64 ''tail'' kvs, ta_RepoURL = text_field ''repo_url'' kvs,
     ta_RepoPath = text_field ''repo_path'' kvs, ta_Branch = text_field ''branch'' kvs,
     ta_CommitSHA = text_field ''commit_sha'' kvs, ta_FromScratch = flag_field ''from_scratch'' kvs \<rparr>"

definition decode_args :: "json option \<Rightarrow> tool_args" where
  "decode_args j = args_of (case j of Some (JObj kvs) \<Rightarrow> kvs | _ \<Rightarrow> [])"

section \<open>Requests and responses\<close>

record rpc_request =
  rq_ID :: "json option"
  rq_Method :: string
  rq_Params :: "json option"

datatype rpc_result =
    InitializeResult
  | ToolsList "(string \<times> string list) list"
  | ToolResult tool_result
  | EmptyResult

record rpc_response =
  rr_ID :: "json option"
  rr_Result :: "rpc_result option"
  rr_Error :: "(int \<times> string) option"

definition rpc_ok :: "rpc_request \<Rightarrow> rpc_result \<Rightarrow> rpc_response" where
  "rpc_ok q r = \<lparr> rr_ID = rq_ID q, rr_Result = Some r, rr_Error = None \<rparr>"

definition rpc_fail :: "rpc_request \<Rightarrow> int \<Rightarrow> string \<Rightarrow> rpc_response" where
  "rpc_fail q c e = \<lparr> rr_ID = rq_ID q, rr_Result = None, rr_Error = Some (c, e) \<rparr>"

text \<open>The table of \<open>handleToolsList\<close>: the names and the required arguments of their schemas.\<close>

definition advertised_tools :: "(string \<times> string list) list" where
  "advertised_tools =
     [(''list_builds'', []), (''get_build'', [''build_id'']), (''get_task_logs'', [''build_id'', ''task_id'']),
      (''diagnose_build'', [''build_id'']), (''submit_build'', []), (''cancel_build'', [''build_id'']),
      (''retry_build'', [''build_id'']), (''get_failed_builds'', []),
      (''suggest_fix'', [''build_id'', ''task_id'']), (''watch_build'', [''build_id''])]"

definition reading :: "'m \<Rightarrow> ('m \<Rightarrow> tool_result) \<Rightarrow> 'm \<times> tool_result" where
  "reading m f = (m, f m)"

definition call_tool ::
    "path_env \<Rightarrow> 'm mcp_master \<Rightarrow> string \<Rightarrow> tool_args \<Rightarrow> 'm \<Rightarrow> 'm \<times> tool_result" where
  "call_tool pe mm x a m =
     (if x = ''list_builds'' then reading m (tool_list_builds mm a)
      else if x = ''get_build'' then reading m (tool_get_build mm a)
      else if x = ''get_task_logs'' then reading m (tool_get_task_logs mm a)
      else if x = ''diagnose_build'' then reading m (tool_diagnose_build mm a)
      else if x = ''submit_build'' then tool_submit_build pe mm a m
      else if x = ''cancel_build'' then tool_cancel_build mm a m
      else if x = ''retry_build'' then tool_retry_build mm a m
      else if x = ''get_failed_builds'' then reading m (tool_get_failed_builds mm a)
      else if x = ''suggest_fix'' then reading m (tool_suggest_fix mm a)
      else if x = ''watch_build'' then reading m (tool_watch_build mm a)
      else (m, error_result (''unknown tool: '' @ x)))"

text \<open>The parameters of a call: an object with a name that is a string, or null.\<close>

fun call_params :: "json option \<Rightarrow> (string \<times> json option) option" where
  "call_params None = None"
| "call_params (Some j) =
     (case as_object j of
        None \<Rightarrow> None
      | Some kvs \<Rightarrow> map_option (\<lambda>x. (x, raw_field ''arguments'' kvs)) (str_field ''name'' kvs))"

definition handle_tools_call ::
    "path_env \<Rightarrow> (json option \<Rightarrow> string) \<Rightarrow> 'm mcp_master \<Rightarrow> rpc_request \<Rightarrow> 'm \<Rightarrow> 'm \<times> rpc_response" where
  "handle_tools_call pe why mm q m =
     (case call_params (rq_Params q) of
        None \<Rightarrow> (m, rpc_fail q (- 32602) (''invalid params: '' @ why (rq_Params q)))
      | Some (x, args) \<Rightarrow>
          (case call_tool pe mm x (decode_args args) m of (m', r) \<Rightarrow> (m', rpc_ok q (ToolResult r))))"

definition handle_request ::
    "path_env \<Rightarrow> (json option \<Rightarrow> string) \<Rightarrow> 'm mcp_master \<Rightarrow> rpc_request \<Rightarrow> 'm
      \<Rightarrow> 'm \<times> rpc_response option" where
  "handle_request pe why mm q m =
     (if rq_Method q = ''initialize'' then (m, Some (rpc_ok q InitializeResult))
      else if rq_Method q = ''initialized'' then (m, None)
      else if rq_Method q = ''tools/list'' then (m, Some (rpc_ok q (ToolsList advertised_tools)))
      else if rq_Method q = ''tools/call''
      then (case handle_tools_call pe why mm q m of (m', r) \<Rightarrow> (m', Some r))
      else if rq_Method q = ''ping'' then (m, Some (rpc_ok q EmptyResult))
      else (m, Some (rpc_fail q (- 32601) (''method not found: '' @ rq_Method q))))"

text \<open>A request from its tree; nothing when it does not decode.\<close>

definition rpc_request_of :: "json \<Rightarrow> rpc_request option" where
  "rpc_request_of j =
     (case as_object j of
        None \<Rightarrow> None
      | Some kvs \<Rightarrow>
     (case (str_field ''jsonrpc'' kvs, str_field ''method'' kvs) of
        (Some _, Some x) \<Rightarrow>
          Some \<lparr> rq_ID = raw_field ''id'' kvs, rq_Method = x, rq_Params = raw_field ''params'' kvs \<rparr>
      | _ \<Rightarrow> None))"

section \<open>Standard input\<close>

text \<open>The loop of \<open>run\<close>: empty lines and lines that do not decode are passed over; a line that does not
  fit the buffer of the scanner ends the loop. Lines are given without their end of line.\<close>

definition line_limit :: nat where
  "line_limit = 1024 * 1024"

definition decoded_line :: "(string \<Rightarrow> json option) \<Rightarrow> string \<Rightarrow> rpc_request option" where
  "decoded_line parse_json l = (if l = [] then None else Option.bind (parse_json l) rpc_request_of)"

fun stdio_run ::
    "path_env \<Rightarrow> (json option \<Rightarrow> string) \<Rightarrow> (string \<Rightarrow> json option) \<Rightarrow> 'm mcp_master \<Rightarrow> string list \<Rightarrow> 'm
      \<Rightarrow> 'm \<times> rpc_response list" where
  "stdio_run pe why parse_json mm [] m = (m, [])"
| "stdio_run pe why parse_json mm (l # ls) m =
     (if line_limit \<le> length l then (m, [])
      else case decoded_line parse_json l of
        None \<Rightarrow> stdio_run pe why parse_json mm ls m
      | Some q \<Rightarrow>
     (case handle_request pe why mm q m of (m', r) \<Rightarrow>
     (case stdio_run pe why parse_json mm ls m' of (m'', rs) \<Rightarrow>
        (m'', (case r of None \<Rightarrow> rs | Some x \<Rightarrow> x # rs)))))"

section \<open>HTTP\<close>

text \<open>Channels are numbered in the order they are made; \<open>ht_closed\<close> tells which are closed.\<close>

record transport =
  ht_sessions :: "(string, nat) gomap"
  ht_closed :: "bool list"

definition new_transport :: transport where
  "new_transport = \<lparr> ht_sessions = [], ht_closed = [] \<rparr>"

definition add_session :: "string \<Rightarrow> transport \<Rightarrow> transport" where
  "add_session x h = h\<lparr> ht_sessions := gput x (length (ht_closed h)) (ht_sessions h),
     ht_closed := ht_closed h @ [False] \<rparr>"

record mcp_http_in =
  mi_Method :: string
  mi_Session :: string
  mi_Body :: "json option"
  mi_Flusher :: bool

datatype mcp_http_out =
    HttpStatus nat string
  | Answer nat string "rpc_response option"
  | EventStream nat

text \<open>\<open>mi_Body\<close> is the body as a tree, cut off at one mebibyte, nothing when it does not parse; \<open>err\<close> is
  the text of the parser.  A body that breaks off while it is read is left out.\<close>

definition handle_post ::
    "path_env \<Rightarrow> (json option \<Rightarrow> string) \<Rightarrow> 'm mcp_master \<Rightarrow> string \<Rightarrow> mcp_http_in \<Rightarrow> 'm \<times> transport
      \<Rightarrow> ('m \<times> transport) \<times> mcp_http_out" where
  "handle_post pe why mm newID i mh =
     (case mh of (m, h) \<Rightarrow>
      case Option.bind (mi_Body i) rpc_request_of of
        None \<Rightarrow> ((m, h), Answer 400 [] (Some \<lparr> rr_ID = None, rr_Result = None,
                   rr_Error = Some (- 32700, ''parse error: '' @ why (mi_Body i)) \<rparr>))
      | Some q \<Rightarrow>
     (case handle_request pe why mm q m of (m', r) \<Rightarrow>
        let (h', sid) = (if rq_Method q = ''initialize'' then (add_session newID h, newID) else (h, mi_Session i))
        in ((m', h'), Answer (if r = None then 202 else 200) sid r)))"

definition handle_sse :: "mcp_http_in \<Rightarrow> transport \<Rightarrow> mcp_http_out" where
  "handle_sse i h =
     (if mi_Session i = [] then HttpStatus 400 ''Mcp-Session-Id header required''
      else case gget (ht_sessions h) (mi_Session i) of
        None \<Rightarrow> HttpStatus 404 ''unknown session''
      | Some c \<Rightarrow> if \<not> mi_Flusher i then HttpStatus 500 ''streaming not supported'' else EventStream c)"

text \<open>A stream on a channel lasts until the channel is closed or the client leaves.\<close>

definition stream_over :: "nat \<Rightarrow> bool \<Rightarrow> transport \<Rightarrow> bool" where
  "stream_over c gone h \<longleftrightarrow> ht_closed h ! c \<or> gone"

text \<open>Nothing when the channel is closed already.\<close>

definition close_channel :: "nat \<Rightarrow> transport \<Rightarrow> transport option" where
  "close_channel c h = (if ht_closed h ! c then None else Some (h\<lparr> ht_closed := (ht_closed h)[c := True] \<rparr>))"

text \<open>The part under the lock, with whether the session was there.\<close>

definition remove_session :: "string \<Rightarrow> transport \<Rightarrow> (transport \<times> bool) option" where
  "remove_session x h =
     (case gget (ht_sessions h) x of
        None \<Rightarrow> Some (h, False)
      | Some c \<Rightarrow> map_option (\<lambda>h'. (h'\<lparr> ht_sessions := gdel x (ht_sessions h') \<rparr>, True)) (close_channel c h))"

definition handle_delete :: "mcp_http_in \<Rightarrow> transport \<Rightarrow> (transport \<times> mcp_http_out) option" where
  "handle_delete i h =
     (if mi_Session i = [] then Some (h, HttpStatus 400 ''Mcp-Session-Id header required'')
      else map_option (\<lambda>(h', ok). (h', if ok then HttpStatus 200 [] else HttpStatus 404 ''unknown session''))
             (remove_session (mi_Session i) h))"

definition mcp_serve_http ::
    "path_env \<Rightarrow> (json option \<Rightarrow> string) \<Rightarrow> 'm mcp_master \<Rightarrow> string \<Rightarrow> mcp_http_in \<Rightarrow> 'm \<times> transport
      \<Rightarrow> (('m \<times> transport) \<times> mcp_http_out) option" where
  "mcp_serve_http pe why mm newID i mh =
     (if mi_Method i = ''OPTIONS'' then Some (mh, HttpStatus 204 [])
      else if mi_Method i = ''POST'' then Some (handle_post pe why mm newID i mh)
      else if mi_Method i = ''GET'' then Some (mh, handle_sse i (snd mh))
      else if mi_Method i = ''DELETE''
      then map_option (\<lambda>(h, o'). ((fst mh, h), o')) (handle_delete i (snd mh))
      else Some (mh, HttpStatus 405 ''method not allowed''))"

end
