(* ===== verification/Mcp_Properties.thy ===== *)
theory Mcp_Properties
  imports Mcp_Server Log_Service
begin

text \<open>
  The MCP server on the model's own master, and what can be said of it: the contract of the master
  that the tools rely on (\<open>mcp_service\<close>), interpreted on the scheduler and log services
  (\<open>master_calls\<close>), the contract of the session table (\<open>live_sessions\<close>), interpreted on the HTTP
  transport, and the properties of the tools, the standard input loop and the transport.
\<close>

section \<open>The calls of the master\<close>

fun rpc_code_name :: "rpc_code \<Rightarrow> string" where
  "rpc_code_name InvalidArgument = ''InvalidArgument''"
| "rpc_code_name NotFound = ''NotFound''"
| "rpc_code_name AlreadyExists = ''AlreadyExists''"
| "rpc_code_name FailedPrecondition = ''FailedPrecondition''"
| "rpc_code_name Internal = ''Internal''"
| "rpc_code_name Unimplemented = ''Unimplemented''"

fun rpc_text :: "rpc_status \<Rightarrow> string" where
  "rpc_text (RpcStatus c d) = ''rpc error: code = '' @ rpc_code_name c @ '' desc = '' @ d"

definition rpc_result_text :: "rpc_status + 'a \<Rightarrow> string + 'a" where
  "rpc_result_text r = map_sum rpc_text id r"

record mcp_host =
  mh_sched :: scheduler
  mh_logs :: log_store
  mh_calls :: "scm_call list"

text \<open>The arguments of the services: \<open>mw_newID\<close> and \<open>mw_now\<close> are in \<open>mw_intake\<close>; \<open>mw_down\<close> is the text
  of a call on which the master panicked.\<close>

record mcp_world =
  mw_intake :: intake_env
  mw_host :: host_env
  mw_router :: router
  mw_keys :: "graph \<Rightarrow> string list"
  mw_builds :: "scheduler \<Rightarrow> string list"
  mw_down :: string

definition host_list :: "mcp_world \<Rightarrow> int \<Rightarrow> mcp_host \<Rightarrow> string + pb_build list" where
  "host_list w limit m =
     (case grpc_list_builds (mw_keys w) (mw_builds w (mh_sched m)) limit (mh_sched m) of
        None \<Rightarrow> Inl (mw_down w) | Some bs \<Rightarrow> Inr bs)"

definition host_get :: "mcp_world \<Rightarrow> string \<Rightarrow> mcp_host \<Rightarrow> string + pb_build" where
  "host_get w x m = rpc_result_text (grpc_get_build (mw_keys w) (Some x) (mh_sched m))"

definition host_logs :: "mcp_world \<Rightarrow> string \<Rightarrow> string \<Rightarrow> int \<Rightarrow> mcp_host \<Rightarrow> string + (pb_log_line list \<times> int)" where
  "host_logs w b x limit m =
     (case get_logs \<lparr> lq_BuildId = Some b, lq_TaskId = Some x, lq_Follow = False, lq_From = 0, lq_Limit = limit \<rparr>
         (mh_logs m) of
        None \<Rightarrow> Inl (mw_down w) | Some r \<Rightarrow> rpc_result_text r)"

definition host_submit :: "mcp_world \<Rightarrow> git_source \<Rightarrow> string \<Rightarrow> mcp_host \<Rightarrow> mcp_host \<times> (string + string)" where
  "host_submit w src by_whom m =
     (case grpc_submit_build (mw_intake w) (mw_host w) \<lparr> sq_Source = Some src, sq_TriggeredBy = by_whom \<rparr> (mh_sched m) of
        (s', r) \<Rightarrow> (m\<lparr> mh_sched := s' \<rparr>, rpc_result_text r))"

definition host_cancel :: "mcp_world \<Rightarrow> string \<Rightarrow> string \<Rightarrow> mcp_host \<Rightarrow> mcp_host \<times> string option" where
  "host_cancel w x reason m =
     (case grpc_cancel_build (mw_router w) (mw_keys w) (ie_now (mw_intake w)) (Some x) (mh_sched m) of
        (s', calls, r) \<Rightarrow> (m\<lparr> mh_sched := s', mh_calls := mh_calls m @ calls \<rparr>,
          (case r of Inl e \<Rightarrow> Some (rpc_text e) | Inr _ \<Rightarrow> None)))"

text \<open>The master embeds the generated \<open>UnimplementedSchedulerServiceServer\<close> and has no \<open>RetryBuild\<close>.\<close>

definition host_retry :: "string \<Rightarrow> bool \<Rightarrow> mcp_host \<Rightarrow> mcp_host \<times> (string + string)" where
  "host_retry x fromScratch m = (m, Inl (rpc_text (RpcStatus Unimplemented ''method RetryBuild not implemented'')))"

definition master_calls :: "mcp_world \<Rightarrow> mcp_host mcp_master" where
  "master_calls w = \<lparr> mm_list = host_list w, mm_get = host_get w, mm_logs = host_logs w,
     mm_submit = host_submit w, mm_cancel = host_cancel w, mm_retry = host_retry \<rparr>"

section \<open>Progress\<close>

lemma count_tasks_le: "count_tasks P b \<le> length (pb_Tasks b)"
  by (simp add: count_tasks_def)

lemma count_tasks_all: "count_tasks P b = length (pb_Tasks b) \<longleftrightarrow> list_all P (pb_Tasks b)"
  by (auto simp: count_tasks_def list_all_iff filter_id_conv intro: length_filter_less [THEN less_imp_neq, THEN notE])

lemma div_full: "k \<le> n \<Longrightarrow> 0 < (n :: nat) \<Longrightarrow> (k * 100) div n = 100 \<longleftrightarrow> k = n"
  by (metis div_le_dividend div_mult_self1_is_m le_antisym mult.commute mult_le_mono2 times_div_less_eq_dividend
      zero_less_numeral nat_mult_le_cancel1)

section \<open>Sessions\<close>

text \<open>A table of sessions: \<open>live\<close> is the set of open ones, closing tells whether there was one to close.\<close>

datatype session_event = Opens string | Closes string

fun live_after :: "session_event list \<Rightarrow> string set \<Rightarrow> string set" where
  "live_after [] S = S"
| "live_after (Opens x # es) S = live_after es (insert x S)"
| "live_after (Closes x # es) S = live_after es (S - {x})"

locale live_sessions =
  fixes live :: "'h \<Rightarrow> string set"
    and sound :: "'h \<Rightarrow> bool"
    and opens :: "string \<Rightarrow> 'h \<Rightarrow> 'h"
    and closes :: "string \<Rightarrow> 'h \<Rightarrow> ('h \<times> bool) option"
  assumes opened: "sound h \<Longrightarrow> sound (opens x h) \<and> live (opens x h) = insert x (live h)"
    and closed: "sound h \<Longrightarrow> \<exists>h'. closes x h = Some (h', x \<in> live h) \<and> sound h' \<and> live h' = live h - {x}"
begin

fun run :: "session_event list \<Rightarrow> 'h \<Rightarrow> 'h option" where
  "run [] h = Some h"
| "run (Opens x # es) h = run es (opens x h)"
| "run (Closes x # es) h = Option.bind (closes x h) (\<lambda>(h', _). run es h')"

lemma run_append: "run (es @ fs) h = Option.bind (run es h) (run fs)"
proof (induction es arbitrary: h)
  case (Cons e es)
  then show ?case by (cases e) (auto split: option.splits prod.splits bind_split)
qed simp

lemma runs: "sound h \<Longrightarrow> \<exists>h'. run es h = Some h' \<and> sound h' \<and> live h' = live_after es (live h)"
proof (induction es arbitrary: h)
  case (Cons e es)
  show ?case
  proof (cases e)
    case (Opens x)
    then show ?thesis using Cons.IH [of "opens x h"] opened [OF Cons.prems, of x] by simp
  next
    case (Closes x)
    from closed [OF Cons.prems, of x] obtain h' where
      h': "closes x h = Some (h', x \<in> live h)" "sound h'" "live h' = live h - {x}" by blast
    then show ?thesis using Closes Cons.IH [OF h'(2)] by simp
  qed
qed simp

end

definition live_ids :: "transport \<Rightarrow> string set" where
  "live_ids h = set (gkeys (ht_sessions h))"

definition open_channels :: "transport \<Rightarrow> bool" where
  "open_channels h \<longleftrightarrow>
     (\<forall>x c. gget (ht_sessions h) x = Some c \<longrightarrow> c < length (ht_closed h) \<and> \<not> ht_closed h ! c)
     \<and> (\<forall>x y c. gget (ht_sessions h) x = Some c \<and> gget (ht_sessions h) y = Some c \<longrightarrow> x = y)"

lemma open_channelsD:
  "open_channels h \<Longrightarrow> gget (ht_sessions h) x = Some c \<Longrightarrow> c < length (ht_closed h) \<and> \<not> ht_closed h ! c"
  by (auto simp: open_channels_def)

lemma add_session_open: "open_channels h \<Longrightarrow> open_channels (add_session x h)"
  by (auto simp: open_channels_def add_session_def nth_append intro: less_SucI)

lemma live_add_session [simp]: "live_ids (add_session x h) = insert x (live_ids h)"
  by (simp add: live_ids_def add_session_def)

lemma live_iff: "x \<in> live_ids h \<longleftrightarrow> gget (ht_sessions h) x \<noteq> None"
  by (simp add: live_ids_def set_gkeys)

lemma remove_session_spec:
  assumes "open_channels h"
  shows "\<exists>h'. remove_session x h = Some (h', x \<in> live_ids h) \<and> open_channels h' \<and> live_ids h' = live_ids h - {x}"
proof (cases "gget (ht_sessions h) x")
  case None
  then show ?thesis using assms by (auto simp: remove_session_def live_iff)
next
  case (Some c)
  let ?h = "h\<lparr> ht_closed := (ht_closed h)[c := True], ht_sessions := gdel x (ht_sessions h) \<rparr>"
  have "remove_session x h = Some (?h, True)"
    using Some open_channelsD [OF assms Some] by (simp add: remove_session_def close_channel_def)
  moreover have "open_channels ?h"
    using assms Some by (auto simp: open_channels_def nth_list_update split: if_splits)
  moreover have "live_ids ?h = live_ids h - {x}"
    by (auto simp: live_ids_def set_gkeys)
  ultimately show ?thesis using Some by (simp add: live_iff)
qed

interpretation transport_sessions: live_sessions live_ids open_channels add_session remove_session
  by unfold_locales (simp_all add: add_session_open remove_session_spec)

section \<open>Requests over HTTP\<close>

definition session_events :: "string \<Rightarrow> mcp_http_in \<Rightarrow> session_event list" where
  "session_events newID i =
     (if mi_Method i = ''POST'' then
        (case Option.bind (mi_Body i) rpc_request_of of
           Some q \<Rightarrow> if rq_Method q = ''initialize'' then [Opens newID] else [] | None \<Rightarrow> [])
      else if mi_Method i = ''DELETE'' \<and> mi_Session i \<noteq> [] then [Closes (mi_Session i)] else [])"

text \<open>The status a request gets, given the live sessions.\<close>

definition expected_status :: "mcp_http_in \<Rightarrow> string set \<Rightarrow> nat" where
  "expected_status i S =
     (if mi_Method i = ''OPTIONS'' then 204
      else if mi_Method i = ''POST'' then
        (case Option.bind (mi_Body i) rpc_request_of of
           None \<Rightarrow> 400 | Some q \<Rightarrow> if rq_Method q = ''initialized'' then 202 else 200)
      else if mi_Method i \<notin> {''GET'', ''DELETE''} then 405
      else if mi_Session i = [] then 400
      else if mi_Session i \<notin> S then 404
      else if mi_Method i = ''GET'' \<and> \<not> mi_Flusher i then 500 else 200)"

fun expected_statuses :: "(string \<times> mcp_http_in) list \<Rightarrow> string set \<Rightarrow> nat list" where
  "expected_statuses [] S = []"
| "expected_statuses ((x, i) # is) S =
     expected_status i S # expected_statuses is (live_after (session_events x i) S)"

fun http_status :: "mcp_http_out \<Rightarrow> nat" where
  "http_status (HttpStatus n _) = n"
| "http_status (Answer n _ _) = n"
| "http_status (EventStream _) = 200"

fun http_run ::
    "path_env \<Rightarrow> (json option \<Rightarrow> string) \<Rightarrow> 'm mcp_master \<Rightarrow> (string \<times> mcp_http_in) list \<Rightarrow> 'm \<times> transport
      \<Rightarrow> (('m \<times> transport) \<times> mcp_http_out list) option" where
  "http_run pe why mm [] mh = Some (mh, [])"
| "http_run pe why mm ((x, i) # is) mh =
     Option.bind (mcp_serve_http pe why mm x i mh) (\<lambda>(mh', r).
       map_option (\<lambda>(mh'', rs). (mh'', r # rs)) (http_run pe why mm is mh'))"

lemma handle_request_silent: "snd (handle_request pe why mm q m) = None \<longleftrightarrow> rq_Method q = ''initialized''"
  by (auto simp: handle_request_def split: prod.splits)

lemma handle_post_undecoded:
  assumes "mi_Method i = ''POST''" "Option.bind (mi_Body i) rpc_request_of = None"
  shows "\<exists>r. handle_post pe why mm x i (m, h) = ((m, h), r) \<and> http_status r = expected_status i S"
    and "session_events x i = []"
  using assms by (simp_all add: handle_post_def session_events_def expected_status_def)

lemma handle_post_decoded:
  assumes p: "mi_Method i = ''POST''" and q: "Option.bind (mi_Body i) rpc_request_of = Some q"
  shows "\<exists>m' r. handle_post pe why mm x i (m, h)
      = ((m', if rq_Method q = ''initialize'' then add_session x h else h), r)
      \<and> http_status r = expected_status i S"
    and "session_events x i = (if rq_Method q = ''initialize'' then [Opens x] else [])"
proof -
  obtain m' r where h: "handle_request pe why mm q m = (m', r)" by fastforce
  with handle_request_silent [of pe why mm q m] have "r = None \<longleftrightarrow> rq_Method q = ''initialized''" by simp
  with p q h show "\<exists>m' r. handle_post pe why mm x i (m, h)
      = ((m', if rq_Method q = ''initialize'' then add_session x h else h), r)
      \<and> http_status r = expected_status i S"
    by (simp add: handle_post_def expected_status_def Let_def)
  show "session_events x i = (if rq_Method q = ''initialize'' then [Opens x] else [])"
    using p q by (simp add: session_events_def)
qed

lemma serve_http_step:
  assumes ok: "open_channels h"
  shows "\<exists>m' h' r. mcp_serve_http pe why mm x i (m, h) = Some ((m', h'), r)
    \<and> transport_sessions.run (session_events x i) h = Some h' \<and> http_status r = expected_status i (live_ids h)"
proof (cases "mi_Method i = ''POST''")
  case True
  show ?thesis
  proof (cases "Option.bind (mi_Body i) rpc_request_of")
    case None
    then show ?thesis using True handle_post_undecoded(1) [OF True None, of pe why mm x m h "live_ids h"] handle_post_undecoded(2) [OF True None, of x]
      by (auto simp: mcp_serve_http_def)
  next
    case (Some q)
    then show ?thesis using True handle_post_decoded(1) [OF True Some, of pe why mm x m h "live_ids h"]
        handle_post_decoded(2) [OF True Some, of x]
      by (auto simp: mcp_serve_http_def)
  qed
next
  case False
  from remove_session_spec [OF ok, of "mi_Session i"] obtain h' where
    "remove_session (mi_Session i) h = Some (h', mi_Session i \<in> live_ids h)" by blast
  then show ?thesis using False
    by (auto simp: mcp_serve_http_def handle_sse_def handle_delete_def session_events_def expected_status_def
        live_iff split: option.splits)
qed

lemma http_run_sessions:
  "open_channels h \<Longrightarrow> \<exists>m' h' rs. http_run pe why mm reqs (m, h) = Some ((m', h'), rs)
     \<and> transport_sessions.run (concat (map (\<lambda>(x, i). session_events x i) reqs)) h = Some h'
     \<and> map http_status rs = expected_statuses reqs (live_ids h)"
proof (induction reqs arbitrary: m h)
  case (Cons a reqs)
  obtain x i where a: "a = (x, i)" by fastforce
  from serve_http_step [OF Cons.prems, of pe why mm x i m] obtain m' h' r where
    s: "mcp_serve_http pe why mm x i (m, h) = Some ((m', h'), r)"
      "transport_sessions.run (session_events x i) h = Some h'" "http_status r = expected_status i (live_ids h)"
    by blast
  from transport_sessions.runs [OF Cons.prems, of "session_events x i"]
  have "open_channels h'" "live_ids h' = live_after (session_events x i) (live_ids h)" by (simp_all add: s(2))
  with Cons.IH [of h' m'] show ?case by (auto simp: a s transport_sessions.run_append)
qed simp

section \<open>Properties of the transport\<close>

text \<open>C25. The HTTP transport keeps a set of sessions: over any sequence of requests, each with the random
  name a new session would get, no channel is closed twice, which would panic, every status is the one
  determined by the set of names opened by \<open>initialize\<close> and not closed since, the sessions in the end are
  that set, and the channels of all of them are open.\<close>

theorem http_sessions_refine_set:
  "\<exists>m' h' rs. http_run pe why mm reqs (m, new_transport) = Some ((m', h'), rs)
     \<and> map http_status rs = expected_statuses reqs {}
     \<and> live_ids h' = live_after (concat (map (\<lambda>(x, i). session_events x i) reqs)) {}
     \<and> open_channels h'"
proof -
  have n: "open_channels new_transport" "live_ids new_transport = {}"
    by (simp_all add: open_channels_def new_transport_def live_ids_def gkeys_def)
  from http_run_sessions [OF n(1), of pe why mm reqs m] obtain m' h' rs where
    r: "http_run pe why mm reqs (m, new_transport) = Some ((m', h'), rs)"
      "transport_sessions.run (concat (map (\<lambda>(x, i). session_events x i) reqs)) new_transport = Some h'"
      "map http_status rs = expected_statuses reqs {}" unfolding n(2) by blast
  from transport_sessions.runs [OF n(1), of "concat (map (\<lambda>(x, i). session_events x i) reqs)"]
  show ?thesis using r by (simp add: n(2))
qed

section \<open>Properties of the standard input loop\<close>

lemma handle_request_id:
  "snd (handle_request pe why mm q m) = Some r \<Longrightarrow> rr_ID r = rq_ID q"
  by (auto simp: handle_request_def handle_tools_call_def rpc_ok_def rpc_fail_def split: option.splits prod.splits if_splits)

text \<open>The requests that the loop takes up: of the lines before one that is too long, those that decode.\<close>

definition taken_up :: "(string \<Rightarrow> json option) \<Rightarrow> string list \<Rightarrow> rpc_request list" where
  "taken_up parse_json ls = List.map_filter (decoded_line parse_json) (takeWhile (\<lambda>l. length l < line_limit) ls)"

text \<open>C29. Over standard input every request is answered, in order: the identifiers of the responses are
  those of the requests that decode, up to the first line that does not fit the buffer, but for requests
  \<open>initialized\<close>. The same is done for a notification, which has no identifier, such as
  \<open>notifications/initialized\<close> of the protocol: its response has none either.\<close>

theorem stdio_answers_in_order:
  "map rr_ID (snd (stdio_run pe why parse_json mm ls m))
     = map rq_ID (filter (\<lambda>q. rq_Method q \<noteq> ''initialized'') (taken_up parse_json ls))"
proof (induction ls arbitrary: m)
  case (Cons l ls)
  show ?case
  proof (cases "line_limit \<le> length l \<or> decoded_line parse_json l = None")
    case True
    then show ?thesis using Cons.IH by (auto simp: taken_up_def List.map_filter_simps)
  next
    case False
    then obtain q where q: "decoded_line parse_json l = Some q" "length l < line_limit" by auto
    obtain m' r where h: "handle_request pe why mm q m = (m', r)" by fastforce
    have t: "taken_up parse_json (l # ls) = q # taken_up parse_json ls"
      using q by (simp add: taken_up_def List.map_filter_simps)
    show ?thesis
    proof (cases r)
      case None
      then have "rq_Method q = ''initialized''"
        using handle_request_silent [of pe why mm q m] by (simp add: h)
      then show ?thesis using Cons.IH [of m'] q None by (simp add: t h split: prod.split)
    next
      case (Some x)
      then have "rq_Method q \<noteq> ''initialized''" "rr_ID x = rq_ID q"
        using handle_request_silent [of pe why mm q m] handle_request_id [of pe why mm q m x] by (simp_all add: h)
      then show ?thesis using Cons.IH [of m'] q Some by (auto simp: t h split: prod.split)
    qed
  qed
qed (simp add: taken_up_def List.map_filter_simps)

section \<open>Properties of the tools\<close>

text \<open>The argument of a name in a schema.\<close>

definition missing_arg :: "tool_args \<Rightarrow> string \<Rightarrow> bool" where
  "missing_arg a x \<longleftrightarrow> x = ''build_id'' \<and> ta_BuildID a = [] \<or> x = ''task_id'' \<and> ta_TaskID a = []"

definition changing_tools :: "string set" where
  "changing_tools = {''submit_build'', ''cancel_build'', ''retry_build''}"

lemmas one_tool = tool_get_build_def tool_get_task_logs_def tool_diagnose_build_def tool_cancel_build_def
  tool_retry_build_def tool_suggest_fix_def tool_watch_build_def with_build_def

lemma call_tool_simps:
  "call_tool pe mm ''list_builds'' a m = reading m (tool_list_builds mm a)"
  "call_tool pe mm ''get_build'' a m = reading m (tool_get_build mm a)"
  "call_tool pe mm ''get_task_logs'' a m = reading m (tool_get_task_logs mm a)"
  "call_tool pe mm ''diagnose_build'' a m = reading m (tool_diagnose_build mm a)"
  "call_tool pe mm ''submit_build'' a m = tool_submit_build pe mm a m"
  "call_tool pe mm ''cancel_build'' a m = tool_cancel_build mm a m"
  "call_tool pe mm ''retry_build'' a m = tool_retry_build mm a m"
  "call_tool pe mm ''get_failed_builds'' a m = reading m (tool_get_failed_builds mm a)"
  "call_tool pe mm ''suggest_fix'' a m = reading m (tool_suggest_fix mm a)"
  "call_tool pe mm ''watch_build'' a m = reading m (tool_watch_build mm a)"
  by (simp_all add: call_tool_def)

lemma refused_without_build:
  assumes "ta_BuildID a = []"
  shows "tr_IsError (tool_get_build mm a m)" "tr_IsError (tool_get_task_logs mm a m)"
    "tr_IsError (tool_diagnose_build mm a m)" "tr_IsError (tool_suggest_fix mm a m)"
    "tr_IsError (tool_watch_build mm a m)"
    "fst (tool_cancel_build mm a m) = m" "tr_IsError (snd (tool_cancel_build mm a m))"
    "fst (tool_retry_build mm a m) = m" "tr_IsError (snd (tool_retry_build mm a m))"
  using assms by (simp_all add: one_tool error_result_def)

lemma refused_without_task:
  assumes "ta_TaskID a = []"
  shows "tr_IsError (tool_get_task_logs mm a m)" "tr_IsError (tool_suggest_fix mm a m)"
  using assms by (simp_all add: one_tool error_result_def)

lemma known_tool:
  "tool_get_build mm a m \<noteq> error_result (''unknown tool: '' @ x)"
  "tool_get_task_logs mm a m \<noteq> error_result (''unknown tool: '' @ x)"
  "tool_diagnose_build mm a m \<noteq> error_result (''unknown tool: '' @ x)"
  "tool_suggest_fix mm a m \<noteq> error_result (''unknown tool: '' @ x)"
  "tool_watch_build mm a m \<noteq> error_result (''unknown tool: '' @ x)"
  "tool_list_builds mm a m \<noteq> error_result (''unknown tool: '' @ x)"
  "tool_get_failed_builds mm a m \<noteq> error_result (''unknown tool: '' @ x)"
  "snd (tool_cancel_build mm a m) \<noteq> error_result (''unknown tool: '' @ x)"
  "snd (tool_retry_build mm a m) \<noteq> error_result (''unknown tool: '' @ x)"
  by (auto simp: one_tool error_result_def text_result_def tool_list_builds_def tool_get_failed_builds_def Let_def
      split: sum.splits option.splits prod.splits)

lemma known_submit: "snd (tool_submit_build pe mm a m) \<noteq> error_result (''unknown tool: '' @ x)"
proof -
  have "err \<noteq> ''unknown tool: '' @ x"
    if "normalize_repo_reference pe (ta_RepoURL a) (ta_RepoPath a) = Inl err" for err
    using that by (auto simp: normalize_repo_reference_def local_path_to_file_uri_def split: sum.splits if_splits)
  then show ?thesis
    by (auto simp: tool_submit_build_def error_result_def text_result_def split: sum.splits prod.splits)
qed

lemma missing_arg_simps:
  "missing_arg a ''build_id'' \<longleftrightarrow> ta_BuildID a = []" "missing_arg a ''task_id'' \<longleftrightarrow> ta_TaskID a = []"
  by (simp_all add: missing_arg_def)

lemma required_argument_enforced:
  assumes "(x, req) \<in> set advertised_tools" "r \<in> set req" "missing_arg a r"
  shows "fst (call_tool pe mm x a m) = m \<and> tr_IsError (snd (call_tool pe mm x a m))"
  using assms unfolding advertised_tools_def
  by (auto simp only: set_simps insert_iff empty_iff prod.inject call_tool_simps reading_def fst_conv snd_conv
      missing_arg_simps simp_thms refused_without_build refused_without_task)

lemma advertised_names:
  "fst ` set advertised_tools = {''list_builds'', ''get_build'', ''get_task_logs'', ''diagnose_build'',
     ''submit_build'', ''cancel_build'', ''retry_build'', ''get_failed_builds'', ''suggest_fix'', ''watch_build''}"
  by (simp add: advertised_tools_def)

lemma advertised_served:
  assumes "x \<in> fst ` set advertised_tools"
  shows "snd (call_tool pe mm x a m) \<noteq> error_result (''unknown tool: '' @ x)"
  using assms unfolding advertised_names
  by (elim insertE emptyE; hypsubst; simp only: call_tool_simps reading_def snd_conv known_tool known_submit not_False_eq_True)

lemma others_unknown:
  "x \<notin> fst ` set advertised_tools \<Longrightarrow> call_tool pe mm x a m = (m, error_result (''unknown tool: '' @ x))"
  unfolding advertised_names call_tool_def by (simp only: insert_iff de_Morgan_disj if_False simp_thms)

lemma reading_tools_keep: "x \<notin> changing_tools \<Longrightarrow> fst (call_tool pe mm x a m) = m"
  by (simp add: changing_tools_def call_tool_def reading_def)

text \<open>C27. The table that \<open>tools/list\<close> advertises is the one that \<open>tools/call\<close> serves: a name is answered
  with \<open>unknown tool\<close>, as an error and without any call, exactly when it is not in the table; a tool
  whose schema requires an argument refuses a call without it, as an error and without any call; and
  only the three tools that say so change the state of the master.\<close>

theorem tools_served_as_advertised:
  "(x \<in> fst ` set advertised_tools
      \<longleftrightarrow> call_tool pe mm x a m \<noteq> (m, error_result (''unknown tool: '' @ x)))
   \<and> (\<forall>req. (x, req) \<in> set advertised_tools \<and> list_ex (missing_arg a) req \<longrightarrow>
        fst (call_tool pe mm x a m) = m \<and> tr_IsError (snd (call_tool pe mm x a m)))
   \<and> (x \<in> changing_tools \<or> fst (call_tool pe mm x a m) = m)"
proof (intro conjI allI impI)
  show "x \<in> fst ` set advertised_tools
      \<longleftrightarrow> call_tool pe mm x a m \<noteq> (m, error_result (''unknown tool: '' @ x))"
    using advertised_served [of x pe mm a m] others_unknown [of x pe mm a m] by (metis snd_conv)
next
  fix req assume "(x, req) \<in> set advertised_tools \<and> list_ex (missing_arg a) req"
  then obtain r where "(x, req) \<in> set advertised_tools" "r \<in> set req" "missing_arg a r"
    unfolding list_ex_iff by blast
  then show "fst (call_tool pe mm x a m) = m" "tr_IsError (snd (call_tool pe mm x a m))"
    using required_argument_enforced [of x req r a pe mm m] by (simp_all only: simp_thms)
next
  show "x \<in> changing_tools \<or> fst (call_tool pe mm x a m) = m" using reading_tools_keep [of x pe mm a m] by blast
qed

definition silent_master :: "unit mcp_master" where
  "silent_master = \<lparr> mm_list = \<lambda>_ _. Inl ''down'', mm_get = \<lambda>_ _. Inl ''down'', mm_logs = \<lambda>_ _ _ _. Inl ''down'',
     mm_submit = \<lambda>_ _ m. (m, Inl ''down''), mm_cancel = \<lambda>_ _ m. (m, Some ''down''),
     mm_retry = \<lambda>_ _ m. (m, Inl ''down'') \<rparr>"

definition plain_paths :: path_env where
  "plain_paths = \<lparr> pv_isdir = \<lambda>_. False, pv_abs = Inr, pv_url_path = id \<rparr>"

theorem tools_served_as_advertised_witness:
  "tr_IsError (snd (call_tool plain_paths silent_master ''suggest_fix'' (decode_args
     (Some (JObj [(''build_id'', JStr ''b'')]))) ()))"
proof -
  have "(''suggest_fix'', [''build_id'', ''task_id'']) \<in> set advertised_tools"
    "list_ex (missing_arg (decode_args (Some (JObj [(''build_id'', JStr ''b'')])))) [''build_id'', ''task_id'']"
    by code_simp+
  then show ?thesis
    using tools_served_as_advertised [of "''suggest_fix''" plain_paths silent_master
      "decode_args (Some (JObj [(''build_id'', JStr ''b'')]))" "()"] by blast
qed

section \<open>Builds through the tools\<close>

text \<open>What the tools rely on: a submitted build can be read by its identifier, and after a cancelled one
  all of its tasks are done, none of them failed unless one had.\<close>

locale mcp_service =
  fixes mm :: "'m mcp_master"
    and failed_in :: "string \<Rightarrow> 'm \<Rightarrow> bool"
  assumes submitted: "mm_submit mm src y m = (m', Inr x) \<Longrightarrow> \<exists>b. mm_get mm x m' = Inr b \<and> pb_BuildId b = x"
    and cancelled: "mm_cancel mm x reason m = (m', None) \<Longrightarrow> \<exists>b. mm_get mm x m' = Inr b
      \<and> list_all task_done (pb_Tasks b) \<and> (\<not> failed_in x m \<longrightarrow> \<not> list_ex task_failed (pb_Tasks b))"
begin

lemma submitted_shown:
  assumes "tool_submit_build pe mm a m = (m', r)" "\<not> tr_IsError r"
  shows "\<exists>x b. r = text_result (submitted_text x) \<and> pb_BuildId b = x
    \<and> (\<forall>a'. ta_BuildID a' = x \<and> x \<noteq> [] \<longrightarrow>
      tool_get_build mm a' m' = text_result (build_text b) \<and> tool_watch_build mm a' m' = text_result (watch_text b))"
proof -
  from assms obtain src x where "mm_submit mm src ''mcp-agent'' m = (m', Inr x)" and r: "r = text_result (submitted_text x)"
    by (auto simp: tool_submit_build_def error_result_def split: sum.splits prod.splits)
  from submitted [OF this(1)] obtain b where "mm_get mm x m' = Inr b" "pb_BuildId b = x" by blast
  then show ?thesis using r
    by (intro exI [of _ x] exI [of _ b]) (simp add: tool_get_build_def tool_watch_build_def with_build_def)
qed

lemma cancelled_shown:
  assumes "tool_cancel_build mm a m = (m', r)" "\<not> tr_IsError r"
  shows "\<exists>b. tool_watch_build mm a m' = text_result (watch_text b)
    \<and> tool_diagnose_build mm a m' = text_result (diagnosis_text (task_log_lines mm (ta_BuildID a) m') b)
    \<and> list_all task_done (pb_Tasks b)
    \<and> (\<not> failed_in (ta_BuildID a) m \<longrightarrow> \<not> list_ex task_failed (pb_Tasks b))"
proof -
  from assms have x: "ta_BuildID a \<noteq> []" and "mm_cancel mm (ta_BuildID a) ''cancelled via MCP agent'' m = (m', None)"
    by (auto simp: tool_cancel_build_def error_result_def split: option.splits prod.splits if_splits)
  from cancelled [OF this(2)] x show ?thesis
    by (auto simp: tool_watch_build_def tool_diagnose_build_def with_build_def)
qed

end

text \<open>A build of the master some task of which has failed or timed out.\<close>

definition host_failed :: "string \<Rightarrow> mcp_host \<Rightarrow> bool" where
  "host_failed x m =
     (case get_build x (mh_sched m) of
        None \<Rightarrow> False
      | Some b \<Rightarrow> list_ex (\<lambda>(_, t). t_State t = TaskFailed \<or> t_State t = TaskTimedOut) (g_tasks (b_Graph b)))"

lemma task_done_proto: "task_done (task_to_proto t g) \<longleftrightarrow> is_terminal (t_State t)"
  by (cases "t_State t") (auto simp: task_done_def task_to_proto_def)

lemma task_failed_proto: "task_failed (task_to_proto t g) \<longleftrightarrow> t_State t = TaskFailed \<or> t_State t = TaskTimedOut"
  by (cases "t_State t") (auto simp: task_failed_def task_to_proto_def)

lemma tasks_of_cancelled:
  assumes "t \<in> set (tasks_of ks (cancel g))"
  obtains x u where "(x, u) \<in> set (g_tasks g)" "t = cancel_task u"
proof -
  from assms obtain x where "gget (g_tasks (cancel g)) x = Some t"
    by (auto simp: tasks_of_def set_map_filter)
  then obtain u where "gget (g_tasks g) x = Some u" "t = cancel_task u" by (auto simp: gget_cancel)
  then show ?thesis using that by (auto simp: gget_def dest: map_of_SomeD)
qed

lemma cancelled_graph_done:
  "list_all task_done (pb_Tasks (build_to_proto ks (b\<lparr> b_Graph := cancel g, b_FinishedAt := now \<rparr>)))"
  by (auto simp: list_all_iff build_to_proto_def task_done_proto cancel_task_def
      elim!: tasks_of_cancelled)

lemma cancelled_graph_failed:
  assumes "list_ex task_failed (pb_Tasks (build_to_proto ks (b\<lparr> b_Graph := cancel g, b_FinishedAt := now \<rparr>)))"
  shows "list_ex (\<lambda>(_, t). t_State t = TaskFailed \<or> t_State t = TaskTimedOut) (g_tasks g)"
  using assms by (auto simp: list_ex_iff build_to_proto_def task_failed_proto cancel_task_def
      elim!: tasks_of_cancelled split: if_splits)

lemma rpc_result_Inr: "rpc_result_text r = Inr x \<longleftrightarrow> r = Inr x"
  by (cases r) (simp_all add: rpc_result_text_def)

lemma host_cancel_effect:
  assumes "host_cancel w x reason m = (m', None)"
  obtains b where "get_build x (mh_sched m) = Some b"
    "get_build x (mh_sched m')
       = Some (b\<lparr> b_Graph := cancel (b_Graph b), b_FinishedAt := ie_now (mw_intake w) \<rparr>)"
proof -
  obtain s' calls r where g: "grpc_cancel_build (mw_router w) (mw_keys w) (ie_now (mw_intake w)) (Some x) (mh_sched m)
      = (s', calls, r)" by (metis prod_cases3)
  with assms have m': "m' = m\<lparr> mh_sched := s', mh_calls := mh_calls m @ calls \<rparr>" and r: "r = Inr ()"
    by (auto simp: host_cancel_def split: sum.splits)
  from g r obtain s1 where c: "cancel_build (mw_keys w (build_graph (mh_sched m) x)) (ie_now (mw_intake w)) x (mh_sched m) = Inr s1"
    and s': "s_builds s' = s_builds s1"
    by (auto simp: grpc_cancel_build_def split: sum.splits)
  from c obtain b where b: "gget (s_builds (mh_sched m)) x = Some b"
    by (auto simp: cancel_build_def split: option.splits)
  have "gget (s_builds s1) x = Some (b\<lparr> b_Graph := cancel (b_Graph b), b_FinishedAt := ie_now (mw_intake w) \<rparr>)"
    using c b by (auto simp: cancel_build_def Let_def put_build_def)
  then show ?thesis using that b by (simp add: get_build_def m' s')
qed

interpretation host: mcp_service "master_calls w" host_failed for w
proof
  fix src y m m' x
  assume "mm_submit (master_calls w) src y m = (m', Inr x)"
  then obtain s' where g: "grpc_submit_build (mw_intake w) (mw_host w) \<lparr> sq_Source = Some src, sq_TriggeredBy = y \<rparr> (mh_sched m)
      = (s', Inr x)" and m': "m' = m\<lparr> mh_sched := s' \<rparr>"
    by (auto simp: master_calls_def host_submit_def rpc_result_Inr split: prod.splits)
  from g show "\<exists>b. mm_get (master_calls w) x m' = Inr b \<and> pb_BuildId b = x"
  proof (cases rule: grpc_submit_cases)
    case (accepted src g0 s1)
    then show ?thesis
      by (auto simp: master_calls_def host_get_def m' grpc_get_build_def get_build_def rpc_result_text_def
          submit_build_adds(2) [OF accepted(4)] grpc_build_def build_to_proto_def)
  qed simp
next
  fix x reason m m'
  assume "mm_cancel (master_calls w) x reason m = (m', None)"
  then have "host_cancel w x reason m = (m', None)" by (simp add: master_calls_def)
  then obtain b where b: "get_build x (mh_sched m) = Some b"
    "get_build x (mh_sched m') = Some (b\<lparr> b_Graph := cancel (b_Graph b), b_FinishedAt := ie_now (mw_intake w) \<rparr>)"
    by (rule host_cancel_effect)
  let ?b = "b\<lparr> b_Graph := cancel (b_Graph b), b_FinishedAt := ie_now (mw_intake w) \<rparr>"
  let ?p = "build_to_proto (mw_keys w (cancel (b_Graph b))) ?b"
  have "mm_get (master_calls w) x m' = Inr ?p"
    by (simp add: master_calls_def host_get_def grpc_get_build_def b rpc_result_text_def)
  then show "\<exists>b. mm_get (master_calls w) x m' = Inr b \<and> list_all task_done (pb_Tasks b)
      \<and> (\<not> host_failed x m \<longrightarrow> \<not> list_ex task_failed (pb_Tasks b))"
    using cancelled_graph_done cancelled_graph_failed [of "mw_keys w (cancel (b_Graph b))" "ie_now (mw_intake w)" "b_Graph b" b]
    by (intro exI [of _ ?p]) (auto simp: host_failed_def b)
qed

lemma all_done_progress:
  assumes "list_all task_done (pb_Tasks b)"
  shows "watch_progress b = (if pb_Tasks b = [] then 0 else 100)"
  using assms count_tasks_all [of task_done b] by (simp add: watch_progress_def)

lemma unfailed_diagnosis:
  assumes "list_all task_done (pb_Tasks b)" "\<not> list_ex task_failed (pb_Tasks b)"
  shows "diagnosis_text logs b = diagnosis_head b @ no_failures_text"
proof -
  have "filter task_failed (pb_Tasks b) = []" "filter task_running (pb_Tasks b) = []"
    using assms by (auto simp: filter_empty_conv list_all_iff list_ex_iff task_done_def task_running_def)
  then show ?thesis by (simp add: diagnosis_text_def Let_def)
qed

text \<open>A build submitted through the tools can be followed through them: when \<open>submit_build\<close> reports
  success, its text names a build which \<open>get_build\<close> and \<open>watch_build\<close> then show.\<close>

theorem submitted_build_shown:
  assumes "call_tool pe (master_calls w) ''submit_build'' a m = (m', r)" "\<not> tr_IsError r"
  shows "\<exists>x b. r = text_result (submitted_text x) \<and> pb_BuildId b = x
    \<and> (\<forall>a'. ta_BuildID a' = x \<and> x \<noteq> [] \<longrightarrow>
          call_tool pe (master_calls w) ''get_build'' a' m' = (m', text_result (build_text b))
        \<and> call_tool pe (master_calls w) ''watch_build'' a' m' = (m', text_result (watch_text b)))"
  using host.submitted_shown [of pe w a m m' r] assms by (simp add: call_tool_simps reading_def)

text \<open>C28. After a successful \<open>cancel_build\<close> the build is over: \<open>watch_build\<close> shows it at 100 percent when it
  has tasks.  But when none of its tasks had failed before, \<open>diagnose_build\<close> then reports that no
  failures were detected and that all tasks passed, although they were cancelled.\<close>

theorem cancelled_build_diagnosed_as_passed:
  assumes "call_tool pe (master_calls w) ''cancel_build'' a m = (m', r)" "\<not> tr_IsError r"
  shows "\<exists>b. call_tool pe (master_calls w) ''watch_build'' a m' = (m', text_result (watch_text b))
    \<and> watch_progress b = (if pb_Tasks b = [] then 0 else 100)
    \<and> (host_failed (ta_BuildID a) m \<or>
        call_tool pe (master_calls w) ''diagnose_build'' a m'
          = (m', text_result (diagnosis_head b @ no_failures_text)))"
  using host.cancelled_shown [of w a m m' r] assms
  by (auto simp: call_tool_simps reading_def all_done_progress unfailed_diagnosis)

definition small_mcp_world :: mcp_world where
  "small_mcp_world = \<lparr> mw_intake = small_intake, mw_host = small_host_env, mw_router = new_router [],
     mw_keys = keys_of, mw_builds = (\<lambda>s. gkeys (s_builds s)), mw_down = [] \<rparr>"

definition small_mcp_host :: mcp_host where
  "small_mcp_host = \<lparr> mh_sched = new_scheduler (new_registry 30), mh_logs = new_log_store, mh_calls = [] \<rparr>"

definition text_args :: "(string \<times> string) list \<Rightarrow> tool_args" where
  "text_args kvs = decode_args (Some (JObj (map (\<lambda>(k, v). (k, JStr v)) kvs)))"

definition small_mcp_submit :: "mcp_host \<times> tool_result" where
  "small_mcp_submit = call_tool plain_paths (master_calls small_mcp_world) ''submit_build''
     (text_args [(''repo_url'', ''u'')]) small_mcp_host"

definition small_mcp_cancel :: "mcp_host \<times> tool_result" where
  "small_mcp_cancel = call_tool plain_paths (master_calls small_mcp_world) ''cancel_build''
     (text_args [(''build_id'', ''b7'')]) (fst small_mcp_submit)"

theorem submitted_build_shown_witness:
  "\<exists>x b. snd small_mcp_submit = text_result (submitted_text x) \<and> pb_BuildId b = x
    \<and> (\<forall>a'. ta_BuildID a' = x \<and> x \<noteq> [] \<longrightarrow>
        call_tool plain_paths (master_calls small_mcp_world) ''get_build'' a' (fst small_mcp_submit)
          = (fst small_mcp_submit, text_result (build_text b)))"
proof -
  have "\<not> tr_IsError (snd small_mcp_submit)" by code_simp
  then show ?thesis
    using submitted_build_shown [of plain_paths small_mcp_world "text_args [(''repo_url'', ''u'')]" small_mcp_host
        "fst small_mcp_submit" "snd small_mcp_submit"]
    by (auto simp: small_mcp_submit_def)
qed

theorem cancelled_build_diagnosed_as_passed_witness:
  "\<exists>b. call_tool plain_paths (master_calls small_mcp_world) ''diagnose_build''
      (text_args [(''build_id'', ''b7'')]) (fst small_mcp_cancel)
    = (fst small_mcp_cancel, text_result (diagnosis_head b @ no_failures_text))"
proof -
  have "\<not> tr_IsError (snd small_mcp_cancel)" by code_simp
  moreover have "\<not> host_failed ''b7'' (fst small_mcp_submit)" by code_simp
  moreover have "ta_BuildID (text_args [(''build_id'', ''b7'')]) = ''b7''" by code_simp
  ultimately show ?thesis
    using cancelled_build_diagnosed_as_passed [of plain_paths small_mcp_world "text_args [(''build_id'', ''b7'')]"
        "fst small_mcp_submit" "fst small_mcp_cancel" "snd small_mcp_cancel"]
    by (auto simp: small_mcp_cancel_def)
qed

section \<open>Progress and the graph\<close>

lemma watch_agrees_with_graph:
  assumes w: "wf_graph (b_Graph b)" and t: "topological (b_Graph b) (g_order (b_Graph b))"
    and n: "g_tasks (b_Graph b) \<noteq> []"
  shows "watch_progress (build_to_proto ks b) \<le> 100
    \<and> (watch_progress (build_to_proto ks b) = 100 \<longleftrightarrow> is_complete (b_Graph b))
    \<and> (pb_State (build_to_proto ks b) \<in> {BUILD_STATE_RUNNING, BUILD_STATE_QUEUED} \<longleftrightarrow> \<not> is_complete (b_Graph b))"
proof -
  let ?p = "build_to_proto ks b" and ?g = "b_Graph b"
  have tasks: "pb_Tasks ?p = map (\<lambda>t. task_to_proto t ?g) (tasks_of ks ?g)" by (simp add: build_to_proto_def)
  have all: "set (tasks_of ks ?g) = snd ` set (g_tasks ?g)"
  proof (intro equalityI subsetI)
    fix u assume "u \<in> set (tasks_of ks ?g)"
    then have "(t_ID u, u) \<in> set (g_tasks ?g)"
      using gget_Some_iff [OF wf_tasks [OF w]] by (simp add: set_tasks_of [OF w t])
    then show "u \<in> snd ` set (g_tasks ?g)" by force
  next
    fix u assume "u \<in> snd ` set (g_tasks ?g)"
    then obtain x where "gget (g_tasks ?g) x = Some u" using gget_Some_iff [OF wf_tasks [OF w]] by auto
    then show "u \<in> set (tasks_of ks ?g)" using wf_task_ID [OF w, of x u] by (simp add: set_tasks_of [OF w t])
  qed
  then have ne: "0 < length (pb_Tasks ?p)" using n by (auto simp: tasks)
  have c: "list_all task_done (pb_Tasks ?p) \<longleftrightarrow> is_complete ?g"
    by (auto simp: tasks list_all_iff task_done_proto all is_complete_def)
  have le: "count_tasks task_done ?p * 100 div length (pb_Tasks ?p) \<le> 100"
    using mult_le_mono1 [OF count_tasks_le [of task_done ?p], of 100] ne
    by (metis div_le_mono nonzero_mult_div_cancel_left not_gr_zero)
  have "watch_progress ?p = 100 \<longleftrightarrow> is_complete ?g"
    using div_full [OF count_tasks_le [of task_done ?p] ne] count_tasks_all [of task_done ?p] ne c
    by (simp add: watch_progress_def)
  moreover have "pb_State ?p \<in> {BUILD_STATE_RUNNING, BUILD_STATE_QUEUED} \<longleftrightarrow> \<not> is_complete ?g"
    by (simp add: build_to_proto_def build_state_to_proto_def)
  ultimately show ?thesis using le ne by (simp add: watch_progress_def)
qed

section \<open>Tools that do not do what they say\<close>

text \<open>\<open>retry_build\<close> cannot work: the master does not implement the call.\<close>

lemma retry_always_fails:
  "fst (call_tool pe (master_calls w) ''retry_build'' a m) = m
     \<and> tr_IsError (snd (call_tool pe (master_calls w) ''retry_build'' a m))"
  by (simp add: call_tool_simps tool_retry_build_def master_calls_def host_retry_def error_result_def)

text \<open>A negative limit hides every failed build.\<close>

lemma negative_limit_looks_healthy:
  assumes "ta_Limit a < 0" "mm_list mm 100 m = Inr bs"
  shows "call_tool pe mm ''get_failed_builds'' a m
    = (m, text_result (''No failed builds found. All builds are healthy! '' @ party))"
  using assms by (simp add: call_tool_simps reading_def tool_get_failed_builds_def failed_builds_def Let_def)

text \<open>Two of the classes that \<open>suggest_fix\<close> reports are followed by the text for a failure it could not
  classify; each of the others but \<open>unknown\<close> has advice of its own.\<close>

lemma advice_for:
  "advice k = unclassified_text \<longleftrightarrow> k \<notin> fst ` set advice_table"
proof
  show "k \<notin> fst ` set advice_table \<Longrightarrow> advice k = unclassified_text"
    by (simp add: advice_def map_of_eq_None_iff [THEN iffD2])
  have "t \<noteq> unclassified_text" if "(k', t) \<in> set advice_table" for k' t
    using that by (auto simp: advice_table_def likely_def unclassified_text_def)
  then show "advice k = unclassified_text \<Longrightarrow> k \<notin> fst ` set advice_table"
    by (auto simp: advice_def split: option.splits dest: map_of_SomeD) (metis map_of_eq_None_iff option.distinct(1) image_eqI fst_conv)
qed

lemma classified_without_advice:
  "advice ''permission'' = unclassified_text" "advice ''disk_space'' = unclassified_text"
  by (simp_all add: advice_for advice_table_def)

end
