(* ===== verification/Master_Properties.thy ===== *)
theory Master_Properties
  imports Master Mcp_Properties
begin

text \<open>
  What holds of every build in every reachable state of the master, beyond \<open>Master\<close>: the graphs are
  well-formed, validated and acyclic, and what the tools of the MCP server show of a build is true.
\<close>

lemma graph_run_order: "graph_run g0 es g \<Longrightarrow> g_order g = g_order g0"
proof (induction rule: graph_run.induct)
  case (run_step es g e g')
  from run_step.hyps(2) have "g_order g' = g_order g"
  proof (cases rule: graph_step.cases)
    case (step_mark ks ks' newly)
    then show ?thesis by (auto simp: mark_ready_def Let_def)
  next
    case (step_move s now x)
    then show ?thesis by (auto simp: transition_task_def split: option.splits sum.splits)
  next
    case (step_finish ord ks x s now code msg newly)
    then show ?thesis using statics_complete by blast
  next
    case step_cancel
    then show ?thesis by (simp add: cancel_def)
  qed
  then show ?case using run_step.IH by simp
qed simp

lemma graph_run_topological:
  assumes "graph_run g0 es g" "topological g0 (g_order g0)"
  shows "topological g (g_order g)"
proof -
  have f: "statics (g_tasks g) = statics (g_tasks g0)" "g_deps g = g_deps g0"
    using graph_run_frame [OF assms(1)] by auto
  then have "gkeys (g_tasks g) = gkeys (g_tasks g0)" by (intro statics_gkeys)
  then show ?thesis using assms(2) graph_run_order [OF assms(1)] by (simp add: topological_def f(2))
qed

lemma master_build_traced:
  assumes "master_reach w m" "gget (s_builds (m_sched m)) x = Some b"
    and "\<And>env. env \<in> mw_envs w \<Longrightarrow> pipeline_orders_ok (ie_pipeline env)"
  obtains cfg vars g0 es where "b_ID b = x" "built_from g0 cfg vars" "graph_run g0 es (b_Graph b)"
proof -
  have ok: "sched_reach (m_sched m)" "all_traced w (m_sched m)"
    using master_reach_ok [OF assms(1,3)] by (simp_all add: master_ok_def)
  have "traced w b" using ok(2) assms(2) by (simp add: all_traced_def)
  then show ?thesis using that keyed_buildsD [OF sched_reach_keyed [OF ok(1)] assms(2)]
    unfolding traced_def by blast
qed

lemma master_build_graph:
  assumes "master_reach w m" "gget (s_builds (m_sched m)) x = Some b"
    and "\<And>env. env \<in> mw_envs w \<Longrightarrow> pipeline_orders_ok (ie_pipeline env)"
  shows "b_ID b = x" "wf_graph (b_Graph b)" "topological (b_Graph b) (g_order (b_Graph b))"
proof -
  obtain cfg vars g0 es where t: "b_ID b = x" "built_from g0 cfg vars" "graph_run g0 es (b_Graph b)"
    by (rule master_build_traced [OF assms])
  then show "b_ID b = x" by blast
  from t(2) have g0: "wf_graph g0" "topological g0 (g_order g0)" by (auto simp: built_from_def)
  show "wf_graph (b_Graph b)" by (rule graph_run_wf [OF t(3) g0(1)])
  show "topological (b_Graph b) (g_order (b_Graph b))" by (rule graph_run_topological [OF t(3) g0(2)])
qed

text \<open>C19. The state of the master is well formed: in every state it reaches, every build is filed under its
  own identifier, the graph of the build satisfies the representation invariant (tasks filed under their
  own names, the two edge maps mirror images of each other over existing tasks), the order stored with it
  lists every task once after the tasks it depends on, and its dependencies have no cycle.\<close>

theorem master_builds_well_formed:
  assumes "master_reach w m" "gget (s_builds (m_sched m)) x = Some b"
    and "\<And>env. env \<in> mw_envs w \<Longrightarrow> pipeline_orders_ok (ie_pipeline env)"
  shows "b_ID b = x \<and> wf_graph (b_Graph b) \<and> topological (b_Graph b) (g_order (b_Graph b))
    \<and> acyclic (dependency_rel (b_Graph b))"
  using master_build_graph [OF assms] topological_acyclic by blast

lemma small_world_orders: "env \<in> mw_envs small_world \<Longrightarrow> pipeline_orders_ok (ie_pipeline env)"
  by (simp add: small_world_def small_intake_def small_orders_ok)

lemma small_reached_build:
  obtains b where "gget (s_builds (m_sched m_ticked)) ''b7'' = Some b"
proof -
  have "gget (s_builds (m_sched m_ticked)) ''b7'' \<noteq> None" by code_simp
  then show ?thesis using that by blast
qed

theorem master_builds_well_formed_witness:
  "\<exists>b. gget (s_builds (m_sched m_ticked)) ''b7'' = Some b \<and> acyclic (dependency_rel (b_Graph b))"
proof -
  obtain b where "gget (s_builds (m_sched m_ticked)) ''b7'' = Some b" by (rule small_reached_build)
  with master_builds_well_formed [OF ticked_reached this small_world_orders] show ?thesis by blast
qed

text \<open>C26. \<open>watch_build\<close> tells the truth about every build of every state the master reaches, if the build has
  tasks: the progress it shows is a percentage, it is 100 exactly when every task of the graph is in a
  final state, and the build is called queued or running, for which the tool asks to call again, exactly
  when it is not.\<close>

theorem watch_tells_the_truth:
  assumes "master_reach w m" "gget (s_builds (m_sched m)) x = Some b"
    and "\<And>env. env \<in> mw_envs w \<Longrightarrow> pipeline_orders_ok (ie_pipeline env)"
    and "g_tasks (b_Graph b) \<noteq> []"
  shows "watch_progress (build_to_proto ks b) \<le> 100
    \<and> (watch_progress (build_to_proto ks b) = 100 \<longleftrightarrow> is_complete (b_Graph b))
    \<and> (pb_State (build_to_proto ks b) \<in> {BUILD_STATE_RUNNING, BUILD_STATE_QUEUED} \<longleftrightarrow> \<not> is_complete (b_Graph b))"
  by (rule watch_agrees_with_graph [OF master_build_graph(2,3) [OF assms(1-3)] assms(4)])

theorem watch_tells_the_truth_witness:
  "\<exists>b. gget (s_builds (m_sched m_ticked)) ''b7'' = Some b \<and> watch_progress (build_to_proto [] b) \<noteq> 100"
proof -
  obtain b where b: "gget (s_builds (m_sched m_ticked)) ''b7'' = Some b" by (rule small_reached_build)
  have "g_tasks (build_graph (m_sched m_ticked) ''b7'') \<noteq> []"
    "\<not> is_complete (build_graph (m_sched m_ticked) ''b7'')" by code_simp+
  then have "g_tasks (b_Graph b) \<noteq> []" "\<not> is_complete (b_Graph b)" using b by (simp_all add: build_graph_def)
  with watch_tells_the_truth [OF ticked_reached b small_world_orders this(1), of "[]"] b show ?thesis by blast
qed

end
