(* ===== verification/Executor_Properties.thy ===== *)
theory Executor_Properties
  imports Executor
begin

text \<open>
  Properties of the executor: its result ends the task at the master, the container command says what
  the assignment says, processor shares are rounded, its lines are what a reader of the log gets,
  and when a task leaves the container for the shell of the host.
\<close>

section \<open>Results\<close>

lemma verdict_final:
  assumes "task_verdict ctx code err = (st, c, m)"
  shows "proto_to_task_state st \<in> {TaskPassed, TaskFailed, TaskTimedOut, TaskCancelled}"
    and "st = TASK_STATE_PASSED \<longleftrightarrow> ctx = NotEnded \<and> code = 0 \<and> err = None"
  using assms by (cases ctx; auto simp: task_verdict_def split: option.splits if_splits)+

text \<open>The run whose outcome is reported, after the secrets have been fetched.\<close>

definition final_run ::
    "exec_env \<Rightarrow> (command \<Rightarrow> process) \<Rightarrow> assign_request \<Rightarrow> (string \<times> pb_log_stream) list \<times> int \<times> string option" where
  "final_run e world req = run_task e world (snd (with_secrets e req))"

lemma execute_task_result:
  assumes "execute_task e world ctx d req = (ls, res)"
  shows "px_Task res = Some (aq_TaskId req)"
    and "proto_to_task_state (px_Reported res) \<in> {TaskPassed, TaskFailed, TaskTimedOut, TaskCancelled}"
    and "px_Reported res = TASK_STATE_PASSED \<longleftrightarrow> ctx = NotEnded \<and> snd (final_run e world req) = (0, None)"
proof -
  obtain w req' where ws: "with_secrets e req = (w, req')" by (metis prod.collapse)
  obtain l code err where r: "run_task e world req' = (l, code, err)" by (metis prod_cases3)
  obtain st c m where v: "task_verdict ctx code err = (st, c, m)" by (metis prod_cases3)
  have res: "px_Task res = Some (aq_TaskId req)" "px_Reported res = st"
    using assms by (auto simp: execute_task_def Let_def ws r v)
  have f: "snd (final_run e world req) = (code, err)" by (simp add: final_run_def ws r)
  show "px_Task res = Some (aq_TaskId req)" by (rule res(1))
  show "proto_to_task_state (px_Reported res) \<in> {TaskPassed, TaskFailed, TaskTimedOut, TaskCancelled}"
    unfolding res(2) by (rule verdict_final(1) [OF v])
  show "px_Reported res = TASK_STATE_PASSED \<longleftrightarrow> ctx = NotEnded \<and> snd (final_run e world req) = (0, None)"
    unfolding res(2) f using verdict_final(2) [OF v] by simp
qed


section \<open>The container command\<close>

text \<open>How \<open>docker run\<close> reads its arguments: options with a value, the flag \<open>--rm\<close>, then the image and the
  command.\<close>

definition value_options :: "string list" where
  "value_options = [''-e'', ''--memory'', ''--cpus'', ''--entrypoint'', ''--volume'', ''--workdir'']"

fun parse_docker :: "string list \<Rightarrow> ((string \<times> string) list \<times> string \<times> string list) option" where
  "parse_docker [] = None"
| "parse_docker [x] = (if has_prefix ''-'' x then None else Some ([], x, []))"
| "parse_docker (x # y # zs) =
     (if x = ''--rm'' then parse_docker (y # zs)
      else if x \<in> set value_options then
        (case parse_docker zs of None \<Rightarrow> None | Some (os, img, cmd) \<Rightarrow> Some ((x, y) # os, img, cmd))
      else if has_prefix ''-'' x then None else Some ([], x, y # zs))"

definition flat :: "(string \<times> string) list \<Rightarrow> string list" where
  "flat ps = concat (map (\<lambda>(x, y). [x, y]) ps)"

lemma flat_simps [simp]: "flat [] = []" "flat ((x, y) # ps) = x # y # flat ps" "flat (ps @ qs) = flat ps @ flat qs"
  by (simp_all add: flat_def)

lemma parse_flat:
  assumes "fst ` set ps \<subseteq> set value_options" "parse_docker rest = Some (os, img, cmd)"
  shows "parse_docker (flat ps @ rest) = Some (ps @ os, img, cmd)"
  using assms(1)
proof (induction ps)
  case Nil
  then show ?case using assms(2) by simp
next
  case (Cons p ps)
  obtain x y where p: "p = (x, y)" by (cases p)
  have "x \<in> set value_options" using Cons.prems by (simp add: p)
  moreover from this have "x \<noteq> ''--rm''" by (auto simp: value_options_def)
  ultimately show ?case using Cons by (simp add: p)
qed

lemma options_dash: "list_all (has_prefix ''-'') (''--rm'' # value_options)"
  by (simp add: value_options_def has_prefix_iff)

lemma parse_image:
  assumes "\<not> has_prefix ''-'' x"
  shows "parse_docker (x # xs) = Some ([], x, xs)"
proof -
  have "x \<notin> set (''--rm'' # value_options)" using assms options_dash by (auto simp only: list_all_iff)
  then show ?thesis using assms by (cases xs) simp_all
qed

definition env_pairs :: "exec_env \<Rightarrow> (string, string) gomap \<Rightarrow> (string \<times> string) list" where
  "env_pairs e env =
     concat (map (\<lambda>k. case gget env k of None \<Rightarrow> [] | Some v \<Rightarrow> [(''-e'', k @ ''='' @ v)]) (ee_env_order e env))"

definition cache_volume :: "cache_mount \<Rightarrow> string" where
  "cache_volume cm = ''ci-cache-'' @ sanitise_volume_name (cm_CacheKey cm) @ '':'' @ cm_MountPath cm
     @ (if cm_ReadOnly cm then '':ro'' else [])"

definition host_volumes :: "assign_request \<Rightarrow> string list" where
  "host_volumes req = map snd (filter (\<lambda>(p, v). p \<noteq> [])
     [(env_var (aq_Env req) ''RELAY_BUNDLE_PATH'', env_var (aq_Env req) ''RELAY_BUNDLE_PATH'' @ '':/relay-bundle.git:ro''),
      (env_var (aq_Env req) ''RELAY_LOCAL_REPO_PATH'',
        env_var (aq_Env req) ''RELAY_LOCAL_REPO_PATH'' @ '':/relay-local-repo:ro'')])"

definition resource_pairs :: "assign_request \<Rightarrow> (string \<times> string) list" where
  "resource_pairs req =
     (if aq_MemoryMb req = 0 then [] else [(''--memory'', decimal (unat (aq_MemoryMb req)) @ ''m'')])
     @ (if aq_CpuMillicores req = 0 then [] else [(''--cpus'', cpus_text (aq_CpuMillicores req))])"

lemma flat_concat: "flat (concat pss) = concat (map flat pss)"
  by (induction pss) simp_all

lemma env_flags_pairs: "env_flags e env = flat (env_pairs e env)"
  unfolding env_flags_def env_pairs_def flat_concat
  by (rule arg_cong [of _ _ concat]) (auto split: option.split)

lemma cache_flags_pairs:
  "cache_flags cms = flat (map (\<lambda>cm. (''--volume'', cache_volume cm)) (filter (\<lambda>cm. cm_MountPath cm \<noteq> []) cms))"
  by (induction cms) (simp_all add: cache_flags_def cache_volume_def)

lemma resource_flags_pairs: "resource_flags req = flat (resource_pairs req)"
  by (simp add: resource_flags_def resource_pairs_def)

text \<open>All options of the command.\<close>

definition docker_options :: "exec_env \<Rightarrow> assign_request \<Rightarrow> string \<Rightarrow> (string \<times> string) list" where
  "docker_options e req buildID = env_pairs e (aq_Env req) @ resource_pairs req
     @ [(''--entrypoint'', ''sh''), (''--volume'', ''ci-workspace-'' @ buildID @ '':/workspace'')]
     @ map (Pair ''--volume'') (host_volumes req)
     @ map (\<lambda>cm. (''--volume'', cache_volume cm)) (filter (\<lambda>cm. cm_MountPath cm \<noteq> []) (aq_CacheMounts req))
     @ [(''--workdir'', ''/workspace'')]"

definition container_command :: "assign_request \<Rightarrow> string list" where
  "container_command req = (if aq_Commands req = [] then [] else [''-c'', join (aq_Commands req) '' && ''])"

lemma docker_run_args_options:
  assumes "docker_run_args e req buildID = Inr args"
  shows "args = [''run'', ''--rm''] @ flat (docker_options e req buildID)
    @ aq_ContainerImage req # container_command req"
proof -
  have h: "v = flat (if p = [] then [] else [(''--volume'', p @ t)])" if "host_mount e w t p = Inr v" for w t p v
    using that by (auto simp: host_mount_def split: if_splits option.splits)
  obtain b r where b: "host_mount e ''verify bundle'' '':/relay-bundle.git:ro'' (env_var (aq_Env req) ''RELAY_BUNDLE_PATH'') = Inr b"
    "host_mount e ''local repo'' '':/relay-local-repo:ro'' (env_var (aq_Env req) ''RELAY_LOCAL_REPO_PATH'') = Inr r"
    using assms by (auto simp: docker_run_args_def split: sum.splits)
  have br: "b @ r @ zs = flat (map (Pair ''--volume'') (host_volumes req)) @ zs" for zs
    unfolding h [OF b(1)] h [OF b(2)] by (simp add: host_volumes_def)
  show ?thesis
    using assms b br
    by (simp add: docker_run_args_def docker_options_def container_command_def env_flags_pairs cache_flags_pairs
        resource_flags_pairs)
qed

lemma parse_docker_run:
  assumes "docker_run_args e req buildID = Inr args" "\<not> has_prefix ''-'' (aq_ContainerImage req)"
  shows "\<exists>rest. args = ''run'' # rest
    \<and> parse_docker rest = Some (docker_options e req buildID, aq_ContainerImage req, container_command req)"
proof -
  have "fst ` set (docker_options e req buildID) \<subseteq> set value_options"
    by (auto simp: docker_options_def env_pairs_def resource_pairs_def value_options_def split: option.splits if_splits)
  from parse_flat [OF this parse_image [OF assms(2)], of "container_command req"]
  have p: "parse_docker (flat (docker_options e req buildID) @ aq_ContainerImage req # container_command req)
    = Some (docker_options e req buildID, aq_ContainerImage req, container_command req)" by simp
  obtain y ys where y: "flat (docker_options e req buildID) @ aq_ContainerImage req # container_command req = y # ys"
    by (cases "flat (docker_options e req buildID)") auto
  show ?thesis
    using docker_run_args_options [OF assms(1)] p unfolding y by (intro exI [of _ "''--rm'' # y # ys"]) simp
qed

lemma sanitised_chars: "CHR ''/'' \<notin> set (sanitise_volume_name k)" "CHR '':'' \<notin> set (sanitise_volume_name k)"
  by (auto simp: sanitise_volume_name_def Let_def split: if_splits)

text \<open>What is mounted into the container of a task.\<close>

definition task_volumes :: "assign_request \<Rightarrow> string \<Rightarrow> string set" where
  "task_volumes req buildID = {''ci-workspace-'' @ buildID @ '':/workspace''} \<union> set (host_volumes req)
     \<union> cache_volume ` {cm \<in> set (aq_CacheMounts req). cm_MountPath cm \<noteq> []}"

lemma option_in_env_pairs:
  "(x, v) \<in> set (env_pairs e env) \<longleftrightarrow> x = ''-e'' \<and> (\<exists>k \<in> set (ee_env_order e env). \<exists>u. gget env k = Some u \<and> v = k @ ''='' @ u)"
  unfolding env_pairs_def set_concat set_map
  by (rule iffI; clarsimp split: option.splits) (metis option.inject)+


text \<open>Processor shares are rounded to tenths of a processor, at most half a tenth up or down, so that
  a task that asks for less than 50 thousandths gets the share 0.0, which Docker takes as no limit.\<close>

theorem cpu_share_rounded:
  "\<bar>100 * int (cpu_tenths m) - int m\<bar> \<le> 50
   \<and> (0 < aq_CpuMillicores req \<and> aq_CpuMillicores req < 50 \<longrightarrow>
       (\<exists>xs. resource_flags req = xs @ [''--cpus'', ''0.0'']))"
proof -
  have m: "int m = 100 * int (m div 100) + int (m mod 100)"
    by (metis of_nat_add of_nat_mult of_nat_numeral mult_div_mod_eq)
  have "m mod 100 < 100" by simp
  then have "\<bar>100 * int (cpu_tenths m) - int m\<bar> \<le> 50"
    unfolding cpu_tenths_def Let_def using m by (cases "double_side m") (auto split: if_splits)
  moreover have "cpus_text c = ''0.0''" if "c < 50" for c :: u32
  proof -
    have "cpu_tenths (unat c) = 0" using that by (simp add: word_less_nat_alt cpu_tenths_def)
    moreover have "decimal 0 = ''0''" by code_simp
    ultimately show ?thesis by (simp add: cpus_text_def)
  qed
  ultimately show ?thesis by (auto simp: resource_flags_def)
qed

section \<open>Out of the container\<close>

text \<open>A container that has run to an exit code is never followed by a run in the shell.\<close>

lemma exited_container:
  "docker_run_args e req (aq_BuildId req) = Inr args \<Longrightarrow> world (Command ''docker'' args []) = Exited ls code \<Longrightarrow>
    run_task e world req = (ls, code, None)"
  by (simp add: run_task_def run_in_docker_def)

text \<open>C30. A bundle that the worker may not read takes its task out of the container: when looking at the
  bundle's path fails with the text of a permission error, the executor takes the failure for a
  missing Docker, says so in the log, and runs the commands in a shell of the worker's host.\<close>

theorem denied_bundle_runs_on_host:
  assumes "env_var (aq_Env req) ''RELAY_BUNDLE_PATH'' = p" "p \<noteq> []"
    and "ee_stat e p = Some err" "contains err ''permission denied''"
    and "world (Command ''sh'' [''-c'', join (aq_Commands req) '' && ''] (gput ''REPO_URL'' p (aq_Env req)))
      = Exited ls code"
  shows "run_task e world req
    = (system_line ''docker not available, falling back to shell execution'' # ls, code, None)"
proof -
  obtain m where m: "docker_run_args e req (aq_BuildId req) = Inl (m @ err)"
    using assms(1-3) by (auto simp: docker_run_args_def host_mount_def)
  have "contains (m @ err) ''permission denied''"
    using assms(4) unfolding contains_iff by (metis append_assoc)
  then show ?thesis
    using assms m by (simp add: run_task_def run_in_docker_def is_docker_not_available_def run_in_shell_def shell_env_def)
qed

section \<open>The log of a task\<close>

text \<open>\<open>pushLog\<close>: each line is a stream of one message.\<close>

definition push_message_of :: "time \<Rightarrow> string \<Rightarrow> string \<times> pb_log_stream \<Rightarrow> push_message" where
  "push_message_of now x l = PushReceived \<lparr> pq_TaskId = Some x,
     pq_Lines = [\<lparr> pu_Content = fst l, pu_Stream = snd l, pu_Timestamp = Some now \<rparr>], pq_now = now \<rparr>"

fun deliver :: "time \<Rightarrow> string \<Rightarrow> (string \<times> pb_log_stream) list \<Rightarrow> log_store \<Rightarrow> log_store" where
  "deliver now x [] s = s"
| "deliver now x (l # ls) s = deliver now x ls (fst (push_logs [push_message_of now x l] s))"

lemma deliver_push_logs: "push_logs (map (push_message_of now x) ls) s = (deliver now x ls s, True)"
  by (induction ls arbitrary: s) (simp_all add: push_message_of_def)

lemma pushed_for_delivered: "map pu_Content (pushed_for x (map (push_message_of now x) ls)) = map fst ls"
  by (induction ls) (simp_all add: push_message_of_def)

text \<open>C24. What a task printed is what a reader gets: when every push of the executor reaches the master,
  \<open>GetLogs\<close> answers with the lines the task had before, followed by the three lines of the start, the
  warning about secrets if there is one, the lines of the commands in the order they were scanned,
  and one line that names the final state the executor reports.\<close>

theorem task_output_readable:
  assumes "execute_task e world ctx d rq = (ls, res)" "aq_TaskId rq = x" "x \<noteq> []" "numbered_at s x"
    and "lq_BuildId req \<noteq> None" "lq_TaskId req = Some x" "lq_From req = 0" "lq_Limit req = 0"
  shows "\<exists>pls tail. get_logs req (deliver now x ls s) = Some (Inr (pls, int (length pls)))
    \<and> map pl_Content pls = map ln_Content (lines_of s x)
        @ map fst (take 3 ls) @ map fst (fst (with_secrets e rq)) @ map fst (fst (final_run e world rq))
        @ [''[system] task '' @ go_quoted (aq_TaskName rq) @ '' finished: '' @ pb_state_name (px_Reported res) @ tail]"
proof -
  obtain w rq' where ws: "with_secrets e rq = (w, rq')" by (metis prod.collapse)
  obtain l code err where r: "run_task e world rq' = (l, code, err)" by (metis prod_cases3)
  obtain st c m where v: "task_verdict ctx code err = (st, c, m)" by (metis prod_cases3)
  have f: "fst (final_run e world rq) = l" by (simp add: final_run_def ws r)
  obtain tail where ls: "map fst ls = map fst (take 3 ls) @ map fst w @ map fst l
      @ [''[system] task '' @ go_quoted (aq_TaskName rq) @ '' finished: '' @ pb_state_name (px_Reported res) @ tail]"
    using assms(1) by (auto simp: execute_task_def Let_def ws r v system_line_def)
  obtain pls where
    "get_logs req (deliver now x ls s) = Some (Inr (pls, int (length pls)))"
    "map pl_Content pls = map ln_Content (lines_of s x) @ map fst ls"
    using pushes_readable [OF deliver_push_logs [of now x ls s] assms(4,3,5-8)]
    unfolding pushed_for_delivered by blast
  then show ?thesis using ls ws f by auto
qed

section \<open>Examples\<close>

definition small_exec :: "(string \<Rightarrow> string option) \<Rightarrow> exec_env" where
  "small_exec st = \<lparr> ee_worker = ''w'', ee_fetch = (\<lambda>_. Inr [(''TOKEN'', ''t0'')]), ee_stat = st,
     ee_env_order = gkeys \<rparr>"

definition small_assign :: assign_request where
  "small_assign = \<lparr> aq_TaskId = ''clone'', aq_BuildId = ''b1'', aq_TaskName = ''clone'', aq_ContainerImage = ''alpine'',
     aq_Commands = [''git clone x'', ''ls''], aq_Env = [(''RELAY_BUNDLE_PATH'', ''/b''), (''CI'', ''1'')],
     aq_SecretRefs = [''TOKEN''], aq_CacheMounts = [\<lparr> cm_CacheKey = ''go/mod'', cm_MountPath = ''/go'', cm_ReadOnly = False \<rparr>],
     aq_CpuMillicores = 0, aq_MemoryMb = 0, aq_DiskMb = 0, aq_TimeoutSeconds = 0 \<rparr>"

definition small_world_of :: "command \<Rightarrow> process" where
  "small_world_of c = Exited [(''ok'', LOG_STREAM_STDOUT)] 0"

definition small_execution :: "(string \<times> pb_log_stream) list \<times> pb_result" where
  "small_execution = execute_task (small_exec (\<lambda>_. None)) small_world_of NotEnded 0 small_assign"

lemma small_execution_parts:
  "execute_task (small_exec (\<lambda>_. None)) small_world_of NotEnded 0 small_assign = (fst small_execution, snd small_execution)"
  by (simp add: small_execution_def)

definition small_final_report :: "scheduler \<times> job list \<times> (rpc_status + unit)" where
  "small_final_report = rpc_report_result children 7 8 (Some (snd small_execution)) running_build"

lemma small_final_run:
  "final_run (small_exec (\<lambda>_. None)) small_world_of small_assign = ([(''ok'', LOG_STREAM_STDOUT)], 0, None)"
  by code_simp

lemma execute_task_report:
  "snd (execute_task e world ctx d req) =
     (case task_verdict ctx (fst (snd (final_run e world req))) (snd (snd (final_run e world req))) of
        (st, c, m) \<Rightarrow> \<lparr> px_Task = Some (aq_TaskId req), px_Reported = st, px_Exit = word_of_int c, px_ErrorMessage = m \<rparr>)"
  by (simp add: execute_task_def final_run_def Let_def split: prod.split)

lemma small_execution_result: "snd small_execution = small_result TASK_STATE_PASSED"
  unfolding small_execution_def execute_task_report small_final_run
  by (simp add: task_verdict_def small_result_def small_assign_def)



theorem cpu_share_rounded_witness:
  "\<exists>xs. resource_flags (small_assign\<lparr> aq_CpuMillicores := 20 \<rparr>) = xs @ [''--cpus'', ''0.0'']"
  using cpu_share_rounded [of 0 "small_assign\<lparr> aq_CpuMillicores := 20 \<rparr>"] by simp

theorem denied_bundle_runs_on_host_witness:
  "run_task (small_exec (\<lambda>_. Some ''stat /b: permission denied'')) small_world_of small_assign
     = (system_line ''docker not available, falling back to shell execution'' # [(''ok'', LOG_STREAM_STDOUT)], 0, None)"
proof -
  have p: "env_var (aq_Env small_assign) ''RELAY_BUNDLE_PATH'' = ''/b''" by code_simp
  have c: "contains ''stat /b: permission denied'' ''permission denied''" by code_simp
  show ?thesis
    by (rule denied_bundle_runs_on_host [OF p _ _ c]) (simp_all add: small_exec_def small_world_of_def)
qed

theorem task_output_readable_witness:
  "\<exists>pls tail. get_logs (small_log_request\<lparr> lq_TaskId := Some ''clone'' \<rparr>)
       (deliver 7 ''clone'' (fst small_execution) new_log_store) = Some (Inr (pls, int (length pls)))
     \<and> drop 3 (map pl_Content pls) = [''ok'',
         ''[system] task '' @ go_quoted ''clone'' @ '' finished: TASK_STATE_PASSED'' @ tail]"
proof -
  have l: "lines_of new_log_store ''clone'' = []" by (simp add: new_log_store_def lines_of_def)
  have n: "numbered_at new_log_store ''clone''" by (simp add: l numbered_at_def)
  have id: "aq_TaskId small_assign = ''clone''" "aq_TaskName small_assign = ''clone''"
    by (simp_all add: small_assign_def)
  have w: "fst (with_secrets (small_exec (\<lambda>_. None)) small_assign) = []" by code_simp
  have len: "length (take 3 (fst small_execution)) = 3"
    by (simp add: small_execution_def execute_task_def Let_def split: prod.splits)
  have st: "px_Reported (snd small_execution) = TASK_STATE_PASSED"
    using execute_task_result(3) [OF small_execution_parts] by (simp add: small_final_run)
  obtain pls tail where "get_logs (small_log_request\<lparr> lq_TaskId := Some ''clone'' \<rparr>)
      (deliver 7 ''clone'' (fst small_execution) new_log_store) = Some (Inr (pls, int (length pls)))"
    and c: "map pl_Content pls = map fst (take 3 (fst small_execution)) @ [''ok'']
      @ [''[system] task '' @ go_quoted ''clone'' @ '' finished: '' @ pb_state_name (px_Reported (snd small_execution)) @ tail]"
    using task_output_readable [OF small_execution_parts id(1) _ n, of "small_log_request\<lparr> lq_TaskId := Some ''clone'' \<rparr>" 7]
    by (auto simp: l w id small_final_run small_log_request_def)
  moreover have "drop 3 (map pl_Content pls) = [''ok'',
      ''[system] task '' @ go_quoted ''clone'' @ '' finished: TASK_STATE_PASSED'' @ tail]"
    unfolding c st using len by simp
  ultimately show ?thesis by blast
qed

end
