(* ===== verification/Worker_Process.thy ===== *)
theory Worker_Process
  imports Executor_Properties
begin

text \<open>
  The worker process: the tasks the executor has running and how they are cancelled
  (\<open>cmd/worker/executor.go\<close>), the worker's service (\<open>grpc_server.go\<close>), and what the worker tells the
  master about itself (\<open>main.go\<close>).  The cancel function of a run is the number of the run; calling it
  puts the number into the list of cancelled runs.
\<close>

section \<open>Running tasks\<close>

record executor =
  ex_runningTasks :: "(string, nat) gomap"
  ex_runs :: nat
  ex_cancelled :: "nat list"

definition new_executor :: executor where
  "new_executor = \<lparr> ex_runningTasks = [], ex_runs = 0, ex_cancelled = [] \<rparr>"

text \<open>The beginning and the deferred end of \<open>executeTask\<close>.\<close>

definition begin_task :: "string \<Rightarrow> executor \<Rightarrow> executor \<times> nat" where
  "begin_task taskID ex =
     (ex\<lparr> ex_runningTasks := gput taskID (ex_runs ex) (ex_runningTasks ex), ex_runs := ex_runs ex + 1 \<rparr>, ex_runs ex)"

definition end_task :: "string \<Rightarrow> nat \<Rightarrow> executor \<Rightarrow> executor" where
  "end_task taskID run ex =
     ex\<lparr> ex_cancelled := run # ex_cancelled ex, ex_runningTasks := gdel taskID (ex_runningTasks ex) \<rparr>"

definition exec_cancel_task :: "string \<Rightarrow> executor \<Rightarrow> executor" where
  "exec_cancel_task taskID ex =
     (case gget (ex_runningTasks ex) taskID of
        None \<Rightarrow> ex
      | Some run \<Rightarrow> ex\<lparr> ex_cancelled := run # ex_cancelled ex \<rparr>)"

section \<open>The service\<close>

text \<open>\<open>AssignTask\<close> starts the execution when it answers \<open>True\<close>.\<close>

definition rpc_assign_task :: "string option \<Rightarrow> string option \<Rightarrow> rpc_status + bool" where
  "rpc_assign_task taskId buildId =
     (if taskId = None \<or> buildId = None
      then Inl (RpcStatus InvalidArgument ''task_id and build_id are required'')
      else Inr True)"

definition rpc_cancel_task :: "string option \<Rightarrow> executor \<Rightarrow> executor \<times> (rpc_status + unit)" where
  "rpc_cancel_task taskId ex =
     (case taskId of
        None \<Rightarrow> (ex, Inl (RpcStatus InvalidArgument ''task_id is required''))
      | Some x \<Rightarrow> (exec_cancel_task x ex, Inr ()))"

text \<open>\<open>docker volume rm\<close>: its output, and the error if it failed.\<close>

definition cleanup_build_volume :: "(command \<Rightarrow> string \<times> string option) \<Rightarrow> string \<Rightarrow> string + string" where
  "cleanup_build_volume world buildID =
     (let volName = ''ci-workspace-'' @ buildID
      in case world (Command ''docker'' [''volume'', ''rm'', ''-f'', volName] []) of
           (out, Some err) \<Rightarrow> Inl (''docker volume rm '' @ volName @ '': '' @ err @ '': '' @ trim_space out)
         | (out, None) \<Rightarrow> Inr (''removed volume '' @ volName))"

definition rpc_cleanup_build ::
    "(command \<Rightarrow> string \<times> string option) \<Rightarrow> string option \<Rightarrow> rpc_status + (bool \<times> string)" where
  "rpc_cleanup_build world buildId =
     (case buildId of
        None \<Rightarrow> Inl (RpcStatus InvalidArgument ''build_id is required'')
      | Some b \<Rightarrow>
          if b = [] then Inl (RpcStatus InvalidArgument ''build_id is required'')
          else case cleanup_build_volume world b of
            Inl err \<Rightarrow> Inr (False, err)
          | Inr msg \<Rightarrow> Inr (True, msg))"

section \<open>What the worker says about itself\<close>

definition worker_capacity :: "u32 \<Rightarrow> pb_capacity" where
  "worker_capacity numCPU = \<lparr> pc_TotalCpuMillicores = numCPU * 1000, pc_AvailableCpuMillicores = numCPU * 1000,
     pc_TotalMemoryMb = 8192, pc_AvailableMemoryMb = 8192, pc_TotalDiskMb = 50000, pc_AvailableDiskMb = 50000,
     pc_MaxTasks = numCPU, pc_RunningTasks = 0 \<rparr>"

definition worker_registration :: "u32 \<Rightarrow> string \<Rightarrow> string \<Rightarrow> string \<Rightarrow> register_request" where
  "worker_registration numCPU workerID workerAddr platform = \<lparr> rq_WorkerId = Some workerID,
     rq_Capacity = Some (worker_capacity numCPU), rq_SupportedPlatforms = [platform],
     rq_Labels = [(''addr'', workerAddr)] \<rparr>"

text \<open>One turn of the heartbeat loop sends one message on a new stream; \<open>now\<close> is when it arrives.\<close>

definition worker_heartbeat :: "time \<Rightarrow> u32 \<Rightarrow> string \<Rightarrow> heartbeat_message list" where
  "worker_heartbeat now numCPU workerID = [Received \<lparr> hr_WorkerId = Some workerID,
     hr_Capacity = Some (worker_capacity numCPU), hr_now = now \<rparr>]"

definition worker_hostname :: "string option \<Rightarrow> string" where
  "worker_hostname h = (case h of None \<Rightarrow> ''worker-unknown'' | Some n \<Rightarrow> n)"

definition worker_identity :: "(string \<Rightarrow> string) \<Rightarrow> string option \<Rightarrow> string \<times> string" where
  "worker_identity getenv h =
     ((if getenv ''WORKER_ID'' \<noteq> [] then getenv ''WORKER_ID'' else worker_hostname h),
      (if getenv ''WORKER_ADDR'' \<noteq> [] then getenv ''WORKER_ADDR'' else '':9091''))"

section \<open>Properties\<close>

definition executor_ok :: "executor \<Rightarrow> bool" where
  "executor_ok ex \<longleftrightarrow> (\<forall>n \<in> set (ex_cancelled ex). n < ex_runs ex)
     \<and> (\<forall>x n. gget (ex_runningTasks ex) x = Some n \<longrightarrow> n < ex_runs ex)"

lemma executor_ok_new: "executor_ok new_executor"
  by (simp add: executor_ok_def new_executor_def)

lemma executor_ok_begin: "executor_ok ex \<Longrightarrow> begin_task x ex = (ex', n) \<Longrightarrow> executor_ok ex'"
  by (auto simp: executor_ok_def begin_task_def less_Suc_eq split: if_splits)

lemma executor_ok_end: "executor_ok ex \<Longrightarrow> n < ex_runs ex \<Longrightarrow> executor_ok (end_task x n ex)"
  by (auto simp: executor_ok_def end_task_def)

lemma executor_ok_cancel: "executor_ok ex \<Longrightarrow> executor_ok (exec_cancel_task x ex)"
  by (auto simp: executor_ok_def exec_cancel_task_def split: option.split)

text \<open>Two builds use the same task IDs, and a worker may run the same ID twice at a time: cancelling
  the ID then only cancels the run started last, and once that run has ended the ID is unknown and
  the first run, still going, can no longer be cancelled.\<close>

theorem second_run_hides_first:
  assumes "executor_ok ex" "begin_task x ex = (ex1, n1)" "begin_task x ex1 = (ex2, n2)"
  shows "set (ex_cancelled (exec_cancel_task x ex2)) = insert n2 (set (ex_cancelled ex2))
    \<and> n1 \<notin> set (ex_cancelled (exec_cancel_task x ex2))
    \<and> exec_cancel_task x (end_task x n2 ex2) = end_task x n2 ex2
    \<and> n1 \<notin> set (ex_cancelled (end_task x n2 ex2))"
  using assms by (auto simp: executor_ok_def begin_task_def exec_cancel_task_def end_task_def)

text \<open>A worker's heartbeat gives back what its running tasks have reserved: whatever the registry had
  noted for the worker, the message the worker sends every five seconds sets its free processors,
  memory and disk to its totals and its number of running tasks to 0.\<close>

theorem worker_heartbeat_frees_all:
  assumes "get_worker x (s_registry s) = Some i"
    and "rpc_heartbeat send_ok (worker_heartbeat now n x) s = (s', e)"
  shows "\<exists>i'. get_worker x (s_registry s') = Some i' \<and> wi_AvailableCPU i' = n * 1000
    \<and> wi_AvailableMemoryMB i' = 8192 \<and> wi_AvailableDiskMB i' = 50000 \<and> wi_RunningTasks i' = 0
    \<and> wi_State i' \<noteq> WorkerDead"
  using assms
  by (auto simp: worker_heartbeat_def worker_capacity_def heartbeat_def get_worker_def set_registry_def
      put_worker_def Let_def split: if_splits sum.splits option.splits)

theorem second_run_hides_first_witness:
  "0 \<notin> set (ex_cancelled (exec_cancel_task ''clone'' (fst (begin_task ''clone'' (fst (begin_task ''clone'' new_executor))))))"
proof -
  have b: "begin_task ''clone'' new_executor = (fst (begin_task ''clone'' new_executor), 0)"
    by (simp add: begin_task_def new_executor_def)
  show ?thesis
    using second_run_hides_first [OF executor_ok_new b prod.collapse [symmetric]] by blast
qed

definition busy_worker :: scheduler where
  "busy_worker = new_scheduler (put_worker ''w'' (small_worker\<lparr> wi_AvailableCPU := 0, wi_RunningTasks := 3 \<rparr>) (new_registry 30))"

theorem worker_heartbeat_frees_all_witness:
  "\<exists>i. get_worker ''w'' (s_registry (fst (rpc_heartbeat (\<lambda>_. True) (worker_heartbeat 9 8 ''w'') busy_worker))) = Some i
     \<and> wi_AvailableCPU i = 8000 \<and> wi_RunningTasks i = 0"
proof -
  have "get_worker ''w'' (s_registry busy_worker) = Some (small_worker\<lparr> wi_AvailableCPU := 0, wi_RunningTasks := 3 \<rparr>)"
    by (simp add: busy_worker_def get_worker_def put_worker_def new_scheduler_def)
  from worker_heartbeat_frees_all [OF this prod.collapse [symmetric], of "\<lambda>_. True" 9 8] show ?thesis by auto
qed

end
