(* ===== verification/Go_Format.thy ===== *)
theory Go_Format
  imports Build_Comment
begin

text \<open>
  What the command line client uses of Go's formatting: the date and the clock of an instant in UTC
  (layouts \<open>time.RFC3339\<close> and \<open>15:04:05\<close>) and the tables of \<open>text/tabwriter\<close>.  Instants count from
  the first of January of year 1, so they split into days and a time of day.  A table is a list of
  rows with the same number of cells, none of which holds a tab, a line break or another character
  that \<open>tabwriter\<close> treats as one; a width counts characters of UTF-8.
\<close>

section \<open>Dates\<close>

definition leap_year :: "nat \<Rightarrow> bool" where
  "leap_year y \<longleftrightarrow> y mod 4 = 0 \<and> (y mod 100 \<noteq> 0 \<or> y mod 400 = 0)"

definition month_lengths :: "nat \<Rightarrow> nat list" where
  "month_lengths y = [31, if leap_year y then 29 else 28, 31, 30, 31, 30, 31, 31, 30, 31, 30, 31]"

text \<open>The year that holds a day, and the day in the year, both from the number of days since year 1.\<close>

definition year_of_days :: "nat \<Rightarrow> nat \<times> nat" where
  "year_of_days n =
     (let r1 = n mod 146097; c = min 3 (r1 div 36524);
          r2 = r1 - c * 36524; q = r2 div 1461;
          r3 = r2 mod 1461; k = min 3 (r3 div 365)
      in (400 * (n div 146097) + 100 * c + 4 * q + k + 1, r3 - k * 365))"

text \<open>The month that holds a day of the year, and the day in the month, both from 1.\<close>

fun month_of_day :: "nat list \<Rightarrow> nat \<Rightarrow> nat \<Rightarrow> nat \<times> nat" where
  "month_of_day [] m d = (m, d + 1)"
| "month_of_day (l # ls) m d = (if d < l then (m, d + 1) else month_of_day ls (m + 1) (d - l))"

definition date_of_days :: "nat \<Rightarrow> nat \<times> nat \<times> nat" where
  "date_of_days n = (case year_of_days n of (y, d) \<Rightarrow> (y, month_of_day (month_lengths y) 1 d))"

definition days_before_year :: "nat \<Rightarrow> nat" where
  "days_before_year y = 365 * (y - 1) + (y - 1) div 4 - (y - 1) div 100 + (y - 1) div 400"

definition days_of_date :: "nat \<times> nat \<times> nat \<Rightarrow> nat" where
  "days_of_date = (\<lambda>(y, m, d). days_before_year y + sum_list (take (m - 1) (month_lengths y)) + (d - 1))"

definition day_seconds :: nat where
  "day_seconds = 86400"

definition clock_of :: "nat \<Rightarrow> string" where
  "clock_of s = zero_pad 2 (decimal (s div 3600)) @ '':'' @ zero_pad 2 (decimal (s div 60 mod 60)) @ '':''
     @ zero_pad 2 (decimal (s mod 60))"

definition seconds_of :: "time \<Rightarrow> nat" where
  "seconds_of t = nat t div 1000000000"

definition clock_text :: "time \<Rightarrow> string" where
  "clock_text t = clock_of (seconds_of t mod day_seconds)"

definition rfc3339_text :: "time \<Rightarrow> string" where
  "rfc3339_text t =
     (case date_of_days (seconds_of t div day_seconds) of
        (y, m, d) \<Rightarrow> zero_pad 4 (decimal y) @ ''-'' @ zero_pad 2 (decimal m) @ ''-'' @ zero_pad 2 (decimal d)
          @ ''T'' @ clock_text t @ ''Z'')"

text \<open>The calendar is sound: a date is the date of exactly the day it is computed from.\<close>

lemma month_of_day_sum:
  "month_of_day ls m0 d = (m, k) \<Longrightarrow> m0 \<le> m \<and> 0 < k \<and> sum_list (take (m - m0) ls) + (k - 1) = d"
proof (induction ls m0 d rule: month_of_day.induct)
  case (2 l ls m0 d)
  show ?case
  proof (cases "d < l")
    case False
    with 2 have i: "Suc m0 \<le> m \<and> 0 < k \<and> sum_list (take (m - Suc m0) ls) + (k - 1) = d - l" by simp
    then have "m - m0 = Suc (m - Suc m0)" by arith
    then show ?thesis using i False by (simp, arith)
  qed (use 2 in auto)
qed simp

lemma year_of_days_start:
  assumes "year_of_days n = (y, d)"
  shows "days_before_year y + d = n" "d \<le> 365"
proof -
  define a where "a = n div 146097"
  define r1 where "r1 = n mod 146097"
  define c where "c = min 3 (r1 div 36524)"
  define r2 where "r2 = r1 - c * 36524"
  define q where "q = r2 div 1461"
  define r3 where "r3 = r2 mod 1461"
  define k where "k = min 3 (r3 div 365)"
  have n: "n = 146097 * a + r1" "r1 < 146097" by (simp_all add: a_def r1_def)
  have c: "c * 36524 \<le> r1" "r2 < 36525" "c \<le> 3" using n(2) unfolding c_def r2_def by (simp_all add: min_def) arith+
  have q: "r2 = 1461 * q + r3" "r3 < 1461" by (simp_all add: q_def r3_def)
  have k: "k * 365 \<le> r3" "r3 - k * 365 \<le> 365" "k \<le> 3" using q(2) unfolding k_def by (simp_all add: min_def) arith+
  have y: "y = 400 * a + 100 * c + 4 * q + k + 1" and d: "d = r3 - k * 365"
    using assms by (auto simp: year_of_days_def Let_def a_def r1_def c_def r2_def q_def r3_def k_def)
  have q24: "q \<le> 24" using c(2) q by arith
  have "(y - 1) div 4 = 100 * a + 25 * c + q" "(y - 1) div 100 = 4 * a + c" "(y - 1) div 400 = a"
    using c(3) k(3) q24 unfolding y by arith+
  then have "days_before_year y = 146097 * a + 36524 * c + 1461 * q + 365 * k"
    unfolding days_before_year_def using y by simp
  then show "days_before_year y + d = n" using n(1) q(1) k(1) c(1) unfolding r2_def d by simp
  show "d \<le> 365" using k(2) d by simp
qed

lemma days_of_date_of_days: "days_of_date (date_of_days n) = n"
proof -
  obtain y d where y: "year_of_days n = (y, d)" by fastforce
  obtain m k where m: "month_of_day (month_lengths y) 1 d = (m, k)" by fastforce
  show ?thesis using month_of_day_sum [OF m] year_of_days_start(1) [OF y]
    by (simp add: date_of_days_def days_of_date_def y m [simplified], arith)
qed

section \<open>Tables\<close>

definition rune_count :: "string \<Rightarrow> nat" where
  "rune_count s = length (filter (\<lambda>c. \<not> (128 \<le> (of_char c :: nat) \<and> (of_char c :: nat) < 192)) s)"

definition spaces :: "nat \<Rightarrow> string" where
  "spaces n = replicate n CHR '' ''"

text \<open>Columns are as wide as their widest cell and two characters of padding; the last one is not padded.\<close>

definition column_width :: "string list list \<Rightarrow> nat \<Rightarrow> nat" where
  "column_width rows i = Max (insert 0 ((\<lambda>r. rune_count (r ! i)) ` set rows)) + 2"

definition table_row :: "(nat \<Rightarrow> nat) \<Rightarrow> string list \<Rightarrow> string" where
  "table_row width r =
     concat (map (\<lambda>i. if i + 1 < length r then r ! i @ spaces (width i - rune_count (r ! i)) else r ! i) [0 ..< length r])
     @ nl"

definition tab_table :: "string list list \<Rightarrow> string" where
  "tab_table rows = concat (map (table_row (column_width rows)) rows)"

end
