(* ===== verification/Cli.thy ===== *)
theory Cli
  imports Mcp_Server Go_Format Verify Secrets_Service
begin

text \<open>
  The command line client, \<open>cmd/cli/main.go\<close>: its arguments, its commands and what they print.  A
  command is a function of the arguments (all of \<open>os.Args\<close>), of the calls of the master and of what it
  reads from the machine, and gives the changed master, the two output streams and the exit code.
  The calls extend those of the MCP server (\<open>mcp_master\<close>).  Time is in seconds since the start; a
  context is its deadline, or \<open>None\<close> for the background.
\<close>

section \<open>Arguments\<close>

fun flag_value :: "string \<Rightarrow> string \<Rightarrow> string list \<Rightarrow> string" where
  "flag_value x d (a # b # args) = (if a = x then b else flag_value x d (b # args))"
| "flag_value x d _ = d"

definition has_flag :: "string \<Rightarrow> string list \<Rightarrow> bool" where
  "has_flag x args = list_ex (\<lambda>a. a = x) args"

definition last_positional_arg :: "string list \<Rightarrow> string" where
  "last_positional_arg args =
     (case find (\<lambda>a. \<not> has_prefix ''-'' a) (rev (drop 2 args)) of Some a \<Rightarrow> a | None \<Rightarrow> [])"

section \<open>The world\<close>

datatype watch_event =
    TaskChanged time string pb_task_state
  | BuildChanged time pb_build_state pb_build_state
  | OtherEvent

text \<open>A stream: the messages with the seconds at which they arrive, then the second at which it ends, and
  with which error if any.\<close>

record 'e timed_stream =
  ts_Messages :: "(nat \<times> 'e) list"
  ts_End :: nat
  ts_Error :: "string option"

text \<open>The answer to a verification; the status is \<open>None\<close> when it is unspecified.\<close>

record wire_response =
  wr_BuildId :: string
  wr_Status :: "digest_status option"
  wr_Pinned :: string
  wr_Current :: string
  wr_Diff :: string
  wr_Error :: string

record 'm cli_master = "'m mcp_master" +
  cl_stream_logs :: "string \<Rightarrow> string \<Rightarrow> bool \<Rightarrow> 'm \<Rightarrow> string + string timed_stream"
  cl_watch :: "string \<Rightarrow> 'm \<Rightarrow> string + watch_event timed_stream"
  cl_put_secret :: "string \<Rightarrow> string \<Rightarrow> 'm \<Rightarrow> 'm \<times> string option"
  cl_list_secrets :: "'m \<Rightarrow> string + secret_metadata list"
  cl_delete_secret :: "string \<Rightarrow> 'm \<Rightarrow> 'm \<times> string option"
  cl_verify :: "verify_header \<Rightarrow> string list \<Rightarrow> 'm \<Rightarrow> 'm \<times> (string + wire_response)"
  cl_list_pins :: "'m \<Rightarrow> string + pb_pipeline_pin list"
  cl_unpin :: "string \<Rightarrow> 'm \<Rightarrow> 'm \<times> (string + bool)"

record cli_result =
  co_Out :: string
  co_Err :: string
  co_Exit :: nat

definition cli_done :: "string \<Rightarrow> cli_result" where
  "cli_done out = \<lparr> co_Out = out, co_Err = [], co_Exit = 0 \<rparr>"

definition cli_fail :: "nat \<Rightarrow> string \<Rightarrow> cli_result" where
  "cli_fail n err = \<lparr> co_Out = [], co_Err = err @ nl, co_Exit = n \<rparr>"

definition cli_error :: "string \<Rightarrow> cli_result" where
  "cli_error err = cli_fail 1 (''error: '' @ err)"

section \<open>Builds\<close>

definition cmd_submit :: "string list \<Rightarrow> 'm cli_master \<Rightarrow> 'm \<Rightarrow> 'm \<times> cli_result" where
  "cmd_submit args cm m =
     (if length args < 3
      then (m, cli_fail 1 ''usage: ci submit <repo-url> [--branch <branch>] [--sha <sha>]'')
      else case mm_submit cm \<lparr> gs_RepoUrl = args ! 2, gs_CommitSha = flag_value ''--sha'' ''HEAD'' args,
                  gs_Branch = flag_value ''--branch'' ''main'' args, gs_PrNumber = [] \<rparr> ''cli'' m of
        (m', Inl err) \<Rightarrow> (m', cli_error err)
      | (m', Inr x) \<Rightarrow> (m', cli_done (''Build submitted: '' @ x @ nl)))"

definition status_row :: "pb_task \<Rightarrow> string list" where
  "status_row t = [pt_Name t, pb_state_name (pt_State t),
     (case pt_Result t of None \<Rightarrow> [] | Some r \<Rightarrow> exit_text r),
     (case pt_Result t of
        None \<Rightarrow> []
      | Some r \<Rightarrow> (case span_text (px_StartedAt r) (px_FinishedAt r) of None \<Rightarrow> [] | Some d \<Rightarrow> d))]"

definition status_text :: "pb_build \<Rightarrow> string" where
  "status_text b = ''Build:   '' @ pb_BuildId b @ nl
     @ ''State:   '' @ pb_build_state_name (pb_State b) @ nl
     @ (case pb_Source b of
          None \<Rightarrow> []
        | Some s \<Rightarrow> ''Repo:    '' @ ps_RepoUrl s @ nl @ ''Branch:  '' @ ps_Branch s @ nl
            @ ''Commit:  '' @ ps_CommitSha s @ nl)
     @ ''Trigger: '' @ pb_TriggeredBy b @ nl @ nl
     @ tab_table ([''TASK'', ''STATE'', ''EXIT'', ''DURATION''] # map status_row (pb_Tasks b))"

definition cmd_status :: "string list \<Rightarrow> 'm cli_master \<Rightarrow> 'm \<Rightarrow> cli_result" where
  "cmd_status args cm m =
     (if length args < 3 then cli_fail 1 ''usage: ci status <build-id>''
      else case mm_get cm (args ! 2) m of
        Inl err \<Rightarrow> cli_error err
      | Inr b \<Rightarrow> cli_done (status_text b))"

definition list_row :: "pb_build \<Rightarrow> string list" where
  "list_row b = [pb_BuildId b, pb_build_state_name (pb_State b), source_url b, source_branch b, pb_TriggeredBy b]"

definition cmd_list :: "'m cli_master \<Rightarrow> 'm \<Rightarrow> cli_result" where
  "cmd_list cm m =
     (case mm_list cm 20 m of
        Inl err \<Rightarrow> cli_error err
      | Inr bs \<Rightarrow>
          cli_done (tab_table ([''BUILD'', ''STATE'', ''REPO'', ''BRANCH'', ''TRIGGER''] # map list_row bs)))"

definition cmd_cancel :: "string list \<Rightarrow> 'm cli_master \<Rightarrow> 'm \<Rightarrow> 'm \<times> cli_result" where
  "cmd_cancel args cm m =
     (if length args < 3 then (m, cli_fail 1 ''usage: ci cancel <build-id>'')
      else case mm_cancel cm (args ! 2) [] m of
        (m', Some err) \<Rightarrow> (m', cli_error err)
      | (m', None) \<Rightarrow> (m', cli_done (''Build '' @ args ! 2 @ '' cancelled'' @ nl)))"

section \<open>Streams\<close>

definition with_timeout :: "nat option \<Rightarrow> nat \<Rightarrow> nat option" where
  "with_timeout ctx n = Some (case ctx of None \<Rightarrow> n | Some d \<Rightarrow> min d n)"

text \<open>The context of all commands.\<close>

definition command_context :: "nat option" where
  "command_context = with_timeout None 30"

definition deadline_error :: string where
  "deadline_error = ''rpc error: code = DeadlineExceeded desc = context deadline exceeded''"

definition before :: "nat option \<Rightarrow> nat \<Rightarrow> bool" where
  "before ctx t \<longleftrightarrow> (case ctx of None \<Rightarrow> True | Some d \<Rightarrow> t < d)"

text \<open>The loop over \<open>Recv\<close>: what it prints, and the error that ends it.\<close>

fun receive_all ::
    "nat option \<Rightarrow> ('e \<Rightarrow> string) \<Rightarrow> (nat \<times> 'e) list \<Rightarrow> nat \<Rightarrow> string option \<Rightarrow> string \<times> string option" where
  "receive_all ctx show_it [] t err = ([], if before ctx t then err else Some deadline_error)"
| "receive_all ctx show_it ((u, e) # ms) t err =
     (if before ctx u then case receive_all ctx show_it ms t err of (out, r) \<Rightarrow> (show_it e @ out, r)
      else ([], Some deadline_error))"

definition drain_stream ::
    "nat option \<Rightarrow> ('e \<Rightarrow> string) \<Rightarrow> string + 'e timed_stream \<Rightarrow> cli_result" where
  "drain_stream ctx show_it st =
     (case st of
        Inl err \<Rightarrow> cli_error err
      | Inr s \<Rightarrow>
     (case receive_all ctx show_it (ts_Messages s) (ts_End s) (ts_Error s) of
        (out, None) \<Rightarrow> cli_done out
      | (out, Some err) \<Rightarrow> (cli_error err)\<lparr> co_Out := out \<rparr>))"

definition logs_context :: "bool \<Rightarrow> nat option" where
  "logs_context flw = (if flw then with_timeout None (30 * 60) else command_context)"

definition cmd_logs :: "string list \<Rightarrow> 'm cli_master \<Rightarrow> 'm \<Rightarrow> cli_result" where
  "cmd_logs args cm m =
     (if length args < 4 then cli_fail 1 ''usage: ci logs <build-id> <task-id> [--follow]''
      else let flw = has_flag ''--follow'' args \<or> has_flag ''-f'' args
           in drain_stream (logs_context flw) (\<lambda>c. c @ nl) (cl_stream_logs cm (args ! 2) (args ! 3) flw m))"

definition arrow :: string where
  "arrow = [CHR 0xE2, CHR 0x86, CHR 0x92]"

fun event_text :: "watch_event \<Rightarrow> string" where
  "event_text (TaskChanged t x s) = ''['' @ clock_text t @ ''] '' @ x @ '' '' @ arrow @ '' '' @ pb_state_name s @ nl"
| "event_text (BuildChanged t p s) = ''['' @ clock_text t @ ''] build: '' @ pb_build_state_name p @ '' '' @ arrow @ '' ''
     @ pb_build_state_name s @ nl"
| "event_text OtherEvent = []"

definition watch_context :: "nat option" where
  "watch_context = with_timeout command_context (30 * 60)"

definition cmd_watch :: "string list \<Rightarrow> 'm cli_master \<Rightarrow> 'm \<Rightarrow> cli_result" where
  "cmd_watch args cm m =
     (if length args < 3 then cli_fail 1 ''usage: ci watch <build-id>''
      else drain_stream watch_context event_text (cl_watch cm (args ! 2) m))"

section \<open>Secrets\<close>

definition trim_line_end :: "string \<Rightarrow> string" where
  "trim_line_end s = rev (dropWhile (\<lambda>c. c = CHR 0x0D \<or> c = CHR 0x0A) (rev s))"

definition secret_usage :: string where
  "secret_usage = ''usage: ci secret <set|list|delete> [args]''"

definition cmd_secret_set :: "string list \<Rightarrow> string + string \<Rightarrow> 'm cli_master \<Rightarrow> 'm \<Rightarrow> 'm \<times> cli_result" where
  "cmd_secret_set args stdin cm m =
     (if length args < 4 then (m, cli_fail 1 ''usage: ci secret set <name>  (pipe value via stdin)'')
      else case stdin of
        Inl err \<Rightarrow> (m, cli_fail 1 (''error reading value from stdin: '' @ err))
      | Inr bytes \<Rightarrow>
          if trim_line_end bytes = []
          then (m, cli_fail 1 ''error: secret value is empty (pipe the value via stdin)'')
          else case cl_put_secret cm (args ! 3) (trim_line_end bytes) m of
            (m', Some err) \<Rightarrow> (m', cli_error err)
          | (m', None) \<Rightarrow> (m', cli_done (''Secret '' @ go_quoted (args ! 3) @ '' stored.'' @ nl)))"

definition cmd_secret_list :: "'m cli_master \<Rightarrow> 'm \<Rightarrow> cli_result" where
  "cmd_secret_list cm m =
     (case cl_list_secrets cm m of
        Inl err \<Rightarrow> cli_error err
      | Inr [] \<Rightarrow> cli_done (''No secrets stored.'' @ nl)
      | Inr es \<Rightarrow> cli_done (tab_table ([''NAME'', ''SCOPE'', ''CREATED BY'']
          # map (\<lambda>e. [sm_Name e, sm_Scope e, sm_CreatedBy e]) es)))"

definition cmd_secret_delete :: "string list \<Rightarrow> 'm cli_master \<Rightarrow> 'm \<Rightarrow> 'm \<times> cli_result" where
  "cmd_secret_delete args cm m =
     (if length args < 4 then (m, cli_fail 1 ''usage: ci secret delete <name>'')
      else case cl_delete_secret cm (args ! 3) m of
        (m', Some err) \<Rightarrow> (m', cli_error err)
      | (m', None) \<Rightarrow> (m', cli_done (''Secret '' @ go_quoted (args ! 3) @ '' deleted.'' @ nl)))"

definition cmd_secret :: "string list \<Rightarrow> string + string \<Rightarrow> 'm cli_master \<Rightarrow> 'm \<Rightarrow> 'm \<times> cli_result" where
  "cmd_secret args stdin cm m =
     (if length args < 3 then (m, cli_fail 1 secret_usage)
      else if args ! 2 = ''set'' then cmd_secret_set args stdin cm m
      else if args ! 2 \<in> {''list'', ''ls''} then (m, cmd_secret_list cm m)
      else if args ! 2 \<in> {''delete'', ''rm''} then cmd_secret_delete args cm m
      else (m, cli_fail 1 (''unknown secret command: '' @ args ! 2 @ nl @ secret_usage)))"

section \<open>Pins\<close>

definition format_time :: "time option \<Rightarrow> string" where
  "format_time t = (case t of None \<Rightarrow> [] | Some u \<Rightarrow> rfc3339_text u)"

definition pin_usage :: string where
  "pin_usage = ''usage: ci pipeline-pin <list|unpin> [project_id]''"

definition pin_row :: "pb_pipeline_pin \<Rightarrow> string list" where
  "pin_row p = [pn_ProjectId p, pn_Digest p, pn_PipelinePath p, format_time (Some (pn_FirstSeen p)),
     format_time (Some (pn_LastSeen p)), pn_RepoName p]"

definition cmd_pin_list :: "'m cli_master \<Rightarrow> 'm \<Rightarrow> cli_result" where
  "cmd_pin_list cm m =
     (case cl_list_pins cm m of
        Inl err \<Rightarrow> cli_error err
      | Inr [] \<Rightarrow> cli_done (''No pipeline digests pinned.'' @ nl)
      | Inr ps \<Rightarrow> cli_done (tab_table
          ([''PROJECT'', ''DIGEST'', ''PIPELINE'', ''FIRST SEEN'', ''LAST SEEN'', ''REPO''] # map pin_row ps)))"

definition cmd_pipeline_pin :: "string list \<Rightarrow> 'm cli_master \<Rightarrow> 'm \<Rightarrow> 'm \<times> cli_result" where
  "cmd_pipeline_pin args cm m =
     (if length args < 3 then (m, cli_fail 1 pin_usage)
      else if args ! 2 \<in> {''list'', ''ls''} then (m, cmd_pin_list cm m)
      else if args ! 2 \<in> {''unpin'', ''rm''}
      then (if length args < 4 then (m, cli_fail 1 ''usage: ci pipeline-pin unpin <project_id>'')
            else case cl_unpin cm (args ! 3) m of
              (m', Inl err) \<Rightarrow> (m', cli_error err)
            | (m', Inr True) \<Rightarrow> (m', cli_done (''Unpinned '' @ args ! 3 @ nl))
            | (m', Inr False) \<Rightarrow> (m', cli_done (''No pin found for '' @ args ! 3 @ nl)))
      else (m, cli_fail 1 (''unknown pipeline-pin command: '' @ args ! 2 @ nl @ pin_usage)))"

end
