(* ===== verification/Cli_Verify.thy ===== *)
theory Cli_Verify
  imports Cli
begin

text \<open>
  The command \<open>verify\<close> of the client and the choice of the command, \<open>cmd/cli/main.go\<close>: the bundle of the
  repository is made by \<open>git\<close>, streamed to the master in chunks, and the build that comes of it is
  polled.  The machine is a record of functions; a file is given by the pieces in which it is read.
\<close>

section \<open>The machine\<close>

datatype read_status = ReadOn | ReadEOF | ReadError string

record cli_machine =
  cv_abs :: "string \<Rightarrow> string + string"
  cv_git :: "string \<Rightarrow> string list \<Rightarrow> string \<times> string option"
  cv_mktemp :: "string + string"
  cv_open :: "string \<Rightarrow> string + (string \<times> read_status) list"
  cv_stdin :: "string + string"

text \<open>The stream of a verification: the errors of opening it and of sending the header, and of the chunk of a
  given number.\<close>

record verify_stream =
  vt_open :: "string option"
  vt_header :: "string option"
  vt_chunk :: "nat \<Rightarrow> string option"

definition git_output :: "cli_machine \<Rightarrow> string \<Rightarrow> string list \<Rightarrow> string + string" where
  "git_output w repoPath args =
     (case cv_git w repoPath args of
        (out, Some err) \<Rightarrow> Inl (err @ '': '' @ trim_space out)
      | (out, None) \<Rightarrow> Inr (trim_space out))"

text \<open>The path of the bundle; a directory that was made for it is removed when git fails.\<close>

definition create_git_bundle :: "cli_machine \<Rightarrow> string \<Rightarrow> string + string" where
  "create_git_bundle w repoPath =
     (case cv_mktemp w of
        Inl err \<Rightarrow> Inl err
      | Inr tmpDir \<Rightarrow>
          let bundlePath = path_join tmpDir ''verify.bundle''
          in case cv_git w repoPath [''bundle'', ''create'', bundlePath, ''--all''] of
               (out, Some err) \<Rightarrow> Inl (err @ nl @ out)
             | (out, None) \<Rightarrow> Inr bundlePath)"

text \<open>The chunks that were sent, numbered from \<open>i\<close>, and the error that ended the loop.\<close>

fun send_pieces ::
    "(nat \<Rightarrow> string option) \<Rightarrow> nat \<Rightarrow> (string \<times> read_status) list \<Rightarrow> string list \<times> string option" where
  "send_pieces fails i [] = ([], None)"
| "send_pieces fails i ((buf, st) # rs) =
     (if buf \<noteq> [] \<and> fails i \<noteq> None then ([], fails i)
      else let sent = (if buf \<noteq> [] then [buf] else []);
               j = (if buf \<noteq> [] then i + 1 else i)
           in case st of
                ReadEOF \<Rightarrow> (sent, None)
              | ReadError err \<Rightarrow> (sent, Some err)
              | ReadOn \<Rightarrow> (case send_pieces fails j rs of (cs, err) \<Rightarrow> (sent @ cs, err)))"

definition send_bundle_chunks ::
    "cli_machine \<Rightarrow> (nat \<Rightarrow> string option) \<Rightarrow> string \<Rightarrow> string list \<times> string option" where
  "send_bundle_chunks w fails bundlePath =
     (case cv_open w bundlePath of
        Inl err \<Rightarrow> ([], Some err)
      | Inr pieces \<Rightarrow> send_pieces fails 0 pieces)"

section \<open>Waiting\<close>

text \<open>The answers to the polls before the deadline of the context.\<close>

fun wait_for_build :: "string \<Rightarrow> (string + pb_build option) list \<Rightarrow> string + pb_build" where
  "wait_for_build x [] = Inl ''context deadline exceeded''"
| "wait_for_build x (Inl err # ps) = Inl err"
| "wait_for_build x (Inr None # ps) = Inl (''build '' @ x @ '' missing from response'')"
| "wait_for_build x (Inr (Some b) # ps) =
     (if pb_State b \<in> {BUILD_STATE_PASSED, BUILD_STATE_FAILED, BUILD_STATE_CANCELLED} then Inr b
      else wait_for_build x ps)"

section \<open>The answer\<close>

definition digest_lines :: "wire_response \<Rightarrow> string" where
  "digest_lines r = ''pinned:  '' @ wr_Pinned r @ nl @ ''current: '' @ wr_Current r @ nl"

definition diff_text :: "wire_response \<Rightarrow> string" where
  "diff_text r = (if wr_Diff r = [] then [] else wr_Diff r @ nl)"

definition response_error :: "wire_response \<Rightarrow> string" where
  "response_error r = (if wr_Error r = [] then [] else wr_Error r @ nl)"

text \<open>What goes to the standard output and to the error output.\<close>

definition print_verify_response :: "wire_response \<Rightarrow> string \<times> string" where
  "print_verify_response r =
     (case wr_Status r of
        Some DIGEST_PINNED \<Rightarrow> (''Pinned pipeline digest '' @ wr_Pinned r @ nl, [])
      | Some DIGEST_OK \<Rightarrow> (''Pipeline digest matches pinned value '' @ wr_Pinned r @ nl, [])
      | Some DIGEST_ACCEPTED \<Rightarrow>
          (''PIPELINE CHANGED '' @ em_dash @ '' accepted and re-pinned'' @ nl @ digest_lines r @ diff_text r, [])
      | Some DIGEST_CHANGED \<Rightarrow>
          (diff_text r, ''PIPELINE CHANGED '' @ em_dash @ '' refusing to run'' @ nl @ digest_lines r)
      | None \<Rightarrow> ([], response_error r))"

section \<open>The command\<close>

text \<open>\<open>filepath.Base\<close>: the last element of a path.\<close>

definition path_base :: "string \<Rightarrow> string" where
  "path_base p =
     (let q = dropWhile (\<lambda>c. c = CHR ''/'') (rev p)
      in if p = [] then ''.'' else if q = [] then ''/'' else rev (takeWhile (\<lambda>c. c \<noteq> CHR ''/'') q))"

text \<open>The result of the command, and whether the directory of the bundle is left behind: \<open>os.Exit\<close> does not
  run the deferred cleanup.\<close>

definition verify_usage :: string where
  "verify_usage = ''usage: ci verify [--branch <branch>] [--base-branch <branch>] [--accept-pipeline-change] <repo-path>''"

definition verify_fail :: "string \<Rightarrow> string \<Rightarrow> cli_result" where
  "verify_fail what err = cli_fail 3 (''error: '' @ what @ '': '' @ err)"

text \<open>The header that describes the repository, by three calls of git.\<close>

definition verify_header_of :: "cli_machine \<Rightarrow> string list \<Rightarrow> string \<Rightarrow> cli_result + verify_header" where
  "verify_header_of w args repo =
     (case git_output w repo [''rev-list'', ''--max-parents=0'', ''HEAD''] of
        Inl err \<Rightarrow> Inl (verify_fail ''reading root commit SHA'' err)
      | Inr projectID \<Rightarrow>
     (case git_output w repo [''rev-parse'', ''HEAD''] of
        Inl err \<Rightarrow> Inl (verify_fail ''reading HEAD commit SHA'' err)
      | Inr commitSHA \<Rightarrow>
     (case (if flag_value ''--branch'' [] args = [] then git_output w repo [''rev-parse'', ''--abbrev-ref'', ''HEAD'']
            else Inr (flag_value ''--branch'' [] args)) of
        Inl err \<Rightarrow> Inl (verify_fail ''reading current branch'' err)
      | Inr branch \<Rightarrow>
          Inr \<lparr> vh_ProjectId = projectID, vh_RepoName = path_base repo, vh_Branch = branch,
                vh_BaseBranch = flag_value ''--base-branch'' ''main'' args, vh_CommitSha = commitSHA,
                vh_AcceptPipelineChange = has_flag ''--accept-pipeline-change'' args \<rparr>)))"

text \<open>After the answer: what is printed, and how the program ends, given the answers to the polls.\<close>

definition verify_outcome :: "wire_response \<Rightarrow> (string + pb_build option) list \<Rightarrow> cli_result" where
  "verify_outcome r polls =
     (case print_verify_response r of (out, err) \<Rightarrow>
        if wr_Status r = Some DIGEST_CHANGED then \<lparr> co_Out = out, co_Err = err, co_Exit = 2 \<rparr>
        else
          let err' = err @ (if wr_Status r = None then response_error r else [])
          in if wr_BuildId r = [] then \<lparr> co_Out = out, co_Err = err', co_Exit = 3 \<rparr>
             else
               let out' = out @ ''verify build submitted: '' @ wr_BuildId r @ nl
               in case wait_for_build (wr_BuildId r) polls of
                    Inl e \<Rightarrow> \<lparr> co_Out = out', co_Err = err' @ ''error: waiting for build completion: '' @ e @ nl,
                               co_Exit = 3 \<rparr>
                  | Inr b \<Rightarrow> \<lparr> co_Out = out' @ ''verify build finished: '' @ pb_build_state_name (pb_State b) @ nl,
                               co_Err = err', co_Exit = (if pb_State b = BUILD_STATE_PASSED then 0 else 1) \<rparr>)"

definition cmd_verify ::
    "string list \<Rightarrow> cli_machine \<Rightarrow> verify_stream \<Rightarrow> (string + pb_build option) list \<Rightarrow> 'm cli_master \<Rightarrow> 'm
      \<Rightarrow> 'm \<times> cli_result \<times> bool" where
  "cmd_verify args w vt polls cm m =
     (if last_positional_arg args = [] then (m, cli_fail 1 verify_usage, False)
      else case cv_abs w (last_positional_arg args) of
        Inl err \<Rightarrow> (m, verify_fail ''resolving repo path'' err, False)
      | Inr repo \<Rightarrow>
     (case verify_header_of w args repo of
        Inl r \<Rightarrow> (m, r, False)
      | Inr hdr \<Rightarrow>
     (case create_git_bundle w repo of
        Inl err \<Rightarrow> (m, verify_fail ''creating bundle'' err, False)
      | Inr bundlePath \<Rightarrow>
     (case vt_open vt of
        Some err \<Rightarrow> (m, verify_fail ''opening verify stream'' err, True)
      | None \<Rightarrow>
     (case vt_header vt of
        Some err \<Rightarrow> (m, verify_fail ''sending verify header'' err, True)
      | None \<Rightarrow>
     (case send_bundle_chunks w (vt_chunk vt) bundlePath of
        (cs, Some err) \<Rightarrow> (m, verify_fail ''streaming bundle'' err, True)
      | (cs, None) \<Rightarrow>
     (case cl_verify cm hdr cs m of
        (m', Inl err) \<Rightarrow> (m', verify_fail ''receiving verify response'' err, True)
      | (m', Inr r) \<Rightarrow> (m', verify_outcome r polls, co_Exit (verify_outcome r polls) \<noteq> 0))))))))"

section \<open>The program\<close>

definition usage_lines :: "string list" where
  "usage_lines = [''ci - CI/CD system command line tool'', [], ''Usage:'',
     ''  ci submit <repo-url> [--branch <branch>] [--sha <sha>]'',
     ''  ci verify [--branch <branch>] [--base-branch <branch>] [--accept-pipeline-change] <repo-path>'',
     ''  ci status <build-id>'', ''  ci list'', ''  ci cancel <build-id>'',
     ''  ci logs <build-id> <task-id> [--follow]'', ''  ci watch <build-id>'',
     ''  ci pipeline-pin list'', ''  ci pipeline-pin unpin <project_id>'',
     ''  ci secret set <name>          store a secret (pipe value via stdin)'',
     ''  ci secret list                list secret names'',
     ''  ci secret delete <name>       remove a secret'', [], ''Environment:'',
     ''  CI_MASTER  Master address (default: localhost:9090)'']"

definition unknown_command :: "string list \<Rightarrow> cli_result" where
  "unknown_command args = \<lparr> co_Out = [],
     co_Err = ''unknown command: '' @ args ! 1 @ nl @ content_lines usage_lines, co_Exit = 1 \<rparr>"

definition cli_main ::
    "string list \<Rightarrow> cli_machine \<Rightarrow> verify_stream \<Rightarrow> (string + pb_build option) list \<Rightarrow> 'm cli_master \<Rightarrow> 'm
      \<Rightarrow> 'm \<times> cli_result" where
  "cli_main args w vt polls cm m =
     (if length args < 2 then (m, \<lparr> co_Out = [], co_Err = content_lines usage_lines, co_Exit = 1 \<rparr>)
      else let c = args ! 1
      in if c = ''submit'' then cmd_submit args cm m
      else if c = ''verify'' then (case cmd_verify args w vt polls cm m of (m', r, _) \<Rightarrow> (m', r))
      else if c \<in> {''status'', ''get''} then (m, cmd_status args cm m)
      else if c \<in> {''list'', ''ls''} then (m, cmd_list cm m)
      else if c = ''cancel'' then cmd_cancel args cm m
      else if c = ''logs'' then (m, cmd_logs args cm m)
      else if c = ''watch'' then (m, cmd_watch args cm m)
      else if c = ''secret'' then cmd_secret args (cv_stdin w) cm m
      else if c = ''pipeline-pin'' then cmd_pipeline_pin args cm m
      else (m, unknown_command args))"

end
