(* ===== verification/Cli_Properties.thy ===== *)
theory Cli_Properties
  imports Cli_Verify Mcp_Properties
begin

text \<open>
  What can be said of the command line client: how it reads its arguments, how its streams end, what
  its exit codes mean, and, through the contract \<open>verify_service\<close> interpreted on the master's own
  \<open>VerifyLocal\<close>, what a successful \<open>ci verify\<close> guarantees.
\<close>

section \<open>Streams\<close>

lemma receive_all_cut:
  assumes "\<not> before ctx t"
  shows "receive_all ctx f ms t err
    = (concat (map (\<lambda>(_, e). f e) (takeWhile (\<lambda>(u, _). before ctx u) ms)), Some deadline_error)"
  using assms by (induction ms) auto

lemma receive_all_complete:
  assumes "before ctx t" "list_all (\<lambda>(u, _). before ctx u) ms"
  shows "receive_all ctx f ms t err = (concat (map (\<lambda>(_, e). f e) ms), err)"
  using assms by (induction ms) auto


section \<open>Arguments\<close>

lemma flag_value_found: "flag_value x d (x # v # args) = v"
  by simp

lemma flag_value_skip: "a \<noteq> x \<Longrightarrow> flag_value x d (a # args) = flag_value x d args"
  by (cases args) auto

lemma last_positional_snoc:
  "\<not> has_prefix ''-'' repo \<Longrightarrow> last_positional_arg (p # c # args @ [repo]) = repo"
  by (simp add: last_positional_arg_def)

text \<open>The options of the usage line, in its order.\<close>

definition verify_options :: "string option \<Rightarrow> string option \<Rightarrow> bool \<Rightarrow> string list" where
  "verify_options branch base accept =
     (case branch of None \<Rightarrow> [] | Some b \<Rightarrow> [''--branch'', b])
     @ (case base of None \<Rightarrow> [] | Some b \<Rightarrow> [''--base-branch'', b])
     @ (if accept then [''--accept-pipeline-change''] else [])"

lemma not_an_option: "\<not> has_prefix ''-'' a \<Longrightarrow> a \<noteq> CHR ''-'' # x"
  by (auto simp: has_prefix_def)

text \<open>C32. \<open>ci verify\<close> reads its arguments as the usage line has them: with the options it names, in their
  order, and the path at the end, none of the values starting with a dash, the path, the two branches
  and the flag are those given. But when the path comes before \<open>--branch\<close>, the name of the branch is
  taken for the path.\<close>

theorem verify_arguments_as_in_usage:
  assumes "list_all (\<lambda>a. \<not> has_prefix ''-'' a) ([p, repo] @ case_option [] (\<lambda>b. [b]) branch @ case_option [] (\<lambda>b. [b]) base)"
    and "args = [p, ''verify''] @ verify_options branch base accept @ [repo]"
  shows "last_positional_arg args = repo
    \<and> flag_value ''--branch'' [] args = (case branch of None \<Rightarrow> [] | Some b \<Rightarrow> b)
    \<and> flag_value ''--base-branch'' ''main'' args = (case base of None \<Rightarrow> ''main'' | Some b \<Rightarrow> b)
    \<and> (has_flag ''--accept-pipeline-change'' args \<longleftrightarrow> accept)
    \<and> last_positional_arg [p, ''verify'', repo, ''--branch'', b] = (if has_prefix ''-'' b then repo else b)"
proof -
  have n: "x \<noteq> ''--branch''" "x \<noteq> ''--base-branch''" "x \<noteq> ''--accept-pipeline-change''" if "\<not> has_prefix ''-'' x" for x
    using not_an_option [OF that] by auto
  have v: "\<not> has_prefix ''-'' p" "\<not> has_prefix ''-'' repo"
    "\<And>b. branch = Some b \<Longrightarrow> \<not> has_prefix ''-'' b" "\<And>b. base = Some b \<Longrightarrow> \<not> has_prefix ''-'' b"
    using assms(1) by auto
  note pn = n [OF v(1)] n [OF v(2)]
  have "last_positional_arg args = repo"
    unfolding assms(2) using last_positional_snoc [OF v(2)] by simp
  moreover have "flag_value ''--branch'' [] args = (case branch of None \<Rightarrow> [] | Some b \<Rightarrow> b)"
    unfolding assms(2) verify_options_def using pn n [OF v(4)] by (auto split: option.splits)
  moreover have "flag_value ''--base-branch'' ''main'' args = (case base of None \<Rightarrow> ''main'' | Some b \<Rightarrow> b)"
    unfolding assms(2) verify_options_def using pn n [OF v(3)] by (auto split: option.splits)
  moreover have "has_flag ''--accept-pipeline-change'' args \<longleftrightarrow> accept"
    unfolding assms(2) verify_options_def has_flag_def using pn n [OF v(3)] n [OF v(4)] by (auto split: option.splits)
  moreover have "last_positional_arg [p, ''verify'', repo, ''--branch'', b] = (if has_prefix ''-'' b then repo else b)"
    using v(2) by (simp add: last_positional_arg_def has_prefix_def)
  ultimately show ?thesis by blast
qed

section \<open>The bundle\<close>

text \<open>The bytes of a file up to its end, and that it was read without an error.\<close>

fun file_bytes :: "(string \<times> read_status) list \<Rightarrow> string" where
  "file_bytes [] = []"
| "file_bytes ((b, ReadEOF) # ps) = b"
| "file_bytes ((b, _) # ps) = b @ file_bytes ps"

lemma send_pieces_bytes:
  "send_pieces fails i ps = (cs, None) \<Longrightarrow> concat cs = file_bytes ps \<and> [] \<notin> set cs"
proof (induction fails i ps arbitrary: cs rule: send_pieces.induct)
  case (2 fails i buf st rs)
  show ?case
  proof (cases st)
    case ReadOn
    then obtain cs' where "send_pieces fails (if buf \<noteq> [] then i + 1 else i) rs = (cs', None)"
      "cs = (if buf \<noteq> [] then [buf] else []) @ cs'" "\<not> (buf \<noteq> [] \<and> fails i \<noteq> None)"
      using 2(2) by (auto simp: Let_def split: if_splits prod.splits)
    with 2(1) [OF this(3) refl refl ReadOn] ReadOn show ?thesis by auto
  qed (use 2(2) in \<open>auto simp: Let_def split: if_splits\<close>)
qed simp

lemma received_bytes: "receive_chunks env (map Chunk cs) acc = Inr bs \<Longrightarrow> bs = acc @ concat cs"
  by (induction cs arbitrary: acc) (fastforce split: if_splits)+

lemma receive_chunks_all:
  "(\<And>c. c \<in> set cs \<Longrightarrow> ve_write env c) \<Longrightarrow> ve_close env \<Longrightarrow>
     receive_chunks env (map Chunk cs) acc = Inr (acc @ concat cs)"
  by (induction cs arbitrary: acc) auto

text \<open>C31. The bundle arrives as it was read: when the client has streamed the file without an error, and the
  master can write, what \<open>VerifyLocal\<close> stores is the file up to its end, however it was cut into chunks,
  and no chunk was empty.\<close>

theorem bundle_arrives:
  assumes "send_bundle_chunks w fails path = (cs, None)" "cv_open w path = Inr pieces"
    and "\<And>c. c \<in> set cs \<Longrightarrow> ve_write env c" "ve_close env"
  shows "receive_chunks env (map Chunk cs) [] = Inr (file_bytes pieces) \<and> [] \<notin> set cs"
proof -
  have "receive_chunks env (map Chunk cs) [] = Inr ([] @ concat cs)"
    by (rule receive_chunks_all) (use assms(3,4) in auto)
  then show ?thesis using send_pieces_bytes [of fails 0 pieces cs] assms(1,2)
    by (simp add: send_bundle_chunks_def)
qed

section \<open>Verification\<close>

text \<open>How far a verification got: the answer to it, with the header and the chunks that were sent.\<close>

definition verify_answer ::
    "string list \<Rightarrow> cli_machine \<Rightarrow> verify_stream \<Rightarrow> 'm cli_master \<Rightarrow> 'm \<Rightarrow> verify_header \<Rightarrow> string list \<Rightarrow> 'm
      \<Rightarrow> string + wire_response \<Rightarrow> bool" where
  "verify_answer args w vt cm m h cs m' a \<longleftrightarrow> last_positional_arg args \<noteq> []
     \<and> (\<exists>repo path. cv_abs w (last_positional_arg args) = Inr repo \<and> verify_header_of w args repo = Inr h
         \<and> create_git_bundle w repo = Inr path \<and> vt_open vt = None \<and> vt_header vt = None
         \<and> send_bundle_chunks w (vt_chunk vt) path = (cs, None))
     \<and> cl_verify cm h cs m = (m', a)"

lemma header_failure: "verify_header_of w args repo = Inl r \<Longrightarrow> co_Exit r = 3"
  by (auto simp: verify_header_of_def verify_fail_def cli_fail_def split: sum.splits)

lemma cmd_verify_cases:
  assumes "cmd_verify args w vt polls cm m = (m', r, left)"
  obtains (early) "m' = m" "co_Exit r = 1" "\<not> left"
  | (failed) "m' = m" "co_Exit r = 3"
  | (lost) h cs e where "verify_answer args w vt cm m h cs m' (Inl e)" "co_Exit r = 3"
  | (answered) h cs a where "verify_answer args w vt cm m h cs m' (Inr a)" "r = verify_outcome a polls"
      "left \<longleftrightarrow> co_Exit r \<noteq> 0"
proof (cases "last_positional_arg args = [] \<or> (\<forall>repo. cv_abs w (last_positional_arg args) \<noteq> Inr repo)")
  case True
  then show ?thesis using assms early failed
    by (auto simp: cmd_verify_def cli_fail_def verify_fail_def split: sum.splits if_splits)
next
  case False
  then obtain repo where p: "last_positional_arg args \<noteq> []" "cv_abs w (last_positional_arg args) = Inr repo" by blast
  show ?thesis
  proof (cases "verify_header_of w args repo")
    case (Inl e)
    then show ?thesis using assms p failed header_failure [OF Inl] by (simp add: cmd_verify_def)
  next
    case h: (Inr h)
    show ?thesis
    proof (cases "create_git_bundle w repo")
      case (Inl e)
      then show ?thesis using assms p h failed by (auto simp: cmd_verify_def cli_fail_def verify_fail_def)
    next
      case b: (Inr path)
      obtain cs e where s: "send_bundle_chunks w (vt_chunk vt) path = (cs, e)" by fastforce
      show ?thesis
      proof (cases "vt_open vt = None \<and> vt_header vt = None \<and> e = None")
        case False
        then show ?thesis using assms p h b s failed
          by (auto simp: cmd_verify_def cli_fail_def verify_fail_def split: option.splits)
      next
        case ok: True
        obtain m1 a where a: "cl_verify cm h cs m = (m1, a)" by fastforce
        have v: "verify_answer args w vt cm m h cs m1 a"
          using p h b s ok a by (simp add: verify_answer_def)
        show ?thesis using assms p h b s ok a v lost answered
          by (cases a) (auto simp: cmd_verify_def cli_fail_def verify_fail_def)
      qed
    qed
  qed
qed

lemma verify_outcome_exit:
  "co_Exit (verify_outcome a polls) = 0 \<longleftrightarrow> wr_Status a \<noteq> Some DIGEST_CHANGED \<and> wr_BuildId a \<noteq> []
     \<and> (\<exists>b. wait_for_build (wr_BuildId a) polls = Inr b \<and> pb_State b = BUILD_STATE_PASSED)"
  "co_Exit (verify_outcome a polls) = 2 \<longleftrightarrow> wr_Status a = Some DIGEST_CHANGED"
  "co_Exit (verify_outcome a polls) \<le> 3"
  by (auto simp: verify_outcome_def Let_def split: prod.splits sum.splits)

text \<open>C21. What the exit code of \<open>ci verify\<close> means: it is at most 3; it is 2 exactly when the master answered
  that the pipeline has changed; it is 0 exactly when the master answered otherwise, gave a build, and a
  poll found that build passed. After an answer the directory of the bundle is left behind unless the
  code is 0: the program ends without the deferred cleanup.\<close>

theorem verify_exit_codes:
  assumes "cmd_verify args w vt polls cm m = (m', r, left)"
  shows "co_Exit r \<le> 3
    \<and> (co_Exit r = 2 \<longleftrightarrow> (\<exists>h cs a. verify_answer args w vt cm m h cs m' (Inr a) \<and> wr_Status a = Some DIGEST_CHANGED))
    \<and> (co_Exit r = 0 \<longleftrightarrow> (\<exists>h cs a b. verify_answer args w vt cm m h cs m' (Inr a)
         \<and> wr_Status a \<noteq> Some DIGEST_CHANGED \<and> wr_BuildId a \<noteq> []
         \<and> wait_for_build (wr_BuildId a) polls = Inr b \<and> pb_State b = BUILD_STATE_PASSED))
    \<and> ((\<exists>h cs a. verify_answer args w vt cm m h cs m' (Inr a)) \<longrightarrow> (left \<longleftrightarrow> co_Exit r \<noteq> 0))"
proof -
  have out: "r = verify_outcome a polls \<and> (left \<longleftrightarrow> co_Exit r \<noteq> 0)"
    if "verify_answer args w vt cm m h cs m' (Inr a)" for h cs a
    using assms that by (auto simp: cmd_verify_def verify_answer_def split: if_splits)
  show ?thesis
  proof (cases "\<exists>h cs a. verify_answer args w vt cm m h cs m' (Inr a)")
    case True
    then obtain h cs a where v: "verify_answer args w vt cm m h cs m' (Inr a)" by blast
    have one: "a' = a" if "verify_answer args w vt cm m h' cs' m' (Inr a')" for h' cs' a'
      using v that by (auto simp: verify_answer_def)
    show ?thesis using out [OF v] v one verify_outcome_exit [of a polls] by (metis (no_types, lifting))
  next
    case False
    from assms have "co_Exit r = 1 \<or> co_Exit r = 3"
      by (cases rule: cmd_verify_cases) (use False in auto)
    then show ?thesis using False by auto
  qed
qed

section \<open>What a successful verification guarantees\<close>

text \<open>\<open>trusted h bundle d m m'\<close> is what the master vouches for when it answers that the pipeline of the bundle
  has the digest \<open>d\<close> and is not refused.\<close>

locale verify_service =
  fixes cm :: "'m cli_master"
    and trusted :: "verify_header \<Rightarrow> string \<Rightarrow> string \<Rightarrow> 'm \<Rightarrow> 'm \<Rightarrow> bool"
  assumes vouched: "cl_verify cm h cs m = (m', Inr a) \<Longrightarrow> wr_Status a \<noteq> Some DIGEST_CHANGED \<Longrightarrow>
      trusted h (concat cs) (wr_Current a) m m'"
begin

lemma success_trusted:
  assumes "cmd_verify args w vt polls cm m = (m', r, left)" "co_Exit r = 0"
  shows "\<exists>repo path pieces h (a :: wire_response) b. cv_abs w (last_positional_arg args) = Inr repo \<and> verify_header_of w args repo = Inr h
    \<and> create_git_bundle w repo = Inr path \<and> cv_open w path = Inr pieces
    \<and> trusted h (file_bytes pieces) (wr_Current a) m m'
    \<and> wait_for_build (wr_BuildId a) polls = Inr b \<and> pb_State b = BUILD_STATE_PASSED"
  using assms(1)
proof (cases rule: cmd_verify_cases)
  case (answered h cs a)
  then have c: "wr_Status a \<noteq> Some DIGEST_CHANGED"
    "\<exists>b. wait_for_build (wr_BuildId a) polls = Inr b \<and> pb_State b = BUILD_STATE_PASSED"
    using assms(2) verify_outcome_exit(1) [of a polls] by auto
  from answered(1) obtain repo path where p: "cv_abs w (last_positional_arg args) = Inr repo"
    "verify_header_of w args repo = Inr h" "create_git_bundle w repo = Inr path"
    "send_bundle_chunks w (vt_chunk vt) path = (cs, None)" "cl_verify cm h cs m = (m', Inr a)"
    by (auto simp: verify_answer_def)
  then obtain pieces where o: "cv_open w path = Inr pieces" "concat cs = file_bytes pieces"
    using send_pieces_bytes [of "vt_chunk vt" 0 _ cs] by (auto simp: send_bundle_chunks_def split: sum.splits)
  have "trusted h (file_bytes pieces) (wr_Current a) m m'" using vouched [OF p(5) c(1)] by (simp add: o(2))
  moreover obtain b where "wait_for_build (wr_BuildId a) polls = Inr b" "pb_State b = BUILD_STATE_PASSED"
    using c(2) by blast
  ultimately show ?thesis using p(1-3) o(1)
    by blast
qed (use assms(2) in auto)

end

text \<open>The master as the client sees it. What the streams deliver and when is an argument.\<close>

record cli_host =
  ch_mcp :: mcp_host
  ch_verify :: "verify_server option"
  ch_secrets :: secret_store

record cli_world =
  cw_mcp :: mcp_world
  cw_verify :: verify_env
  cw_logs :: "string \<Rightarrow> string \<Rightarrow> bool \<Rightarrow> cli_host \<Rightarrow> string + string timed_stream"
  cw_watch :: "string \<Rightarrow> cli_host \<Rightarrow> string + watch_event timed_stream"
  cw_secret_order :: "secret_store \<Rightarrow> string list"
  cw_pin_order :: "verify_server option \<Rightarrow> string list"

definition on_mcp :: "(mcp_host \<Rightarrow> mcp_host \<times> 'r) \<Rightarrow> cli_host \<Rightarrow> cli_host \<times> 'r" where
  "on_mcp f m = (case f (ch_mcp m) of (h, r) \<Rightarrow> (m\<lparr> ch_mcp := h \<rparr>, r))"

fun failure_text :: "rpc_status + unit \<Rightarrow> string option" where
  "failure_text (Inl e) = Some (rpc_text e)"
| "failure_text (Inr _) = None"

definition wire_of :: "verify_response \<Rightarrow> wire_response" where
  "wire_of r = \<lparr> wr_BuildId = vr_BuildId r, wr_Status = Some (vr_DigestStatus r), wr_Pinned = vr_PinnedDigest r,
     wr_Current = vr_CurrentDigest r, wr_Diff = vr_PipelineDiff r, wr_Error = vr_Error r \<rparr>"

definition host_verify :: "cli_world \<Rightarrow> verify_header \<Rightarrow> string list \<Rightarrow> cli_host \<Rightarrow> cli_host \<times> (string + wire_response)" where
  "host_verify w h cs m =
     (case verify_local (mw_intake (cw_mcp w)) (cw_verify w) (Header h) (map Chunk cs) (ch_verify m) (mh_sched (ch_mcp m)) of
        (s', srv', r) \<Rightarrow> (m\<lparr> ch_mcp := (ch_mcp m)\<lparr> mh_sched := s' \<rparr>, ch_verify := srv' \<rparr>,
          map_sum rpc_text wire_of r))"

definition host_cli :: "cli_world \<Rightarrow> cli_host cli_master" where
  "host_cli w = \<lparr> mm_list = (\<lambda>n m. host_list (cw_mcp w) n (ch_mcp m)), mm_get = (\<lambda>x m. host_get (cw_mcp w) x (ch_mcp m)),
     mm_logs = (\<lambda>b x n m. host_logs (cw_mcp w) b x n (ch_mcp m)),
     mm_submit = (\<lambda>src y. on_mcp (host_submit (cw_mcp w) src y)),
     mm_cancel = (\<lambda>x r. on_mcp (host_cancel (cw_mcp w) x r)), mm_retry = (\<lambda>x f. on_mcp (host_retry x f)),
     cl_stream_logs = cw_logs w, cl_watch = cw_watch w,
     cl_put_secret = (\<lambda>x v m. case rpc_put_secret (ie_now (mw_intake (cw_mcp w))) [] x v (ch_secrets m) of
       (st, r) \<Rightarrow> (m\<lparr> ch_secrets := st \<rparr>, failure_text r)),
     cl_list_secrets = (\<lambda>m. Inr (rpc_list_secrets (cw_secret_order w (ch_secrets m)) [] (ch_secrets m))),
     cl_delete_secret = (\<lambda>x m. case rpc_delete_secret [] x (ch_secrets m) of
       (st, r) \<Rightarrow> (m\<lparr> ch_secrets := st \<rparr>, failure_text r)),
     cl_verify = host_verify w,
     cl_list_pins = (\<lambda>m. rpc_result_text (list_pipeline_pins (cw_pin_order w (ch_verify m)) (ch_verify m))),
     cl_unpin = (\<lambda>x m. case unpin_pipeline (ve_pin_keys (cw_verify w)) (ve_save (cw_verify w)) x (ch_verify m) of
       (srv, r) \<Rightarrow> (m\<lparr> ch_verify := srv \<rparr>, rpc_result_text r)) \<rparr>"

definition host_trusted :: "cli_world \<Rightarrow> verify_header \<Rightarrow> string \<Rightarrow> string \<Rightarrow> cli_host \<Rightarrow> cli_host \<Rightarrow> bool" where
  "host_trusted w h bundle d m m' \<longleftrightarrow> (\<exists>srv srv' rel content st.
     ch_verify m = Some srv \<and> ch_verify m' = Some srv'
     \<and> base_pipeline (cw_verify w) h bundle = Inr (rel, content) \<and> d = current_digest (cw_verify w) content
     \<and> pinned_to (vs_digests srv') (vh_ProjectId h) d \<and> trust_reason h d (vs_digests srv) st)"

lemma verify_bundle_trusted:
  assumes "verify_bundle env ve h bundle path ds s = (s', ds', Inr r)" "vr_DigestStatus r \<noteq> DIGEST_CHANGED"
  shows "\<exists>rel content. base_pipeline ve h bundle = Inr (rel, content) \<and> vr_CurrentDigest r = current_digest ve content
    \<and> pinned_to ds' (vh_ProjectId h) (vr_CurrentDigest r) \<and> trust_reason h (vr_CurrentDigest r) ds (vr_DigestStatus r)"
proof -
  from assms(1) obtain rel content where b: "base_pipeline ve h bundle = Inr (rel, content)"
    by (auto simp: verify_bundle_def split: sum.splits)
  obtain ds1 v where cd: "check_digest ve (ie_now env) h rel content ds = (ds1, v)" by (metis prod.collapse)
  from assms obtain st pinned diff where v: "v = Trusted st pinned diff" "ds' = ds1" "vr_DigestStatus r = st"
    "vr_CurrentDigest r = current_digest ve content"
    by (cases v) (auto simp: verify_bundle_def b cd refusal_def split: sum.splits prod.splits)
  show ?thesis using check_digest_spec [OF cd] b by (auto simp: v)
qed

interpretation cli_host: verify_service "host_cli w" "host_trusted w" for w
proof
  fix h cs m m' a
  assume v: "cl_verify (host_cli w) h cs m = (m', Inr a)" and c: "wr_Status a \<noteq> Some DIGEST_CHANGED"
  let ?env = "mw_intake (cw_mcp w)" and ?ve = "cw_verify w"
  obtain s' srv' out where l: "verify_local ?env ?ve (Header h) (map Chunk cs) (ch_verify m) (mh_sched (ch_mcp m))
      = (s', srv', out)" by (metis prod_cases3)
  with v obtain r where r: "out = Inr r" "a = wire_of r" "ch_verify m' = srv'"
    by (cases out) (auto simp: host_cli_def host_verify_def)
  from l r(1) obtain srv bs where srv: "ch_verify m = Some srv" and bs: "receive_chunks ?ve (map Chunk cs) [] = Inr bs"
    by (auto simp: verify_local_def Let_def split: option.splits if_splits sum.splits)
  obtain s1 ds1 o1 where vb: "verify_bundle ?env ?ve h bs (bundle_path srv (ie_newID ?env)) (vs_digests srv)
      (mh_sched (ch_mcp m)) = (s1, ds1, o1)" by (metis prod_cases3)
  with l r(1) srv bs have o1: "o1 = Inr r" and ds: "\<exists>srv1. srv' = Some srv1 \<and> vs_digests srv1 = ds1"
    by (auto simp: verify_local_def Let_def split: if_splits)
  have "bs = concat cs" using received_bytes [OF bs] by simp
  with verify_bundle_trusted [OF vb [unfolded o1]] c r srv ds
  show "host_trusted w h (concat cs) (wr_Current a) m m'"
    by (auto simp: host_trusted_def wire_of_def)
qed


section \<open>Examples\<close>

definition small_machine :: cli_machine where
  "small_machine = \<lparr> cv_abs = (\<lambda>p. Inr (''/src/'' @ p)), cv_git = (\<lambda>_ args. (if args ! 0 = ''bundle'' then [] else ''c1'', None)),
     cv_mktemp = Inr ''/tmp/ci'', cv_open = (\<lambda>_. Inr [(''o'', ReadOn), (''ne'', ReadOn), ([], ReadEOF)]), cv_stdin = Inr [] \<rparr>"

definition open_stream :: verify_stream where
  "open_stream = \<lparr> vt_open = None, vt_header = None, vt_chunk = (\<lambda>_. None) \<rparr>"

theorem bundle_arrives_witness:
  "receive_chunks (small_verify_env None) (map Chunk [''o'', ''ne'']) [] = Inr ''one''"
proof -
  have "send_bundle_chunks small_machine (\<lambda>_. None) ''/tmp/ci/verify.bundle'' = ([''o'', ''ne''], None)" by code_simp
  moreover have "cv_open small_machine ''/tmp/ci/verify.bundle'' = Inr [(''o'', ReadOn), (''ne'', ReadOn), ([], ReadEOF)]"
    by (simp add: small_machine_def)
  moreover have "ve_write (small_verify_env None) c" "ve_close (small_verify_env None)" for c by (simp_all add: small_verify_env_def)
  ultimately show ?thesis
    using bundle_arrives [of small_machine "\<lambda>_. None" "''/tmp/ci/verify.bundle''" "[''o'', ''ne'']" _ "small_verify_env None"] by simp
qed

theorem verify_arguments_as_in_usage_witness:
  "last_positional_arg [''ci'', ''verify'', ''repo'', ''--branch'', ''dev''] = ''dev''
   \<and> flag_value ''--branch'' [] [''ci'', ''verify'', ''--branch'', ''dev'', ''repo''] = ''dev''"
  using verify_arguments_as_in_usage [of "''ci''" "''repo''" "Some ''dev''" None
      "[''ci'', ''verify'', ''--branch'', ''dev'', ''repo'']" False "''dev''"]
  by (simp add: verify_options_def has_prefix_def)

definition small_cli_world :: cli_world where
  "small_cli_world = \<lparr> cw_mcp = small_mcp_world, cw_verify = small_verify_env None, cw_logs = (\<lambda>_ _ _ _. Inl []),
     cw_watch = (\<lambda>_ _. Inl []), cw_secret_order = (\<lambda>_. []), cw_pin_order = (\<lambda>_. [''c1'']) \<rparr>"

definition small_cli_host :: cli_host where
  "small_cli_host = \<lparr> ch_mcp = small_mcp_host, ch_verify = Some small_verify_server, ch_secrets = [] \<rparr>"

definition passed_build :: pb_build where
  "passed_build = (build_to_proto [] (grpc_build ''b7'' \<lparr> gs_RepoUrl = [], gs_CommitSha = [], gs_Branch = [], gs_PrNumber = [] \<rparr> [] new_graph))
     \<lparr> pb_State := BUILD_STATE_PASSED \<rparr>"

definition small_cli_verify :: "cli_host \<times> cli_result \<times> bool" where
  "small_cli_verify = cmd_verify [''ci'', ''verify'', ''repo''] small_machine open_stream [Inr (Some passed_build)]
     (host_cli small_cli_world) small_cli_host"

lemma small_cli_verify_parts:
  "cmd_verify [''ci'', ''verify'', ''repo''] small_machine open_stream [Inr (Some passed_build)]
     (host_cli small_cli_world) small_cli_host
   = (fst small_cli_verify, fst (snd small_cli_verify), snd (snd small_cli_verify))"
  by (simp add: small_cli_verify_def)

lemma small_cli_verify_passed: "co_Exit (fst (snd small_cli_verify)) = 0"
  by code_simp


theorem verify_exit_codes_witness:
  "\<exists>h cs a. verify_answer [''ci'', ''verify'', ''repo''] small_machine open_stream (host_cli small_cli_world)
     small_cli_host h cs (fst small_cli_verify) (Inr a) \<and> wr_BuildId a \<noteq> []"
  using verify_exit_codes [OF small_cli_verify_parts] small_cli_verify_passed by blast


end
