(* ===== verification/Container.thy ===== *)
theory Container
  imports Go_Text Go_Strings
begin

text \<open>
  Containers, \<open>pkg/container\<close>: the interfaces of \<open>runtime.go\<close> as a record of operations (with the locale
  \<open>container_runtime\<close> for what they promise), the runner of \<open>runner.go\<close>, and the mock of \<open>mock.go\<close>, which
  implements the interfaces.  Only tests use the package: the worker calls docker itself.

  A context is the instant at which it ends, or \<open>None\<close> (it is not cancelled otherwise); a handle of a container is its place in the
  mock's heap, since creating another with the same identifier only replaces the entry of the map.
  The clock is part of the state and moves where the code waits.  The goroutine that collects the
  log runs beside \<open>Wait\<close>: when the task ends the runner waits for it, at a time-out it has got \<open>k\<close> lines.
\<close>

section \<open>The interfaces\<close>

record volume_mount =
  mo_Source :: string
  mo_Target :: string
  mo_ReadOnly :: bool

record container_config =
  cc_ID :: string
  cc_Image :: string
  cc_Commands :: "string list"
  cc_Env :: "(string, string) gomap"
  cc_WorkDir :: string
  cc_Mounts :: "volume_mount list"
  cc_CPUQuota :: int
  cc_MemoryMB :: u32
  cc_DiskMB :: u32
  cc_Timeout :: int
  cc_User :: string
  cc_ReadOnly :: bool
  cc_NetworkOff :: bool

type_synonym deadline = "time option"

record ('c, 'm) container_ops =
  rt_now :: "'m \<Rightarrow> time"
  rt_pull :: "deadline \<Rightarrow> string \<Rightarrow> 'm \<Rightarrow> 'm \<times> string option"
  rt_create :: "deadline \<Rightarrow> container_config \<Rightarrow> 'm \<Rightarrow> 'm \<times> (string + 'c)"
  ct_start :: "deadline \<Rightarrow> 'c \<Rightarrow> 'm \<Rightarrow> 'm \<times> string option"
  ct_wait :: "deadline \<Rightarrow> 'c \<Rightarrow> 'm \<Rightarrow> 'm \<times> (string + int)"
  ct_stop :: "deadline \<Rightarrow> 'c \<Rightarrow> 'm \<Rightarrow> 'm \<times> string option"
  ct_remove :: "deadline \<Rightarrow> 'c \<Rightarrow> 'm \<Rightarrow> 'm \<times> string option"
  ct_logs :: "deadline \<Rightarrow> 'c \<Rightarrow> 'm \<Rightarrow> string + string"

definition expired :: "deadline \<Rightarrow> time \<Rightarrow> bool" where
  "expired ctx now \<longleftrightarrow> (case ctx of None \<Rightarrow> False | Some d \<Rightarrow> d \<le> now)"

definition deadline_after :: "deadline \<Rightarrow> time \<Rightarrow> int \<Rightarrow> deadline" where
  "deadline_after ctx now n = Some (case ctx of None \<Rightarrow> now + n | Some d \<Rightarrow> min d (now + n))"

section \<open>The runner\<close>

record run_result =
  rr_ExitCode :: int
  rr_Output :: "string list"
  rr_StartedAt :: time
  rr_Duration :: int
  rr_ErrorText :: string

text \<open>The lines of a \<open>bufio.Scanner\<close>: up to the first that does not fit its buffer of 64 KiB.\<close>

definition drop_cr :: "string \<Rightarrow> string" where
  "drop_cr l = (if l \<noteq> [] \<and> last l = CHR 0x0D then butlast l else l)"

definition scan_lines :: "string \<Rightarrow> string list" where
  "scan_lines s =
     (let parts = split_at (CHR 0x0A) s
      in map drop_cr (takeWhile (\<lambda>l. length l < 64 * 1024) (if last parts = [] then butlast parts else parts)))"

text \<open>What follows \<open>Create\<close>, without the deferred \<open>Remove\<close>.\<close>

definition run_created ::
    "('c, 'm) container_ops \<Rightarrow> nat \<Rightarrow> deadline \<Rightarrow> 'c \<Rightarrow> 'm \<Rightarrow> 'm \<times> (string + run_result)" where
  "run_created ops k ctx c m =
     (case ct_start ops ctx c m of
        (m1, Some err) \<Rightarrow> (m1, Inl (''starting container: '' @ err))
      | (m1, None) \<Rightarrow>
          let started = rt_now ops m;
              ls = (case ct_logs ops ctx c m1 of Inl _ \<Rightarrow> [] | Inr text \<Rightarrow> scan_lines text)
          in case ct_wait ops ctx c m1 of
               (m2, Inl err) \<Rightarrow>
                 if expired ctx (rt_now ops m2)
                 then (fst (ct_stop ops None c m2),
                       Inr \<lparr> rr_ExitCode = - 1, rr_Output = take k ls, rr_StartedAt = started,
                             rr_Duration = time_sub (rt_now ops m2) started, rr_ErrorText = ''timeout exceeded'' \<rparr>)
                 else (m2, Inl (''waiting for container: '' @ err))
             | (m2, Inr code) \<Rightarrow>
                 (m2, Inr \<lparr> rr_ExitCode = code, rr_Output = ls, rr_StartedAt = started,
                            rr_Duration = time_sub (rt_now ops m2) started, rr_ErrorText = [] \<rparr>))"

definition runner_run ::
    "('c, 'm) container_ops \<Rightarrow> nat \<Rightarrow> deadline \<Rightarrow> container_config \<Rightarrow> 'm \<Rightarrow> 'm \<times> (string + run_result)" where
  "runner_run ops k ctx cfg m =
     (case rt_pull ops ctx (cc_Image cfg) m of
        (m1, Some err) \<Rightarrow> (m1, Inl (''pulling image '' @ cc_Image cfg @ '': '' @ err))
      | (m1, None) \<Rightarrow>
          let ctx' = (if 0 < cc_Timeout cfg then deadline_after ctx (rt_now ops m1) (cc_Timeout cfg) else ctx)
          in case rt_create ops ctx' cfg m1 of
               (m2, Inl err) \<Rightarrow> (m2, Inl (''creating container: '' @ err))
             | (m2, Inr c) \<Rightarrow>
                 (case run_created ops k ctx' c m2 of (m3, r) \<Rightarrow> (fst (ct_remove ops ctx' c m3), r)))"

section \<open>The mock\<close>

record mock_container =
  mc_id :: string
  mc_config :: container_config
  mc_exitCode :: int
  mc_output :: string
  mc_execDelay :: int
  mc_state :: string
  mc_startedAt :: time
  mc_stoppedAt :: time

text \<open>\<open>mr_tie\<close> is the choice of a \<open>select\<close> when the timer and the context are ready at the same time.\<close>

record mock_runtime =
  mr_pulled :: "string list"
  mr_containers :: "(string, nat) gomap"
  mr_heap :: "mock_container list"
  mr_pullDelay :: int
  mr_execDelay :: int
  mr_ExitCodeFunc :: "(container_config \<Rightarrow> int) option"
  mr_OutputFunc :: "(container_config \<Rightarrow> string) option"
  mr_FailPull :: "(string, string) gomap"
  mr_now :: time
  mr_tie :: bool

definition new_mock_runtime :: "time \<Rightarrow> bool \<Rightarrow> mock_runtime" where
  "new_mock_runtime now tie = \<lparr> mr_pulled = [], mr_containers = [], mr_heap = [], mr_pullDelay = 10000000,
     mr_execDelay = 50000000, mr_ExitCodeFunc = None, mr_OutputFunc = None, mr_FailPull = [], mr_now = now,
     mr_tie = tie \<rparr>"

definition ctx_error :: string where
  "ctx_error = ''context deadline exceeded''"

text \<open>Waiting for a delay or the end of the context: when it is over, and whether the delay had passed.\<close>

definition select_delay :: "deadline \<Rightarrow> int \<Rightarrow> mock_runtime \<Rightarrow> mock_runtime \<times> bool" where
  "select_delay ctx delay m =
     (let ready = max (mr_now m) (mr_now m + delay)
      in case ctx of
           None \<Rightarrow> (m\<lparr> mr_now := ready \<rparr>, True)
         | Some d \<Rightarrow>
             let ends = max (mr_now m) d
             in if ready < ends then (m\<lparr> mr_now := ready \<rparr>, True)
                else if ends < ready then (m\<lparr> mr_now := ends \<rparr>, False)
                else (m\<lparr> mr_now := ready \<rparr>, mr_tie m))"

definition mock_pull :: "deadline \<Rightarrow> string \<Rightarrow> mock_runtime \<Rightarrow> mock_runtime \<times> string option" where
  "mock_pull ctx img m =
     (case gget (mr_FailPull m) img of
        Some err \<Rightarrow> (m, Some err)
      | None \<Rightarrow>
     (case select_delay ctx (mr_pullDelay m) m of
        (m1, True) \<Rightarrow> (m1\<lparr> mr_pulled := img # mr_pulled m1 \<rparr>, None)
      | (m1, False) \<Rightarrow> (m1, Some ctx_error)))"

definition default_output :: "container_config \<Rightarrow> string" where
  "default_output cfg = ''Running: '' @ join (cc_Commands cfg) '' && '' @ [CHR 0x0A]"

definition mock_exit_code :: "mock_runtime \<Rightarrow> container_config \<Rightarrow> int" where
  "mock_exit_code m cfg = (case mr_ExitCodeFunc m of None \<Rightarrow> 0 | Some f \<Rightarrow> f cfg)"

definition mock_output :: "mock_runtime \<Rightarrow> container_config \<Rightarrow> string" where
  "mock_output m cfg = (case mr_OutputFunc m of None \<Rightarrow> default_output cfg | Some f \<Rightarrow> f cfg)"

definition mock_create :: "deadline \<Rightarrow> container_config \<Rightarrow> mock_runtime \<Rightarrow> mock_runtime \<times> (string + nat)" where
  "mock_create ctx cfg m =
     (if cc_Image cfg \<notin> set (mr_pulled m) then (m, Inl (''image not pulled: '' @ cc_Image cfg))
      else let c = \<lparr> mc_id = cc_ID cfg, mc_config = cfg, mc_exitCode = mock_exit_code m cfg, mc_output = mock_output m cfg,
                     mc_execDelay = mr_execDelay m, mc_state = ''created'', mc_startedAt = 0, mc_stoppedAt = 0 \<rparr>
           in (m\<lparr> mr_containers := gput (cc_ID cfg) (length (mr_heap m)) (mr_containers m),
                  mr_heap := mr_heap m @ [c] \<rparr>, Inr (length (mr_heap m))))"

definition is_pulled :: "string \<Rightarrow> mock_runtime \<Rightarrow> bool" where
  "is_pulled img m \<longleftrightarrow> img \<in> set (mr_pulled m)"

definition get_container :: "string \<Rightarrow> mock_runtime \<Rightarrow> nat option" where
  "get_container x m = gget (mr_containers m) x"

definition set_container :: "nat \<Rightarrow> (mock_container \<Rightarrow> mock_container) \<Rightarrow> mock_runtime \<Rightarrow> mock_runtime" where
  "set_container c f m = m\<lparr> mr_heap := (mr_heap m)[c := f (mr_heap m ! c)] \<rparr>"

definition container_state :: "nat \<Rightarrow> mock_runtime \<Rightarrow> string" where
  "container_state c m = mc_state (mr_heap m ! c)"

definition mock_start :: "deadline \<Rightarrow> nat \<Rightarrow> mock_runtime \<Rightarrow> mock_runtime \<times> string option" where
  "mock_start ctx c m =
     (let k = mr_heap m ! c
      in if mc_state k \<noteq> ''created''
         then (m, Some (''container '' @ mc_id k @ '' not in created state: '' @ mc_state k))
         else (set_container c (\<lambda>k. k\<lparr> mc_state := ''running'', mc_startedAt := mr_now m \<rparr>) m, None))"

definition mock_wait :: "deadline \<Rightarrow> nat \<Rightarrow> mock_runtime \<Rightarrow> mock_runtime \<times> (string + int)" where
  "mock_wait ctx c m =
     (let k = mr_heap m ! c
      in if mc_state k \<noteq> ''running''
         then (m, Inl (''container '' @ mc_id k @ '' not running: '' @ mc_state k))
         else case select_delay ctx (mc_execDelay k) m of
                (m1, False) \<Rightarrow> (m1, Inl ctx_error)
              | (m1, True) \<Rightarrow>
                  (set_container c (\<lambda>k. k\<lparr> mc_state := ''exited'', mc_stoppedAt := mr_now m1 \<rparr>) m1,
                   Inr (mc_exitCode k)))"

definition mock_stop :: "deadline \<Rightarrow> nat \<Rightarrow> mock_runtime \<Rightarrow> mock_runtime \<times> string option" where
  "mock_stop ctx c m = (set_container c (\<lambda>k. k\<lparr> mc_state := ''stopped'', mc_stoppedAt := mr_now m \<rparr>) m, None)"

definition mock_remove :: "deadline \<Rightarrow> nat \<Rightarrow> mock_runtime \<Rightarrow> mock_runtime \<times> string option" where
  "mock_remove ctx c m = (set_container c (\<lambda>k. k\<lparr> mc_state := ''removed'' \<rparr>) m, None)"

definition mock_logs :: "deadline \<Rightarrow> nat \<Rightarrow> mock_runtime \<Rightarrow> string + string" where
  "mock_logs ctx c m = Inr (mc_output (mr_heap m ! c))"

definition mock_ops :: "(nat, mock_runtime) container_ops" where
  "mock_ops = \<lparr> rt_now = mr_now, rt_pull = mock_pull, rt_create = mock_create, ct_start = mock_start,
     ct_wait = mock_wait, ct_stop = mock_stop, ct_remove = mock_remove, ct_logs = mock_logs \<rparr>"

section \<open>The contract\<close>

text \<open>\<open>live\<close> are the containers that exist. A handle of a live container stays so until it is removed.\<close>

locale container_runtime =
  fixes ops :: "('c, 'm) container_ops"
    and live :: "'m \<Rightarrow> 'c set"
  assumes pull_live: "live (fst (rt_pull ops ctx img m)) = live m"
    and create_live: "rt_create ops ctx cfg m = (m', Inr c) \<Longrightarrow> c \<notin> live m \<and> live m' = insert c (live m)"
    and create_failed: "rt_create ops ctx cfg m = (m', Inl e) \<Longrightarrow> live m' = live m"
    and start_live: "c \<in> live m \<Longrightarrow> live (fst (ct_start ops ctx c m)) = live m"
    and wait_live: "c \<in> live m \<Longrightarrow> live (fst (ct_wait ops ctx c m)) = live m"
    and stop_live: "c \<in> live m \<Longrightarrow> live (fst (ct_stop ops ctx c m)) = live m"
    and remove_live: "live (fst (ct_remove ops ctx c m)) = live m - {c}"
begin

lemma created_live:
  assumes "c \<in> live m"
  shows "live (fst (run_created ops k ctx c m)) = live m"
proof -
  obtain m1 e where s: "ct_start ops ctx c m = (m1, e)" by fastforce
  with start_live [OF assms, of ctx] have l1: "live m1 = live m" by simp
  obtain m2 r where w: "ct_wait ops ctx c m1 = (m2, r)" by fastforce
  with wait_live [of c m1 ctx] assms l1 have l2: "live m2 = live m" by simp
  with stop_live [of c m2 None] assms have "live (fst (ct_stop ops None c m2)) = live m" by simp
  then show ?thesis by (simp add: run_created_def s w l1 l2 Let_def split: option.split sum.split)
qed

lemma run_live: "live (fst (runner_run ops k ctx cfg m)) = live m"
proof -
  obtain m1 e where p: "rt_pull ops ctx (cc_Image cfg) m = (m1, e)" by fastforce
  with pull_live [of ctx "cc_Image cfg" m] have l1: "live m1 = live m" by simp
  show ?thesis
  proof (cases e)
    case None
    let ?ctx = "if 0 < cc_Timeout cfg then deadline_after ctx (rt_now ops m1) (cc_Timeout cfg) else ctx"
    obtain m2 x where c: "rt_create ops ?ctx cfg m1 = (m2, x)" by fastforce
    show ?thesis
    proof (cases x)
      case (Inl err)
      then show ?thesis using create_failed c l1 by (simp add: runner_run_def p None Let_def)
    next
      case (Inr h)
      have h: "h \<notin> live m" "live m2 = insert h (live m)"
        using create_live [OF c [unfolded Inr]] by (simp_all add: l1)
      obtain m3 r where r: "run_created ops k ?ctx h m2 = (m3, r)" by fastforce
      with created_live [of h m2 k ?ctx] h(2) have "live m3 = insert h (live m)" by simp
      with remove_live [of ?ctx h m3] h(1) show ?thesis
        using Inr c r by (simp add: runner_run_def p None Let_def)
    qed
  qed (simp add: runner_run_def p l1)
qed

end

definition live_containers :: "mock_runtime \<Rightarrow> nat set" where
  "live_containers m = {c. c < length (mr_heap m) \<and> container_state c m \<noteq> ''removed''}"

lemma select_delay_heap: "mr_heap (fst (select_delay ctx d m)) = mr_heap m"
  by (simp add: select_delay_def Let_def split: option.split)

lemma live_cong: "mr_heap m' = mr_heap m \<Longrightarrow> live_containers m' = live_containers m"
  by (simp add: live_containers_def container_state_def)

lemma live_set_container:
  assumes "c \<in> live_containers m" "mc_state (f (mr_heap m ! c)) \<noteq> ''removed''"
  shows "live_containers (set_container c f m) = live_containers m"
  using assms by (auto simp: live_containers_def container_state_def set_container_def nth_list_update)

interpretation mock: container_runtime mock_ops live_containers
proof
  fix ctx :: deadline and img m
  show "live_containers (fst (rt_pull mock_ops ctx img m)) = live_containers m"
    using select_delay_heap [of ctx "mr_pullDelay m" m]
    by (intro live_cong) (auto simp: mock_ops_def mock_pull_def split: option.splits prod.splits bool.splits)
next
  fix ctx cfg m m' c
  assume "rt_create mock_ops ctx cfg m = (m', Inr c)"
  then show "c \<notin> live_containers m \<and> live_containers m' = insert c (live_containers m)"
    by (auto simp: mock_ops_def mock_create_def live_containers_def container_state_def nth_append less_Suc_eq
        split: if_splits)
next
  fix ctx cfg m m' e
  assume "rt_create mock_ops ctx cfg m = (m', Inl e)"
  then show "live_containers m' = live_containers m" by (auto simp: mock_ops_def mock_create_def Let_def split: if_splits)
next
  fix c m ctx assume "c \<in> live_containers m"
  then show "live_containers (fst (ct_start mock_ops ctx c m)) = live_containers m"
    by (simp add: mock_ops_def mock_start_def Let_def live_set_container)
next
  fix c m ctx assume c: "c \<in> live_containers m"
  obtain m1 ok where s: "select_delay ctx (mc_execDelay (mr_heap m ! c)) m = (m1, ok)" by fastforce
  with select_delay_heap [of ctx "mc_execDelay (mr_heap m ! c)" m] have h: "mr_heap m1 = mr_heap m" by simp
  then have l: "live_containers m1 = live_containers m" by (rule live_cong)
  then show "live_containers (fst (ct_wait mock_ops ctx c m)) = live_containers m"
    using c by (cases ok) (simp_all add: mock_ops_def mock_wait_def Let_def s live_set_container)
next
  fix c m ctx assume "c \<in> live_containers m"
  then show "live_containers (fst (ct_stop mock_ops ctx c m)) = live_containers m"
    by (simp add: mock_ops_def mock_stop_def live_set_container)
next
  fix ctx c m
  show "live_containers (fst (ct_remove mock_ops ctx c m)) = live_containers m - {c}"
    by (cases "c < length (mr_heap m)")
      (auto simp: mock_ops_def mock_remove_def live_containers_def container_state_def set_container_def nth_list_update
        split: if_splits)
qed

section \<open>Properties\<close>

text \<open>C34. The runner leaves no container behind: whatever happens, an error of any call or a time-out included,
  the containers of the runtime that exist after \<open>Run\<close> are those that existed before, on the mock.\<close>

theorem runner_leaves_no_container:
  "live_containers (fst (runner_run mock_ops k ctx cfg m)) = live_containers m"
  by (rule mock.run_live)

lemma select_without_deadline:
  "0 \<le> d \<Longrightarrow> select_delay None d m = (m\<lparr> mr_now := mr_now m + d \<rparr>, True)"
  by (simp add: select_delay_def)

lemma select_until:
  "0 \<le> d \<Longrightarrow> 0 < n \<Longrightarrow> d \<noteq> n \<Longrightarrow> mr_now m = t \<Longrightarrow>
     select_delay (Some (t + n)) d m = (m\<lparr> mr_now := t + min d n \<rparr>, d < n)"
  by (auto simp: select_delay_def Let_def min_def)

text \<open>What \<open>Run\<close> returns on the mock, for an image that can be pulled and a context without end: without a
  time-out, or with one that is longer than the task takes, the exit code and every line of the output
  after the time the task takes; with a shorter one, at the time-out, exit code -1, the error
  \<open>timeout exceeded\<close>, and the lines that were collected so far.\<close>

theorem runner_outcome:
  assumes "gget (mr_FailPull m) (cc_Image cfg) = None" "0 \<le> mr_pullDelay m" "0 \<le> mr_execDelay m"
    and "mr_execDelay m \<noteq> cc_Timeout cfg" "mr_execDelay m \<le> max_duration" "cc_Timeout cfg \<le> max_duration"
  shows "snd (runner_run mock_ops k None cfg m) = Inr
    (let timeout = 0 < cc_Timeout cfg \<and> cc_Timeout cfg < mr_execDelay m
     in \<lparr> rr_ExitCode = (if timeout then - 1 else mock_exit_code m cfg),
          rr_Output = (if timeout then take k (scan_lines (mock_output m cfg)) else scan_lines (mock_output m cfg)),
          rr_StartedAt = mr_now m + mr_pullDelay m,
          rr_Duration = (if timeout then cc_Timeout cfg else mr_execDelay m),
          rr_ErrorText = (if timeout then ''timeout exceeded'' else []) \<rparr>)"
proof -
  let ?m1 = "m\<lparr> mr_now := mr_now m + mr_pullDelay m, mr_pulled := cc_Image cfg # mr_pulled m \<rparr>"
  have p: "mock_pull None (cc_Image cfg) m = (?m1, None)"
    using assms(1,2) by (simp add: mock_pull_def select_without_deadline)
  let ?T = "mr_now m + mr_pullDelay m"
  have ex: "mock_exit_code ?m1 cfg = mock_exit_code m cfg" "mock_output ?m1 cfg = mock_output m cfg"
    by (simp_all add: mock_exit_code_def mock_output_def)
  have sub: "time_sub (?T + d) ?T = d" if "0 \<le> d" "d \<le> max_duration" for d
    using that by (simp add: time_sub_def)
  note steps = runner_run_def mock_ops_def p deadline_after_def mock_create_def run_created_def mock_start_def
    mock_wait_def mock_logs_def set_container_def ex sub Let_def expired_def mock_stop_def mock_remove_def
  show ?thesis
  proof (cases "0 < cc_Timeout cfg")
    case False
    have sel: "select_delay None (mr_execDelay m) m' = (m'\<lparr> mr_now := mr_now m' + mr_execDelay m \<rparr>, True)" for m'
      using select_without_deadline [OF assms(3)] .
    show ?thesis using False assms(3,5) by (simp add: steps sel)
  next
    case pos: True
    have sel: "select_delay (Some (?T + cc_Timeout cfg)) (mr_execDelay m) m'
        = (m'\<lparr> mr_now := ?T + min (mr_execDelay m) (cc_Timeout cfg) \<rparr>, mr_execDelay m < cc_Timeout cfg)"
      if "mr_now m' = ?T" for m'
      using select_until [OF assms(3) pos assms(4) that] .
    show ?thesis
    proof (cases "mr_execDelay m < cc_Timeout cfg")
      case True
      then show ?thesis using pos assms(3,5) by (simp add: steps sel min_def)
    next
      case False
      then show ?thesis using pos assms(4,6) by (simp add: steps sel min_def)
    qed
  qed
qed

definition small_container :: container_config where
  "small_container = \<lparr> cc_ID = ''c'', cc_Image = ''alpine'', cc_Commands = [''ls''], cc_Env = [], cc_WorkDir = [],
     cc_Mounts = [], cc_CPUQuota = 0, cc_MemoryMB = 0, cc_DiskMB = 0, cc_Timeout = 10000000, cc_User = [],
     cc_ReadOnly = False, cc_NetworkOff = False \<rparr>"

theorem runner_outcome_witness:
  "\<exists>r. snd (runner_run mock_ops 0 None small_container (new_mock_runtime 0 False)) = Inr r
     \<and> rr_ExitCode r = - 1 \<and> rr_Duration r = 10000000 \<and> rr_ErrorText r = ''timeout exceeded''"
  using runner_outcome [of "new_mock_runtime 0 False" small_container 0]
  by (simp add: new_mock_runtime_def small_container_def max_duration_def Let_def)

end
