(* ===== verification/Spec2Isabelle.thy ===== *)
theory Spec2Isabelle
  imports Graph_Properties Scheduler_Properties Pipeline_Properties Secrets Auth Log_Properties
    Scm_Properties Build_Store Master_Properties Worker_Process Cli_Properties Container
begin

text \<open>
  Relay CI: a verification library for the build system in \<open>src/\<close>.

  The program.  A master (\<open>cmd/master\<close>) receives webhooks from git hosts, turns the repository's
  \<open>pipeline.yaml\<close> into a graph of tasks, and assigns the tasks to workers (\<open>cmd/worker\<close>), which run
  them in containers and report results and log lines.  The logic sits in \<open>pkg/\<close>: \<open>pipeline\<close> builds
  the graph, \<open>dag\<close> executes it, \<open>scheduler\<close> joins the graphs of all builds with the registry of
  workers (\<open>worker\<close>) and the history (\<open>store\<close>), \<open>scm\<close> talks to the git hosts, \<open>logstore\<close> keeps the
  logs, \<open>secrets\<close> keeps and masks secrets, \<open>auth\<close> guards the services.  Agents reach the master through
  an MCP server (\<open>cmd/mcp\<close>), people through a command line client (\<open>cmd/cli\<close>).

  The theories, in the order of their imports.
  \<^item> \<open>Relay_Prelude\<close>: Go maps, sets and range loops, instants and durations, error results, and the
    lemmas and rule collections every component uses.  \<open>Go_Strings\<close>: prefixes, replacement, base64.
  \<^item> \<open>Task\<close> (\<open>pkg/dag/task.go\<close>): states, the transition table, the task record, \<open>TransitionTo\<close>.
  \<^item> \<open>Graph\<close> (\<open>pkg/dag/graph.go\<close>): the graph and all its methods.  \<open>Graph_Wf\<close>: the representation
    invariant, kept by every operation.  \<open>Graph_Validate\<close>: Kahn's algorithm against acyclicity of
    the dependency relation.  \<open>Graph_Exec\<close>: execution as a step relation \<open>graph_step\<close> over events and
    its runs \<open>graph_run\<close>.  \<open>Graph_Runs\<close>: the invariants of runs.  \<open>Graph_Live\<close>: a bound on the events
    of a run and liveness.  \<open>Graph_Properties\<close>: the properties of the graph with small examples.
  \<^item> \<open>Registry\<close> (\<open>pkg/worker/registry.go\<close>): workers and capacities on 32-bit words; the locale
    \<open>resource_pool\<close>, the contract of reserving and releasing, interpreted on one worker.
  \<^item> \<open>Build_Store\<close> (\<open>pkg/store\<close>): the in-memory and the SQLite history; the locale \<open>history_store\<close> is
    the Go interface \<open>Store\<close> with its laws, interpreted on both.
  \<^item> \<open>Scheduler\<close> (\<open>pkg/scheduler/scheduler.go\<close>): state and operations.  \<open>Scheduler_Runs\<close>: each operation
    moves every build's graph along a \<open>graph_run\<close> (\<open>evolves\<close>), a simulation that carries the
    properties of the graph to the step relation \<open>sched_step\<close>.  \<open>Scheduler_Properties\<close>.
  \<^item> \<open>Pipeline_Config\<close>, \<open>Pipeline_Tools\<close>, \<open>Pipeline_Build\<close>, \<open>Pipeline_Properties\<close>
    (\<open>pkg/pipeline/config.go\<close>, \<open>defaults.go\<close>, \<open>parser.go\<close>): from the decoded file to the graph.
  \<^item> \<open>Secrets\<close> (\<open>pkg/secrets/store.go\<close>): the secret store, the scrubber and \<open>ScrubEnv\<close>.
  \<^item> \<open>Auth\<close> (\<open>pkg/auth/auth.go\<close>): the interceptors and the client's credentials.
  \<^item> \<open>Log_Store\<close>, \<open>Log_Properties\<close> (\<open>pkg/logstore\<close>): log lines, paging, subscribers, log files.
  \<^item> \<open>Scm_Types\<close>, \<open>Scm\<close>, \<open>Scm_Properties\<close> (\<open>pkg/scm\<close>): events, the GitHub and GitLab clients behind the
    locale \<open>scm_client\<close>, the webhook router.
  \<^item> \<open>Go_Text\<close>, \<open>Go_Path\<close>: trimming, splitting, decimal numbers, paths of \<open>filepath\<close>.
  \<^item> \<open>Build_Source\<close>, \<open>Proto\<close>, \<open>Scheduler_Service\<close> (\<open>cmd/master/grpc_scheduler.go\<close>): the pipeline of a
    commit, the messages, the scheduler service.  \<open>Webhook\<close> (\<open>webhook.go\<close>): the webhook endpoint.
    \<open>Api\<close> (\<open>api.go\<close>): the REST interface.  \<open>Audit_Trail\<close> (\<open>audit.go\<close>).
  \<^item> \<open>Dispatcher\<close> (\<open>dispatcher.go\<close>), \<open>Worker_Service\<close> and \<open>Build_Comment\<close> (\<open>grpc_worker.go\<close>): what the
    master sends to workers and git hosts, and what workers report.
  \<^item> \<open>Log_Service\<close> (\<open>grpc_logs.go\<close>, \<open>http_logs.go\<close>), \<open>Secrets_Service\<close> (\<open>secrets_server.go\<close>), \<open>Retention\<close>
    (\<open>retention.go\<close>), \<open>Rate_Limiter\<close> (\<open>ratelimit.go\<close>).
  \<^item> \<open>Digest_Store\<close> (\<open>digest_store.go\<close>), \<open>Verify\<close> (\<open>verify.go\<close>): pinned pipelines and local bundles.
  \<^item> \<open>Master\<close> (\<open>main.go\<close>): the start, the scheduling loop, and all handlers as the step relation
    \<open>master_step\<close>, of which every run follows the pipelines of its builds.
  \<^item> \<open>Executor\<close>, \<open>Executor_Properties\<close> (\<open>cmd/worker/executor.go\<close>): the execution of a task, from the
    assignment to the report, with the \<open>docker\<close> command line; \<open>Worker_Process\<close> (\<open>grpc_server.go\<close>,
    \<open>main.go\<close>): the worker's service, running tasks, registration and heartbeats.
  \<^item> \<open>Mcp_Tools\<close> (\<open>cmd/mcp/tools.go\<close>): the tools as texts over the answers of a master; \<open>Mcp_Server\<close>
    (\<open>main.go\<close>, \<open>http.go\<close>): JSON-RPC over standard input and HTTP, sessions; \<open>Mcp_Properties\<close>: the
    contracts \<open>mcp_service\<close> and \<open>live_sessions\<close>, interpreted on the master's own services and on the
    transport, and the properties.  \<open>Master_Properties\<close>: the graphs of all builds of a reachable
    master are well-formed, and what the tools show of them is true.
  \<^item> \<open>Go_Format\<close>: dates, clocks and tables.  \<open>Cli\<close>, \<open>Cli_Verify\<close> (\<open>cmd/cli/main.go\<close>): the commands of the
    client; \<open>Cli_Properties\<close>: exit codes, streams, arguments, and the contract \<open>verify_service\<close> of the
    master, interpreted on \<open>VerifyLocal\<close>.
  \<^item> \<open>Container\<close> (\<open>pkg/container\<close>): the runner over the interface \<open>container_runtime\<close>, and the mock that
    implements it.
  \<^item> This theory: the property that spans pipeline, graph and scheduler.

  How the model corresponds to the code.  Structs are records with a prefix per type; enumerations
  are datatypes with the constructors of the source; maps are association lists with distinct keys;
  a method that changes its receiver returns the changed state; an \<open>error\<close> is the left side of a
  sum whose datatype has one constructor per message; \<open>uint32\<close> and \<open>uint64\<close> are words; the Go
  \<open>int64\<close> arithmetic of log paging is written out with its wrap-around, and a panic is \<open>None\<close>.  The
  order of a range over a map is not fixed by the language: it is an argument, and a theorem
  assumes no more of it than that it lists the keys (\<open>range_order\<close>, \<open>child_order\<close>).  A method that
  holds its lock is one step; the clock is an argument.  Definitions have the names of the code in
  lower case with underscores, or with a prefix where two packages use one name.

  What is an argument because it is not code of the repository: the YAML and JSON decoders, HMAC,
  the HTTP transport, the assignment callback and the cancellation context of the scheduler, the
  environment.  Hypotheses about them are stated where they are used; there are none about their
  results in the theorems below, which hold for every such function; a handler's environment is a
  record of them, and where a theorem needs the orders of range loops in it, it asks for
  \<open>pipeline_orders_ok\<close> or \<open>kids_ok\<close>.  A goroutine that a handler starts is a value it returns, and what the
  goroutine does is a step of its own.  The assignment callback is any function in a tick of the
  master, and what it does to the dispatcher is a step beside it.

  What the lemmas show.  Tasks: transitions go strictly forward, so runs are bounded by four events
  per task.  Graphs: the invariant, exactness of validation, safety of starting, finality of final
  states, what a failure does to everything below, the outcome of each operation on each branch,
  liveness of graphs with default conditions, and the counterexamples to liveness with \<open>always\<close> and
  \<open>on_failure\<close>.  Registry: conservation of capacity without wrap-around, exactness of the heartbeat
  check.  Scheduler: safety in every reachable state, best fit, the outcome of a result, and three
  defects as theorems.  Store: the history of a build, retention, the difference of the two stores.
  Pipeline: the graph is what the file says, resources are never zero, round trip of the review
  script.  Secrets: no masked value survives, laws of the store, refinement of a finite map by the
  service.  Logs: numbering, paging, lossless subscription, what is pushed is read back.  Git hosts:
  only authentic webhooks are accepted, and an accepted one queues exactly the build of its commit.
  Verification: only pinned or accepted pipelines are built, pins survive a restart.  Limiter: no key
  exceeds burst and rate.  Master: in every reachable state every build follows the pipeline it was
  submitted with, however it was submitted.  Worker: the report it sends ends the task in the
  scheduler, the command line says what the assignment says, output is read back from the log.
  MCP: sessions are a set, every request is answered in order, the advertised tools are those
  served, what they show of a build is true, and what \<open>diagnose_build\<close> says of a cancelled build is not.
  Client: \<open>ci verify\<close> succeeds only when the master trusts the pipeline and the build passed, the bundle
  arrives as it was read, \<open>ci watch\<close> stops after thirty seconds.  Containers: none is left behind.

  Bounds and termination.  All loops are total functions: Kahn's algorithm by the number of positive
  in-degrees plus the queue, \<open>skipDownstream\<close> by the number of tasks not in a final state; no fuel is
  used; the polls of the client are the list of the answers it gets before its deadline.  The liveness theorem takes a state in which no task is in flight, and the bound on events
  shows that every run reaches one.

  Not modelled: TLS, metrics, generated code and the web interface; the text encodings of YAML, JSON
  and SQL; failures of the database; rounding of floating-point numbers; data races on the graph's
  unlocked readers.
\<close>

section \<open>From the pipeline file to the running build\<close>

lemma submit_keeps_graph:
  assumes "submit_build ks ks' now b s = Inr s'"
  shows "\<exists>b1. gget (s_builds s') (b_ID b) = Some b1 \<and> b_Graph b1 = b_Graph b \<and> b_ID b1 = b_ID b"
  using assms by (auto simp: submit_build_def put_build_def Let_def split: if_splits)

text \<open>The pipeline file decides what runs when: let a build be submitted with the graph that
  \<open>BuildGraph\<close> made of a pipeline, and let the scheduler take any further steps, other builds
  included. Each task of the file is still in the build's graph with the configuration the file
  gives it, and once it is ready, running or finished by running, every task it lists under
  \<open>depends_on\<close> has passed, unless its condition is \<open>always\<close> or \<open>on_failure\<close>.\<close>

theorem pipeline_order_respected:
  assumes "build_dag script ks ks' ord cfg = Inr (b_Graph b)"
    and "\<And>h. wf_graph h \<Longrightarrow> range_order (g_tasks h) (ks h) \<and> child_order h (ord h)"
    and "submit_build js js' now b s = Inr s1" "sched_step\<^sup>*\<^sup>* s1 s2" "tc \<in> set (cf_Tasks cfg)"
  shows "\<exists>b2 t. gget (s_builds s2) (b_ID b) = Some b2 \<and> gget (g_tasks (b_Graph b2)) (tc_ID tc) = Some t
    \<and> static_part t = static_part (config_to_task tc (cf_Defaults cfg))
    \<and> (started (t_State t) \<and> tc_Condition tc \<noteq> ''always'' \<and> tc_Condition tc \<noteq> ''on_failure'' \<longrightarrow>
        (\<forall>p \<in> set (tc_DependsOn tc). state_in (g_tasks (b_Graph b2)) p = Some TaskPassed))"
proof -
  from build_dag_spec [OF assms(1,2)] assms(5) have w: "wf_graph (b_Graph b)" "all_pending (b_Graph b)"
    and c: "gget (g_tasks (b_Graph b)) (tc_ID tc) = Some (config_to_task tc (cf_Defaults cfg))"
    and d: "set (parents (b_Graph b) (tc_ID tc)) = set (tc_DependsOn tc)" by blast+
  obtain b2 es where b2: "gget (s_builds s2) (b_ID b) = Some b2" "graph_run (b_Graph b) es (b_Graph b2)"
    using submit_keeps_graph [OF assms(3)] sched_steps_build [OF assms(4)] by metis
  show ?thesis using run_follows_file [OF b2(2) w c] b2(1) d by (simp add: config_to_task_def)
qed

definition demo_build :: build where
  "demo_build = small_ci_build ''b1''
     (case build_dag [] keys_of keys_of children (apply_defaults small_config) of
        Inl _ \<Rightarrow> new_graph | Inr g \<Rightarrow> g)"

definition demo_ids :: "string list" where
  "demo_ids = [''clone'', ''test'', ''lint-ruff'']"

definition demo_submitted :: scheduler where
  "demo_submitted = submitted (submit_build demo_ids demo_ids 5 demo_build
     (new_scheduler (put_worker ''w''
        (small_worker\<lparr> wi_TotalDiskMB := 9000, wi_AvailableDiskMB := 9000 \<rparr>) (new_registry 30))))"

definition demo_env :: sched_env where
  "demo_env = (small_env True)\<lparr> e_mark_order := (\<lambda>b. demo_ids), e_ready_order := (\<lambda>b. demo_ids) \<rparr>"

definition demo_running :: scheduler where
  "demo_running = fst (schedule demo_env [''b1''] demo_submitted)"

definition demo_cloned :: scheduler where
  "demo_cloned = fst (handle_task_result (children (build_graph demo_running ''b1''))
     (children (build_graph demo_running ''b1'') ''clone'') 7 8 (clone_report ''b1'') demo_running)"

lemma demo_submitted_builds: "s_builds demo_submitted = [(''b1'', demo_build\<lparr> b_CreatedAt := 5 \<rparr>)]"
  by code_simp

lemma demo_steps: "sched_step\<^sup>*\<^sup>* demo_submitted demo_cloned"
proof -
  have "range_order (g_tasks (b_Graph demo_build)) demo_ids" by code_simp
  then have "env_ok demo_env demo_submitted"
    by (simp add: env_ok_def demo_submitted_builds gget_def demo_env_def)
  moreover obtain s n early where s: "schedule demo_env [''b1''] demo_submitted = (s, n, early)"
    by (metis prod_cases3)
  ultimately have one: "sched_step demo_submitted demo_running"
    using sched_step.cycle by (simp add: demo_running_def)
  let ?g = "build_graph demo_running ''b1''"
  have w: "wf_graph ?g" by code_simp
  have "child_order (b_Graph b) (children ?g) \<and> distinct (children ?g ''clone'')
      \<and> set (children ?g ''clone'') = set (children (b_Graph b) ''clone'')"
    if "gget (s_builds demo_running) ''b1'' = Some b" for b
  proof -
    have "b_Graph b = ?g" using that by (simp add: build_graph_def)
    then show ?thesis using child_order_children [OF w] wf_distinct_children [OF w] by simp
  qed
  moreover have "reportable (rr_State (clone_report ''b1''))" by code_simp
  ultimately have "sched_step demo_running demo_cloned"
    unfolding demo_cloned_def
    by (intro sched_step.result [OF _ _ prod.collapse [symmetric]]) (simp_all add: clone_report_def)
  with one show ?thesis by (meson rtranclp.simps)
qed

theorem pipeline_order_respected_witness:
  "state_in (g_tasks (build_graph demo_cloned ''b1'')) ''test'' = Some TaskReady
   \<and> state_in (g_tasks (build_graph demo_cloned ''b1'')) ''clone'' = Some TaskPassed"
proof -
  let ?cfg = "apply_defaults small_config"
  have b: "build_dag [] keys_of keys_of children ?cfg = Inr (b_Graph demo_build)" by code_simp
  have o: "range_order (g_tasks h) (keys_of h) \<and> child_order h (children h)" if "wf_graph h" for h
    using that wf_tasks [OF that] by (auto simp: keys_of_def child_order_children)
  have s: "submit_build demo_ids demo_ids 5 demo_build (new_scheduler (put_worker ''w''
      (small_worker\<lparr> wi_TotalDiskMB := 9000, wi_AvailableDiskMB := 9000 \<rparr>) (new_registry 30)))
    = Inr demo_submitted" by code_simp
  have t: "small_config_task ''test'' [''clone''] \<in> set (cf_Tasks ?cfg)" by code_simp
  have i: "b_ID demo_build = ''b1''" by code_simp
  have ready: "state_in (g_tasks (build_graph demo_cloned ''b1'')) ''test'' = Some TaskReady" by code_simp
  moreover have "started TaskReady" by code_simp
  ultimately show ?thesis
    using pipeline_order_respected [OF b o s demo_steps t]
    by (auto simp: i small_config_task_def build_graph_def state_in_def)
qed

end
